(* ===== verification/Go_Strings.thy ===== *)
theory Go_Strings imports Main "HOL-Library.Word" "HOL-Library.List_Lexorder" "HOL-Library.Char_ord" begin

text \<open>
  The prelude of the development: the functions of Go's \<open>strings\<close>, \<open>strconv\<close> and \<open>sort\<close>
  packages that the container toolkit calls, on HOL strings (lists of bytes), with the
  lemmas about them that the component theories share. Nothing here is code of the
  repository; the definitions state what the Go standard library documents, for byte
  strings in ASCII (white space, case and glob characters are single bytes).
\<close>

named_theorems go_simps \<open>evaluation rules of the string and path functions\<close>
named_theorems err_simps \<open>evaluation rules of the error values\<close>

subsection \<open>Prefixes, suffixes, search\<close>

definition has_prefix :: "string \<Rightarrow> string \<Rightarrow> bool" where
  "has_prefix s p \<longleftrightarrow> take (length p) s = p"

definition has_suffix :: "string \<Rightarrow> string \<Rightarrow> bool" where
  "has_suffix s p \<longleftrightarrow> has_prefix (rev s) (rev p)"

definition trim_prefix :: "string \<Rightarrow> string \<Rightarrow> string" where
  "trim_prefix s p = (if has_prefix s p then drop (length p) s else s)"

definition trim_suffix :: "string \<Rightarrow> string \<Rightarrow> string" where
  "trim_suffix s p = (if has_suffix s p then take (length s - length p) s else s)"

text \<open>\<open>strings.CutPrefix\<close>: the rest and whether the prefix was there.\<close>

definition cut_prefix :: "string \<Rightarrow> string \<Rightarrow> string option" where
  "cut_prefix s p = (if has_prefix s p then Some (drop (length p) s) else None)"

fun str_index :: "string \<Rightarrow> string \<Rightarrow> nat option" where
  "str_index [] p = (if p = [] then Some 0 else None)"
| "str_index (c # s) p = (if has_prefix (c # s) p then Some 0 else map_option Suc (str_index s p))"

definition str_contains :: "string \<Rightarrow> string \<Rightarrow> bool" where
  "str_contains s p \<longleftrightarrow> str_index s p \<noteq> None"

lemma has_prefix_iff: "has_prefix s p \<longleftrightarrow> (\<exists>t. s = p @ t)"
  unfolding has_prefix_def by (metis append_eq_conv_conj append_take_drop_id)

lemma has_prefix_append [simp]: "has_prefix (p @ t) p"
  by (simp add: has_prefix_def)

lemma has_prefix_Nil [simp]: "has_prefix s []"
  by (simp add: has_prefix_def)

lemma has_prefix_Nil2 [simp]: "has_prefix [] p \<longleftrightarrow> p = []"
  by (auto simp: has_prefix_def)

lemma has_prefix_Cons [simp]: "has_prefix (c # s) (d # p) \<longleftrightarrow> c = d \<and> has_prefix s p"
  by (auto simp: has_prefix_def)

lemma has_suffix_iff: "has_suffix s p \<longleftrightarrow> (\<exists>t. s = t @ p)"
  unfolding has_suffix_def has_prefix_iff
  by (metis rev_append rev_rev_ident)

lemma has_suffix_append [simp]: "has_suffix (t @ p) p"
  by (auto simp: has_suffix_iff)

lemma trim_prefix_append [simp]: "trim_prefix (p @ t) p = t"
  by (simp add: trim_prefix_def)

lemma trim_prefix_Nil [simp]: "trim_prefix s [] = s"
  by (simp add: trim_prefix_def)

lemma trim_suffix_append [simp]: "trim_suffix (t @ p) p = t"
  by (simp add: trim_suffix_def)

lemma cut_prefix_Some_iff: "cut_prefix s p = Some t \<longleftrightarrow> s = p @ t"
  unfolding cut_prefix_def has_prefix_def by (metis append_eq_conv_conj option.inject option.distinct(1))

lemma cut_prefix_append [simp]: "cut_prefix (p @ t) p = Some t"
  by (simp add: cut_prefix_Some_iff)

lemma str_index_Some:
  "str_index s p = Some i \<Longrightarrow> i + length p \<le> length s \<and> take (length p) (drop i s) = p"
proof (induction s p arbitrary: i rule: str_index.induct)
  case (1 p)
  then show ?case by (simp split: if_splits)
next
  case (2 c s p)
  show ?case
  proof (cases "has_prefix (c # s) p")
    case True
    with "2.prems" have "i = 0" by simp
    from True obtain t where eq: "c # s = p @ t" by (auto simp: has_prefix_iff)
    show ?thesis unfolding eq \<open>i = 0\<close> by simp
  next
    case False
    with "2.prems" obtain j where "str_index s p = Some j" "i = Suc j" by auto
    with "2.IH" [OF False] show ?thesis by simp
  qed
qed

lemma str_contains_iff: "str_contains s p \<longleftrightarrow> (\<exists>u v. s = u @ p @ v)"
proof (induction s)
  case Nil
  then show ?case by (simp add: str_contains_def)
next
  case (Cons c s)
  have "str_contains (c # s) p \<longleftrightarrow> has_prefix (c # s) p \<or> str_contains s p"
    by (simp add: str_contains_def)
  also have "\<dots> \<longleftrightarrow> (\<exists>v. c # s = p @ v) \<or> (\<exists>u v. s = u @ p @ v)"
    by (simp add: Cons.IH has_prefix_iff)
  also have "\<dots> \<longleftrightarrow> (\<exists>u v. c # s = u @ p @ v)"
    by (metis append_Cons append_Nil list.exhaust list.inject)
  finally show ?case .
qed

subsection \<open>Splitting and joining\<close>

function split_on :: "string \<Rightarrow> string \<Rightarrow> string list" where
  "split_on s sep =
     (if sep = [] then map (\<lambda>c. [c]) s
      else case str_index s sep of
             None \<Rightarrow> [s]
           | Some i \<Rightarrow> take i s # split_on (drop (i + length sep) s) sep)"
  by pat_completeness auto
termination
proof (relation "measure (\<lambda>(s, sep). length s)", goal_cases)
  case 1
  show ?case by simp
next
  case (2 s sep i)
  from str_index_Some [OF 2(2)] have "i + length sep \<le> length s" by simp
  moreover from 2(1) have "0 < length sep" by simp
  ultimately have "length s - (i + length sep) < length s" by linarith
  then show ?case by simp
qed

declare split_on.simps [simp del]

text \<open>\<open>strings.SplitN (s, sep, 2)\<close> for a non-empty separator.\<close>

definition split_n2 :: "string \<Rightarrow> string \<Rightarrow> string list" where
  "split_n2 s sep = (case str_index s sep of
      None \<Rightarrow> [s]
    | Some i \<Rightarrow> [take i s, drop (i + length sep) s])"

fun join_strs :: "string \<Rightarrow> string list \<Rightarrow> string" where
  "join_strs sep [] = []"
| "join_strs sep [x] = x"
| "join_strs sep (x # y # xs) = x @ sep @ join_strs sep (y # xs)"

lemma split_on_nonempty: "sep \<noteq> [] \<Longrightarrow> split_on s sep \<noteq> []"
  by (subst split_on.simps) (simp split: option.split)

lemma join_strs_Cons: "xs \<noteq> [] \<Longrightarrow> join_strs sep (x # xs) = x @ sep @ join_strs sep xs"
  by (cases xs) simp_all

text \<open>Joining the pieces with the separator they were split at gives the string back.\<close>

lemma join_split_on: "sep \<noteq> [] \<Longrightarrow> join_strs sep (split_on s sep) = s"
proof (induction s sep rule: split_on.induct)
  case (1 s sep)
  show ?case
  proof (cases "str_index s sep")
    case None
    with "1.prems" show ?thesis by (subst split_on.simps) simp
  next
    case (Some i)
    let ?r = "split_on (drop (i + length sep) s) sep"
    have IH: "join_strs sep ?r = drop (i + length sep) s"
      using "1.IH" "1.prems" Some by simp
    from str_index_Some [OF Some] have "take i s @ sep @ drop (i + length sep) s = s"
      by (metis append_take_drop_id drop_drop add.commute)
    with IH Some "1.prems" show ?thesis
      by (subst split_on.simps) (simp add: join_strs_Cons split_on_nonempty)
  qed
qed

text \<open>Splitting at a single character, structurally; it agrees with \<open>split_on\<close>.\<close>

fun split_char :: "char \<Rightarrow> string \<Rightarrow> string list" where
  "split_char c [] = [[]]"
| "split_char c (x # xs) =
     (if x = c then [] # split_char c xs
      else (case split_char c xs of [] \<Rightarrow> [[x]] | w # ws \<Rightarrow> (x # w) # ws))"

lemma split_char_nonempty [simp]: "split_char c s \<noteq> []"
  by (cases s) (auto split: list.split)

lemma split_char_no_sep: "c \<notin> set s \<Longrightarrow> split_char c s = [s]"
  by (induction s) auto

lemma split_char_append: "c \<notin> set u \<Longrightarrow> split_char c (u @ c # v) = u # split_char c v"
  by (induction u) auto

lemma split_char_append_sep: "split_char c (u @ c # v) = split_char c u @ split_char c v"
proof (induction u)
  case Nil
  then show ?case by simp
next
  case (Cons x u)
  then show ?case by (cases "split_char c u") (auto simp: split_char_nonempty)
qed

lemma split_char_pieces: "w \<in> set (split_char c s) \<Longrightarrow> c \<notin> set w"
proof (induction s arbitrary: w)
  case Nil
  then show ?case by simp
next
  case (Cons x s)
  then show ?case by (cases "split_char c s") (auto split: if_splits)
qed

lemma join_split_char: "join_strs [c] (split_char c s) = s"
proof (induction s)
  case Nil
  then show ?case by simp
next
  case (Cons x s)
  then show ?case
    by (cases "split_char c s" rule: remdups_adj.cases) (auto split: list.split)
qed

lemma split_char_join:
  "\<lbrakk> ws \<noteq> []; \<forall>w \<in> set ws. c \<notin> set w \<rbrakk> \<Longrightarrow> split_char c (join_strs [c] ws) = ws"
proof (induction ws rule: remdups_adj.induct)
  case (3 w v ws)
  then show ?case by (auto simp: split_char_append)
qed (simp_all add: split_char_no_sep)

subsection \<open>Trimming and case\<close>

definition newline :: char where "newline = CHR 0x0A"

definition is_space :: "char \<Rightarrow> bool" where
  "is_space c \<longleftrightarrow> of_char c \<in> {9, 10, 11, 12, 13, 32 :: nat}"

definition trim_chars :: "(char \<Rightarrow> bool) \<Rightarrow> string \<Rightarrow> string" where
  "trim_chars p s = rev (dropWhile p (rev (dropWhile p s)))"

definition trim_space :: "string \<Rightarrow> string" where
  "trim_space s = trim_chars is_space s"

definition trim_right_char :: "char \<Rightarrow> string \<Rightarrow> string" where
  "trim_right_char c s = rev (dropWhile (\<lambda>d. d = c) (rev s))"

definition lower_char :: "char \<Rightarrow> char" where
  "lower_char c = (let n = of_char c :: nat in if 65 \<le> n \<and> n \<le> 90 then char_of (n + 32) else c)"

definition to_lower :: "string \<Rightarrow> string" where
  "to_lower s = map lower_char s"

subsection \<open>Numbers in decimal\<close>

definition is_digit :: "char \<Rightarrow> bool" where
  "is_digit c \<longleftrightarrow> (let n = of_char c :: nat in 48 \<le> n \<and> n \<le> 57)"

definition digit_val :: "char \<Rightarrow> nat" where
  "digit_val c = of_char c - 48"

definition digit_char :: "nat \<Rightarrow> char" where
  "digit_char d = char_of (48 + d)"

definition dec_value :: "string \<Rightarrow> nat" where
  "dec_value s = foldl (\<lambda>a c. 10 * a + digit_val c) 0 s"

definition dec_digits :: "string \<Rightarrow> nat option" where
  "dec_digits s = (if s \<noteq> [] \<and> list_all is_digit s then Some (dec_value s) else None)"

text \<open>\<open>strconv.Atoi\<close> on a 64-bit platform: an optional sign, digits, in the range of int64.\<close>

definition atoi :: "string \<Rightarrow> int option" where
  "atoi s =
     (let neg = has_prefix s ''-'';
          body = (if has_prefix s ''-'' \<or> has_prefix s ''+'' then tl s else s)
      in case dec_digits body of
           None \<Rightarrow> None
         | Some n \<Rightarrow>
             (if neg then (if int n \<le> 2 ^ 63 then Some (- int n) else None)
              else (if int n < 2 ^ 63 then Some (int n) else None)))"

text \<open>\<open>strconv.ParseUint (s, 10, 32)\<close>: digits only, at most \<open>2 ^ 32 - 1\<close>.\<close>

definition parse_uint32 :: "string \<Rightarrow> 32 word option" where
  "parse_uint32 s = (case dec_digits s of
      None \<Rightarrow> None
    | Some n \<Rightarrow> if int n < 2 ^ 32 then Some (word_of_nat n) else None)"

text \<open>The decimal form of a number, as \<open>%d\<close> prints it.\<close>

fun show_nat :: "nat \<Rightarrow> string" where
  "show_nat n = (if n < 10 then [digit_char n] else show_nat (n div 10) @ [digit_char (n mod 10)])"

declare show_nat.simps [simp del]

definition show_int :: "int \<Rightarrow> string" where
  "show_int i = (if i < 0 then ''-'' @ show_nat (nat (- i)) else show_nat (nat i))"

lemma of_char_digit_char: "d < 10 \<Longrightarrow> of_char (digit_char d) = (48 + d :: nat)"
  by (simp add: digit_char_def)

lemma is_digit_digit_char [simp]: "d < 10 \<Longrightarrow> is_digit (digit_char d)"
  by (simp add: is_digit_def of_char_digit_char)

lemma digit_val_digit_char [simp]: "d < 10 \<Longrightarrow> digit_val (digit_char d) = d"
  by (simp add: digit_val_def of_char_digit_char)

lemma dec_value_snoc: "dec_value (s @ [c]) = 10 * dec_value s + digit_val c"
  by (simp add: dec_value_def)

lemma show_nat_digits: "list_all is_digit (show_nat n)"
proof (induction n rule: show_nat.induct)
  case (1 n)
  then show ?case by (cases "n < 10") (simp_all add: show_nat.simps [of n])
qed

lemma show_nat_nonempty [simp]: "show_nat n \<noteq> []"
  by (simp add: show_nat.simps [of n])

lemma dec_value_show_nat [simp]: "dec_value (show_nat n) = n"
proof (induction n rule: show_nat.induct)
  case (1 n)
  then show ?case
    by (cases "n < 10") (simp_all add: show_nat.simps [of n] dec_value_snoc, simp add: dec_value_def)
qed

lemma dec_digits_show_nat [simp]: "dec_digits (show_nat n) = Some n"
  by (simp add: dec_digits_def show_nat_digits)

lemma parse_uint32_show: "n < 2 ^ 32 \<Longrightarrow> parse_uint32 (show_nat n) = Some (word_of_nat n)"
  by (simp add: parse_uint32_def)

lemma show_nat_hd_digit: "is_digit (hd (show_nat n))"
  using show_nat_digits [of n] by (cases "show_nat n") auto

lemma digit_not_sign: "is_digit c \<Longrightarrow> c \<noteq> CHR ''-'' \<and> c \<noteq> CHR ''+'' \<and> c \<noteq> CHR ''/''"
  by (auto simp: is_digit_def)

lemma dec_digits_no_sign:
  "dec_digits s = Some n \<Longrightarrow> \<not> has_prefix s ''-'' \<and> \<not> has_prefix s ''+''"
  by (cases s) (auto simp: dec_digits_def is_digit_def split: if_splits)

lemma atoi_show_nat: "n < 2 ^ 63 \<Longrightarrow> atoi (show_nat n) = Some (int n)"
  using dec_digits_no_sign [OF dec_digits_show_nat [of n]] by (simp add: atoi_def Let_def)

lemma atoi_Nil [simp]: "atoi [] = None"
  by (simp add: atoi_def dec_digits_def)

lemma atoi_Some_nonempty: "atoi s = Some i \<Longrightarrow> s \<noteq> []"
  by auto

lemma atoi_nondigit:
  "\<lbrakk> c \<in> set s; \<not> is_digit c; c \<noteq> CHR ''-''; c \<noteq> CHR ''+'' \<rbrakk> \<Longrightarrow> atoi s = None"
  by (cases s) (auto simp: atoi_def dec_digits_def list_all_iff Let_def has_prefix_def)

subsection \<open>Sequences without repetition\<close>

text \<open>
  The pattern \<open>seen := map[string]bool; for x: if seen[key x] continue; seen[key x] = true\<close>,
  which the code uses for libraries, mounts, links and directories.
\<close>

fun dedup_by :: "('a \<Rightarrow> 'k) \<Rightarrow> 'k list \<Rightarrow> 'a list \<Rightarrow> 'a list" where
  "dedup_by f seen [] = []"
| "dedup_by f seen (x # xs) =
     (if f x \<in> set seen then dedup_by f seen xs else x # dedup_by f (f x # seen) xs)"

lemma dedup_by_subset: "set (dedup_by f seen xs) \<subseteq> set xs"
  by (induction xs arbitrary: seen) auto

lemma dedup_by_keys: "f ` set (dedup_by f seen xs) = f ` set xs - set seen"
  by (induction xs arbitrary: seen) auto

lemma dedup_by_distinct: "distinct (map f (dedup_by f seen xs))"
proof (induction xs arbitrary: seen)
  case Nil
  then show ?case by simp
next
  case (Cons x xs)
  have "f x \<notin> f ` set (dedup_by f (f x # seen) xs)"
    by (simp add: dedup_by_keys)
  with Cons.IH show ?case by simp
qed

lemma dedup_by_id: "\<lbrakk> distinct (map f xs); f ` set xs \<inter> set seen = {} \<rbrakk> \<Longrightarrow> dedup_by f seen xs = xs"
  by (induction xs arbitrary: seen) auto

lemma dedup_by_idem: "dedup_by f [] (dedup_by f [] xs) = dedup_by f [] xs"
  by (rule dedup_by_id) (simp_all add: dedup_by_distinct)

end
