(* ===== verification/Go_Path.thy ===== *)
theory Go_Path imports Go_Strings begin

text \<open>
  Go's \<open>path/filepath\<close> on Unix: \<open>Clean\<close>, \<open>Join\<close>, \<open>Dir\<close>, \<open>Base\<close>, \<open>Ext\<close>, \<open>IsAbs\<close>,
  \<open>Rel\<close> and \<open>Match\<close>, as the toolkit uses them. \<open>clean\<close> is stated on path components,
  which is how the package documents it (each \<open>.\<close> and empty component goes, each inner
  \<open>..\<close> goes with the component before it, a leading \<open>..\<close> of a rooted path goes).
  The lemmas show that a cleaned path is canonical and that joining a relative path without
  \<open>..\<close> to a root stays under the root, which the hook and discovery theories use.
\<close>

subsection \<open>Components\<close>

definition slash :: char where "slash = CHR ''/''"

definition path_comps :: "string \<Rightarrow> string list" where
  "path_comps p = filter (\<lambda>c. c \<noteq> []) (split_char (CHR ''/'') p)"

definition is_abs :: "string \<Rightarrow> bool" where
  "is_abs p \<longleftrightarrow> has_prefix p ''/''"

text \<open>A proper component: not empty, not \<open>.\<close> and not \<open>..\<close>, and with no slash in it.\<close>

definition normal_comp :: "string \<Rightarrow> bool" where
  "normal_comp c \<longleftrightarrow> c \<noteq> [] \<and> c \<noteq> ''.'' \<and> c \<noteq> ''..'' \<and> CHR ''/'' \<notin> set c"

fun norm_comps :: "bool \<Rightarrow> string list \<Rightarrow> string list \<Rightarrow> string list" where
  "norm_comps rooted acc [] = rev acc"
| "norm_comps rooted acc (c # cs) =
     (if c = [] \<or> c = ''.'' then norm_comps rooted acc cs
      else if c = ''..'' then
        (case acc of
           [] \<Rightarrow> if rooted then norm_comps rooted [] cs else norm_comps rooted [''..''] cs
         | a # acc' \<Rightarrow> if a = ''..'' then norm_comps rooted (''..'' # acc) cs
                       else norm_comps rooted acc' cs)
      else norm_comps rooted (c # acc) cs)"

definition path_of :: "bool \<Rightarrow> string list \<Rightarrow> string" where
  "path_of rooted cs =
     (if rooted then ''/'' @ join_strs ''/'' cs
      else if cs = [] then ''.'' else join_strs ''/'' cs)"

definition clean :: "string \<Rightarrow> string" where
  "clean p = path_of (is_abs p) (norm_comps (is_abs p) [] (path_comps p))"

definition path_join :: "string list \<Rightarrow> string" where
  "path_join xs = (case dropWhile (\<lambda>x. x = []) xs of [] \<Rightarrow> [] | y # ys \<Rightarrow> clean (join_strs ''/'' (y # ys)))"

text \<open>Everything up to and including the last slash, and what follows it (\<open>filepath.Split\<close>).\<close>

definition split_last :: "string \<Rightarrow> string \<times> string" where
  "split_last p = (rev (dropWhile (\<lambda>c. c \<noteq> CHR ''/'') (rev p)), rev (takeWhile (\<lambda>c. c \<noteq> CHR ''/'') (rev p)))"

lemma split_last_append: "fst (split_last p) @ snd (split_last p) = p"
  by (simp add: split_last_def) (metis rev_append rev_rev_ident takeWhile_dropWhile_id)

lemma split_last_no_slash: "CHR ''/'' \<notin> set (snd (split_last p))"
  by (auto simp: split_last_def dest: set_takeWhileD)

definition path_dir :: "string \<Rightarrow> string" where
  "path_dir p = clean (fst (split_last p))"

definition path_base :: "string \<Rightarrow> string" where
  "path_base p =
     (if p = [] then ''.''
      else let b = snd (split_last (trim_right_char (CHR ''/'') p))
           in if b = [] then ''/'' else b)"

text \<open>\<open>filepath.Ext\<close>: from the last dot of the last element.\<close>

definition path_ext :: "string \<Rightarrow> string" where
  "path_ext p =
     (let b = snd (split_last p)
      in if CHR ''.'' \<in> set b
         then CHR ''.'' # rev (takeWhile (\<lambda>c. c \<noteq> CHR ''.'') (rev b)) else [])"

fun strip_common :: "string list \<Rightarrow> string list \<Rightarrow> string list \<times> string list" where
  "strip_common (x # xs) (y # ys) = (if x = y then strip_common xs ys else (x # xs, y # ys))"
| "strip_common xs ys = (xs, ys)"

text \<open>\<open>filepath.Rel\<close>; \<open>None\<close> where it returns an error.\<close>

definition path_rel :: "string \<Rightarrow> string \<Rightarrow> string option" where
  "path_rel base targ =
     (let b = clean base; t = clean targ
      in if t = b then Some ''.''
         else if is_abs b \<noteq> is_abs t then None
         else let b' = (if b = ''.'' then [] else path_comps b)
              in case strip_common b' (path_comps t) of (bs, ts) \<Rightarrow>
                   if bs = [] then Some (join_strs ''/'' ts)
                   else if hd bs = ''..'' then None
                   else Some (join_strs ''/'' (replicate (length bs) ''..'' @ ts)))"

subsection \<open>Cleaning\<close>

lemma path_comps_no_slash: "c \<in> set (path_comps p) \<Longrightarrow> CHR ''/'' \<notin> set c \<and> c \<noteq> []"
  by (auto simp: path_comps_def dest: split_char_pieces)

lemma norm_comps_normal:
  "list_all normal_comp cs \<Longrightarrow> norm_comps r acc cs = rev acc @ cs"
  by (induction cs arbitrary: acc) (auto simp: normal_comp_def)

lemma norm_comps_rooted:
  "\<lbrakk> list_all normal_comp acc; \<forall>c \<in> set cs. CHR ''/'' \<notin> set c \<rbrakk>
   \<Longrightarrow> list_all normal_comp (norm_comps True acc cs)"
proof (induction cs arbitrary: acc)
  case Nil
  then show ?case by simp
next
  case (Cons c cs)
  consider "c = [] \<or> c = ''.''" | "c = ''..''" | "normal_comp c"
    using Cons.prems(2) by (auto simp: normal_comp_def)
  then show ?case
  proof cases
    case 1
    with Cons show ?thesis by auto
  next
    case 2
    with Cons show ?thesis by (cases acc) (auto simp: normal_comp_def)
  next
    case 3
    with Cons.prems Cons.IH [of "c # acc"] show ?thesis
      by (simp add: normal_comp_def)
  qed
qed

text \<open>The shape of a cleaned relative path: some \<open>..\<close> and then proper components.\<close>

definition up_then_normal :: "string list \<Rightarrow> bool" where
  "up_then_normal cs \<longleftrightarrow> (\<exists>k xs. cs = replicate k ''..'' @ xs \<and> list_all normal_comp xs)"

lemma up_then_normal_snoc:
  "\<lbrakk> up_then_normal cs; normal_comp c \<rbrakk> \<Longrightarrow> up_then_normal (cs @ [c])"
  unfolding up_then_normal_def by (metis append.assoc list_all_append list.pred_inject)

lemma up_then_normal_butlast: "up_then_normal (cs @ [c]) \<Longrightarrow> up_then_normal cs"
proof -
  assume "up_then_normal (cs @ [c])"
  then obtain k xs where eq: "cs @ [c] = replicate k ''..'' @ xs" and n: "list_all normal_comp xs"
    by (auto simp: up_then_normal_def)
  show "up_then_normal cs"
  proof (cases xs rule: rev_cases)
    case Nil
    with eq have "cs = replicate (k - 1) ''..''"
      by (cases k) (auto simp: replicate_append_same [symmetric])
    then show ?thesis unfolding up_then_normal_def by (intro exI [of _ "k - 1"] exI [of _ "[]"]) simp
  next
    case (snoc ys y)
    with eq n show ?thesis unfolding up_then_normal_def by auto
  qed
qed

lemma up_then_normal_ups:
  "up_then_normal (cs @ [''..'']) \<Longrightarrow> up_then_normal (cs @ [''..'', ''..''])"
proof -
  assume "up_then_normal (cs @ [''..''])"
  then obtain k xs where eq: "cs @ [''..''] = replicate k ''..'' @ xs" and n: "list_all normal_comp xs"
    by (auto simp: up_then_normal_def)
  have "xs = []"
    using eq n by (cases xs rule: rev_cases) (auto simp: normal_comp_def)
  with eq have "cs @ [''..'', ''..''] = replicate (Suc k) ''..''"
    by (metis append.assoc append_Cons append_Nil append_Nil2 replicate_append_same replicate_Suc)
  then show ?thesis unfolding up_then_normal_def
    by (intro exI [of _ "Suc k"] exI [of _ "[]"]) simp
qed

lemma norm_comps_unrooted:
  "\<lbrakk> up_then_normal (rev acc); \<forall>c \<in> set cs. CHR ''/'' \<notin> set c \<rbrakk>
   \<Longrightarrow> up_then_normal (norm_comps False acc cs)"
proof (induction cs arbitrary: acc)
  case Nil
  then show ?case by simp
next
  case (Cons c cs)
  consider "c = [] \<or> c = ''.''" | "c = ''..''" | "normal_comp c"
    using Cons.prems(2) by (auto simp: normal_comp_def)
  then show ?case
  proof cases
    case 1
    with Cons show ?thesis by auto
  next
    case 2
    have one: "up_then_normal [''..'']"
      unfolding up_then_normal_def by (intro exI [of _ 1] exI [of _ "[]"]) simp
    show ?thesis
    proof (cases acc)
      case Nil
      with 2 Cons one show ?thesis by simp
    next
      case (Cons a acc')
      show ?thesis
      proof (cases "a = ''..''")
        case True
        with Cons.prems Cons have "up_then_normal (rev (''..'' # acc))"
          using up_then_normal_ups [of "rev acc'"] by simp
        with Cons.IH [of "''..'' # acc"] Cons.prems 2 True Cons show ?thesis by simp
      next
        case False
        with Cons.prems Cons have "up_then_normal (rev acc')"
          using up_then_normal_butlast [of "rev acc'" a] by simp
        with Cons.IH [of acc'] Cons.prems 2 False Cons show ?thesis by simp
      qed
    qed
  next
    case 3
    with Cons up_then_normal_snoc [of "rev acc" c] show ?thesis
      by (auto simp: normal_comp_def)
  qed
qed

lemma norm_comps_ups:
  "norm_comps False (replicate j ''..'') (replicate k ''..'' @ xs) = norm_comps False (replicate (j + k) ''..'') xs"
proof (induction k arbitrary: j)
  case 0
  then show ?case by simp
next
  case (Suc k)
  have "norm_comps False (replicate j ''..'') (replicate (Suc k) ''..'' @ xs)
      = norm_comps False (replicate (Suc j) ''..'') (replicate k ''..'' @ xs)"
    by (cases j) simp_all
  with Suc.IH [of "Suc j"] show ?case by simp
qed

lemma norm_comps_idem:
  assumes "up_then_normal cs"
  shows "norm_comps False [] cs = cs"
proof -
  from assms obtain k xs where cs: "cs = replicate k ''..'' @ xs" and n: "list_all normal_comp xs"
    by (auto simp: up_then_normal_def)
  from norm_comps_ups [of 0 k xs] norm_comps_normal [OF n] cs show ?thesis by simp
qed

lemma path_comps_join:
  assumes "\<forall>c \<in> set cs. c \<noteq> [] \<and> CHR ''/'' \<notin> set c"
  shows "path_comps (join_strs ''/'' cs) = cs"
proof (cases "cs = []")
  case True
  then show ?thesis by (simp add: path_comps_def)
next
  case False
  with assms have "split_char (CHR ''/'') (join_strs ''/'' cs) = cs"
    using split_char_join [of cs "CHR ''/''"] by auto
  with assms show ?thesis by (simp add: path_comps_def filter_id_conv)
qed

lemma path_comps_slash [simp]: "path_comps (CHR ''/'' # p) = path_comps p"
  by (simp add: path_comps_def)

lemma join_strs_not_abs:
  assumes "cs \<noteq> []" "\<forall>c \<in> set cs. c \<noteq> [] \<and> CHR ''/'' \<notin> set c"
  shows "\<not> is_abs (join_strs ''/'' cs)"
proof -
  obtain c cs' where "cs = c # cs'" using assms(1) by (cases cs) auto
  moreover then obtain x c' where "c = x # c'" using assms(2) by (cases c) auto
  ultimately show ?thesis using assms(2) by (cases cs') (auto simp: is_abs_def)
qed

lemma normal_comps_ok: "list_all normal_comp cs \<Longrightarrow> \<forall>c \<in> set cs. c \<noteq> [] \<and> CHR ''/'' \<notin> set c"
  by (auto simp: list_all_iff normal_comp_def)

lemma up_then_normal_ok:
  assumes "up_then_normal cs"
  shows "\<forall>c \<in> set cs. c \<noteq> [] \<and> CHR ''/'' \<notin> set c"
proof -
  from assms obtain k xs where cs: "cs = replicate k ''..'' @ xs" and n: "list_all normal_comp xs"
    by (auto simp: up_then_normal_def)
  show ?thesis
    unfolding cs set_append using normal_comps_ok [OF n] by (simp add: ball_Un)
qed

lemma is_abs_path_of [simp]: "is_abs (path_of True cs)"
  by (simp add: is_abs_def path_of_def)

lemma path_comps_path_of_True [simp]:
  "list_all normal_comp cs \<Longrightarrow> path_comps (path_of True cs) = cs"
  by (simp add: path_of_def path_comps_join normal_comps_ok)

lemma clean_path_of_True [simp]:
  "list_all normal_comp cs \<Longrightarrow> clean (path_of True cs) = path_of True cs"
  by (simp add: clean_def norm_comps_normal)

lemma join_strs_append:
  "\<lbrakk> xs \<noteq> []; ys \<noteq> [] \<rbrakk> \<Longrightarrow> join_strs sep (xs @ ys) = join_strs sep xs @ sep @ join_strs sep ys"
proof (induction xs)
  case (Cons x xs)
  then show ?case by (cases "xs = []") (simp_all add: join_strs_Cons)
qed simp

lemma path_of_append:
  "\<lbrakk> rs \<noteq> []; qs \<noteq> [] \<rbrakk> \<Longrightarrow> path_of True (rs @ qs) = path_of True rs @ path_of True qs"
  by (simp add: path_of_def join_strs_append)

lemma clean_abs_form:
  assumes "is_abs p"
  obtains cs where "list_all normal_comp cs" "clean p = path_of True cs"
    "cs = norm_comps True [] (path_comps p)"
  using that [of "norm_comps True [] (path_comps p)"] assms norm_comps_rooted [of "[]" "path_comps p"]
  by (auto simp: clean_def dest: path_comps_no_slash)

lemma is_abs_clean [simp]: "is_abs p \<Longrightarrow> is_abs (clean p)"
  by (simp add: clean_def)

text \<open>\<open>Clean\<close> is idempotent.\<close>

lemma clean_idem: "clean (clean p) = clean p"
proof (cases "is_abs p")
  case True
  then obtain cs where "list_all normal_comp cs" "clean p = path_of True cs"
    by (rule clean_abs_form)
  then show ?thesis by simp
next
  case False
  define cs where "cs = norm_comps False [] (path_comps p)"
  have up: "up_then_normal cs"
    unfolding cs_def
    by (rule norm_comps_unrooted)
       (auto simp: up_then_normal_def dest: path_comps_no_slash intro: exI [of _ "[]"])
  have c: "clean p = path_of False cs"
    using False by (simp add: clean_def cs_def)
  show ?thesis
  proof (cases "cs = []")
    case True
    then have "clean p = ''.''" by (simp add: c path_of_def)
    moreover have "clean ''.'' = ''.''"
      by (simp add: clean_def is_abs_def path_comps_def path_of_def)
    ultimately show ?thesis by simp
  next
    case False
    note ok = up_then_normal_ok [OF up]
    have "clean (path_of False cs) = path_of False (norm_comps False [] cs)"
      using join_strs_not_abs [OF False ok] path_comps_join [OF ok] False
      by (simp add: path_of_def clean_def)
    then show ?thesis by (simp add: c norm_comps_idem [OF up])
  qed
qed

lemma clean_nonempty: "clean p \<noteq> []"
proof (cases "is_abs p")
  case True
  then show ?thesis by (simp add: clean_def path_of_def)
next
  case False
  define cs where "cs = norm_comps False [] (path_comps p)"
  have up: "up_then_normal cs"
    unfolding cs_def
    by (rule norm_comps_unrooted)
       (auto simp: up_then_normal_def dest: path_comps_no_slash intro: exI [of _ "[]"])
  with False show ?thesis
    by (cases cs rule: remdups_adj.cases)
       (auto simp: clean_def cs_def [symmetric] path_of_def dest: up_then_normal_ok)
qed

subsection \<open>Joining\<close>

lemma path_comps_append_slash: "path_comps (a @ ''/'' @ b) = path_comps a @ path_comps b"
  by (simp add: path_comps_def split_char_append_sep)

lemma is_abs_append [simp]: "is_abs p \<Longrightarrow> is_abs (p @ q)"
  by (cases p) (auto simp: is_abs_def)

lemma is_abs_Cons [simp]: "is_abs (c # p) \<longleftrightarrow> c = CHR ''/''"
  by (simp add: is_abs_def)

lemma is_abs_Nil [simp]: "\<not> is_abs []"
  by (simp add: is_abs_def)

lemma path_join2: "a \<noteq> [] \<Longrightarrow> path_join [a, b] = clean (a @ ''/'' @ b)"
  by (simp add: path_join_def)

lemma norm_comps_append:
  "norm_comps True acc (xs @ ys) = norm_comps True (rev (norm_comps True acc xs)) ys"
  by (induction xs arbitrary: acc) (auto split: list.split)

text \<open>The components of a join of an absolute path with another path.\<close>

lemma path_join_abs:
  assumes "is_abs a"
  shows "path_join [a, b] =
    path_of True (norm_comps True (rev (norm_comps True [] (path_comps a))) (path_comps b))"
proof -
  from assms have "a \<noteq> []" by auto
  then have "path_join [a, b] = clean (a @ ''/'' @ b)" by (rule path_join2)
  also have "\<dots> = path_of True (norm_comps True [] (path_comps a @ path_comps b))"
    unfolding clean_def path_comps_append_slash using assms by simp
  finally show ?thesis by (simp only: norm_comps_append)
qed

lemma path_join_path_of:
  assumes "list_all normal_comp rs" "list_all normal_comp qs"
  shows "path_join [path_of True rs, path_of True qs] = path_of True (rs @ qs)"
proof -
  have n: "list_all normal_comp (rs @ qs)" using assms by simp
  have "norm_comps True (rev rs) qs = rs @ qs"
    using norm_comps_append [of "[]" rs qs] norm_comps_normal [OF n, of True "[]"]
      norm_comps_normal [OF assms(1), of True "[]"] by simp
  then show ?thesis
    using assms norm_comps_normal [OF assms(1), of True "[]"] by (simp add: path_join_abs)
qed

text \<open>The lexical containment check: \<open>p\<close> is \<open>root\<close> or below it.\<close>

definition under :: "string \<Rightarrow> string \<Rightarrow> bool" where
  "under root p \<longleftrightarrow> (\<exists>cs. path_comps (clean p) = path_comps (clean root) @ cs) \<and> is_abs p"

lemma norm_comps_no_up:
  "''..'' \<notin> set cs \<Longrightarrow> norm_comps True acc cs = rev acc @ filter (\<lambda>c. c \<noteq> [] \<and> c \<noteq> ''.'') cs"
  by (induction cs arbitrary: acc) auto

text \<open>A join with a path that has no \<open>..\<close> component stays under the root it starts from.\<close>

lemma path_join_under:
  assumes "is_abs root" "''..'' \<notin> set (path_comps b)"
  shows "under root (path_join [root, b])"
proof -
  let ?rs = "norm_comps True [] (path_comps root)"
  let ?bs = "filter (\<lambda>c. c \<noteq> [] \<and> c \<noteq> ''.'') (path_comps b)"
  have rs: "list_all normal_comp ?rs"
    by (rule norm_comps_rooted) (auto dest: path_comps_no_slash)
  have bs: "list_all normal_comp ?bs"
    using assms(2) by (auto simp: list_all_iff normal_comp_def dest: path_comps_no_slash)
  have j: "path_join [root, b] = path_of True (?rs @ ?bs)"
    by (simp add: path_join_abs [OF assms(1)] norm_comps_no_up [OF assms(2)])
  have all: "list_all normal_comp (?rs @ ?bs)" using rs bs by simp
  have r: "clean root = path_of True ?rs"
    using assms(1) by (simp add: clean_def)
  show ?thesis
    unfolding under_def j r clean_path_of_True [OF all] path_comps_path_of_True [OF all]
      clean_path_of_True [OF rs] by (simp add: path_comps_path_of_True [OF rs] rs)
qed

subsection \<open>Glob patterns\<close>

text \<open>
  \<open>filepath.Match\<close>: a pattern is parsed first (\<open>None\<close> is \<open>ErrBadPattern\<close>), then matched.
  \<open>*\<close> and \<open>?\<close> do not cross a slash. The names the toolkit matches are directory entries and
  base names, which hold no slash; there Go's leftmost search for a chunk after a star and the
  search over all splits below agree.
\<close>

datatype pat = PLit char | PAny | PStar | PClass bool "(char \<times> char) list"

definition get_esc :: "string \<Rightarrow> (char \<times> string) option" where
  "get_esc s = (case s of
      [] \<Rightarrow> None
    | c # s1 \<Rightarrow>
        if c = CHR ''-'' \<or> c = CHR '']'' then None
        else if c = CHR 92 then (case s1 of d # e # s2 \<Rightarrow> Some (d, e # s2) | _ \<Rightarrow> None)
        else if s1 = [] then None else Some (c, s1))"

lemma get_esc_length: "get_esc s = Some (c, r) \<Longrightarrow> length r < length s"
  by (auto simp: get_esc_def split: list.splits if_splits)

function parse_ranges :: "bool \<Rightarrow> string \<Rightarrow> ((char \<times> char) list \<times> string) option" where
  "parse_ranges first s =
     (if \<not> first \<and> has_prefix s '']'' then Some ([], tl s)
      else case get_esc s of
             None \<Rightarrow> None
           | Some (lo, s1) \<Rightarrow>
               if has_prefix s1 ''-'' then
                 (case get_esc (tl s1) of
                    None \<Rightarrow> None
                  | Some (hi, s2) \<Rightarrow> map_option (\<lambda>(rs, r). ((lo, hi) # rs, r)) (parse_ranges False s2))
               else map_option (\<lambda>(rs, r). ((lo, lo) # rs, r)) (parse_ranges False s1))"
  by pat_completeness auto
termination
proof (relation "measure (\<lambda>(f, s). length s)", goal_cases)
  case 1
  show ?case by simp
next
  case (2 first s z lo s1 z' hi s2)
  then show ?case
    using get_esc_length [of s lo s1] get_esc_length [of "tl s1" hi s2] by simp
next
  case (3 first s z lo s1)
  then show ?case using get_esc_length [of s lo s1] by simp
qed

declare parse_ranges.simps [simp del]

lemma parse_ranges_length: "parse_ranges first s = Some (rs, r) \<Longrightarrow> length r \<le> length s"
proof (induction first s arbitrary: rs r rule: parse_ranges.induct)
  case (1 first s)
  show ?case
  proof (cases "\<not> first \<and> has_prefix s '']''")
    case True
    then have "parse_ranges first s = Some ([], tl s)" by (subst parse_ranges.simps) simp
    with "1.prems" show ?thesis by auto
  next
    case False
    with "1.prems" obtain lo s1 where e1: "get_esc s = Some (lo, s1)"
      by (auto simp: parse_ranges.simps [of first s] split: option.splits)
    show ?thesis
    proof (cases "has_prefix s1 ''-''")
      case dash: True
      with "1.prems" False e1 obtain hi s2 rs' where e2: "get_esc (tl s1) = Some (hi, s2)"
        and p: "parse_ranges False s2 = Some (rs', r)"
        by (auto simp: parse_ranges.simps [of first s] split: option.splits)
      have "length r \<le> length s2"
        by (rule "1.IH"(1) [OF False e1 refl dash e2 refl p])
      then show ?thesis using get_esc_length [OF e1] get_esc_length [OF e2] by simp
    next
      case nodash: False
      with "1.prems" False e1 obtain rs' where p: "parse_ranges False s1 = Some (rs', r)"
        by (auto simp: parse_ranges.simps [of first s])
      have "length r \<le> length s1"
        by (rule "1.IH"(2) [OF False e1 refl nodash p])
      then show ?thesis using get_esc_length [OF e1] by simp
    qed
  qed
qed

function parse_pat :: "string \<Rightarrow> pat list option" where
  "parse_pat [] = Some []"
| "parse_pat (c # s) =
     (if c = CHR ''*'' then map_option (Cons PStar) (parse_pat s)
      else if c = CHR ''?'' then map_option (Cons PAny) (parse_pat s)
      else if c = CHR ''['' then
        (let neg = has_prefix s ''^''
         in case parse_ranges True (if neg then tl s else s) of
              None \<Rightarrow> None
            | Some (rs, r) \<Rightarrow> map_option (Cons (PClass neg rs)) (parse_pat r))
      else if c = CHR 92 then
        (case s of [] \<Rightarrow> None | d # r \<Rightarrow> map_option (Cons (PLit d)) (parse_pat r))
      else map_option (Cons (PLit c)) (parse_pat s))"
  by pat_completeness auto
termination
proof (relation "measure length", goal_cases)
  case (4 c s neg z rs r)
  then show ?case using parse_ranges_length [of True "if neg then tl s else s" rs r] by (auto split: if_splits)
qed auto

fun match_pats :: "pat list \<Rightarrow> string \<Rightarrow> bool" where
  "match_pats [] s = (s = [])"
| "match_pats (PStar # ps) [] = match_pats ps []"
| "match_pats (PStar # ps) (c # s) =
     (match_pats ps (c # s) \<or> c \<noteq> CHR ''/'' \<and> match_pats (PStar # ps) s)"
| "match_pats (PAny # ps) s = (case s of [] \<Rightarrow> False | c # s' \<Rightarrow> c \<noteq> CHR ''/'' \<and> match_pats ps s')"
| "match_pats (PLit d # ps) s = (case s of [] \<Rightarrow> False | c # s' \<Rightarrow> c = d \<and> match_pats ps s')"
| "match_pats (PClass neg rs # ps) s = (case s of [] \<Rightarrow> False
     | c # s' \<Rightarrow> (list_ex (\<lambda>(lo, hi). lo \<le> c \<and> c \<le> hi) rs \<noteq> neg) \<and> match_pats ps s')"

definition path_match :: "string \<Rightarrow> string \<Rightarrow> bool option" where
  "path_match pattern name = map_option (\<lambda>ps. match_pats ps name) (parse_pat pattern)"

definition has_meta :: "string \<Rightarrow> bool" where
  "has_meta p \<longleftrightarrow> list_ex (\<lambda>c. c \<in> {CHR ''*'', CHR ''?'', CHR ''['', CHR 92}) p"

lemma match_star_rest: "CHR ''/'' \<notin> set s \<Longrightarrow> match_pats [PStar] s"
  by (induction s) auto

lemma match_lits: "match_pats (map PLit p @ ps) s \<longleftrightarrow> (\<exists>t. s = p @ t \<and> match_pats ps t)"
  by (induction p arbitrary: s) (auto split: list.splits)

text \<open>A pattern without special characters matches exactly itself.\<close>

lemma parse_pat_literal: "\<not> has_meta p \<Longrightarrow> parse_pat p = Some (map PLit p)"
  by (induction p) (auto simp: has_meta_def)

lemma path_match_literal: "\<not> has_meta p \<Longrightarrow> path_match p s = Some (s = p)"
  using match_lits [of p "[]" s] by (simp add: path_match_def parse_pat_literal)

lemma parse_pat_lits_star:
  "\<not> has_meta p \<Longrightarrow> parse_pat (p @ ''*'') = Some (map PLit p @ [PStar])"
  by (induction p) (auto simp: has_meta_def)

text \<open>A literal followed by one star matches the names that start with the literal.\<close>

lemma path_match_prefix_star:
  assumes "\<not> has_meta p" "CHR ''/'' \<notin> set s"
  shows "path_match (p @ ''*'') s = Some (has_prefix s p)"
proof -
  have "match_pats (map PLit p @ [PStar]) s = has_prefix s p"
    using assms(2) by (auto simp: match_lits has_prefix_iff intro: match_star_rest)
  with assms(1) show ?thesis by (simp add: path_match_def parse_pat_lits_star)
qed

text \<open>The last component of a path survives joining and cleaning.\<close>

lemma norm_comps_last: "normal_comp n \<Longrightarrow> norm_comps r acc (cs @ [n]) = norm_comps r acc cs @ [n]"
  by (induction r acc cs rule: norm_comps.induct) (auto simp: normal_comp_def split: list.split)

lemma path_comps_clean:
  assumes "norm_comps (is_abs p) [] (path_comps p) \<noteq> []"
  shows "path_comps (clean p) = norm_comps (is_abs p) [] (path_comps p)"
proof (cases "is_abs p")
  case True
  then show ?thesis using norm_comps_rooted [of "[]" "path_comps p"] by (simp add: clean_def path_comps_no_slash)
next
  case False
  have "up_then_normal (norm_comps False [] (path_comps p))"
    by (rule norm_comps_unrooted) (auto simp: up_then_normal_def dest: path_comps_no_slash intro: exI [of _ "[]"])
  from path_comps_join [OF up_then_normal_ok [OF this]] False assms show ?thesis by (simp add: clean_def path_of_def)
qed

lemma path_join_last:
  assumes "normal_comp n" "d \<noteq> []"
  shows "\<exists>cs. path_comps (path_join [d, n]) = cs @ [n]"
proof -
  have n: "path_comps n = [n]" using path_comps_join [of "[n]"] assms(1) by (simp add: normal_comp_def)
  have j: "path_join [d, n] = clean (d @ ''/'' @ n)" using assms(2) by (rule path_join2)
  have c: "path_comps (d @ ''/'' @ n) = path_comps d @ [n]" unfolding path_comps_append_slash n ..
  have "path_comps (clean (d @ ''/'' @ n)) = norm_comps (is_abs (d @ ''/'' @ n)) [] (path_comps d) @ [n]"
    using path_comps_clean [of "d @ ''/'' @ n"] unfolding c norm_comps_last [OF assms(1)] by simp
  then show ?thesis unfolding j by blast
qed

lemma slash_last: "normal_comp n \<Longrightarrow> path_comps (d @ ''/'' @ n) = path_comps d @ [n]"
  unfolding path_comps_append_slash using path_comps_join [of "[n]"] by (simp add: normal_comp_def)

end
