(* ===== verification/Posix_FS.thy ===== *)
theory Posix_FS imports Go_Path "HOL-Library.AList" begin

text \<open>
  The operating-system interface the toolkit runs against: a file system of directories,
  regular files, symbolic links and device nodes with the path walk of the kernel (symbolic
  links are followed component by component, at most 40 of them), and the calls of Go's
  \<open>os\<close> and \<open>path/filepath\<close> packages that read or change it. Relative paths are taken from
  the root directory. A call of the state record \<open>os\<close> first takes the next entry of the
  fault script, so that every theorem about a sequence of calls is one about every way in
  which some of them fail; \<open>history\<close> keeps each intermediate file system, which is what
  another process can observe.
\<close>

datatype errno = ENOENT | ENOTDIR | EISDIR | EEXIST | ELOOP | ENOTEMPTY | EINVAL | EACCES | EIO | ENOSPC | EAGAIN

datatype node = Reg string nat | Dir | Sym string | Chr

type_synonym fs = "(string list \<times> node) list"

definition node_at :: "fs \<Rightarrow> string list \<Rightarrow> node option" where
  "node_at fs k = (if k = [] then Some Dir else map_of fs k)"

definition set_node :: "string list \<Rightarrow> node \<Rightarrow> fs \<Rightarrow> fs" where
  "set_node k n fs = AList.update k n fs"

definition del_node :: "string list \<Rightarrow> fs \<Rightarrow> fs" where
  "del_node k fs = AList.delete k fs"

lemma node_at_set: "k \<noteq> [] \<Longrightarrow> node_at (set_node k n fs) q = (if q = k then Some n else node_at fs q)"
  by (simp add: node_at_def set_node_def update_conv')

lemma node_at_del: "k \<noteq> [] \<Longrightarrow> node_at (del_node k fs) q = (if q = k then None else node_at fs q)"
  by (auto simp: node_at_def del_node_def delete_conv')

subsection \<open>The path walk\<close>

function walk :: "fs \<Rightarrow> nat \<Rightarrow> bool \<Rightarrow> string list \<Rightarrow> string list \<Rightarrow> errno + string list" where
  "walk fs fuel follow done [] = Inr done"
| "walk fs fuel follow done (c # cs) =
     (if c = [] \<or> c = ''.'' then walk fs fuel follow done cs
      else if c = ''..'' then walk fs fuel follow (butlast done) cs
      else case node_at fs (done @ [c]) of
             None \<Rightarrow> if cs = [] then Inr (done @ [c]) else Inl ENOENT
           | Some Dir \<Rightarrow> walk fs fuel follow (done @ [c]) cs
           | Some (Sym t) \<Rightarrow>
               if cs = [] \<and> \<not> follow then Inr (done @ [c])
               else if fuel = 0 then Inl ELOOP
               else walk fs (fuel - 1) follow (if is_abs t then [] else done) (path_comps t @ cs)
           | Some (Reg b m) \<Rightarrow> if cs = [] then Inr (done @ [c]) else Inl ENOTDIR
           | Some Chr \<Rightarrow> if cs = [] then Inr (done @ [c]) else Inl ENOTDIR)"
  by pat_completeness auto
termination
  by (relation "measures [\<lambda>(fs, fuel, f, d, cs). fuel, \<lambda>(fs, fuel, f, d, cs). length cs]") auto

text \<open>The kernel's limit on the symbolic links followed in one walk; Go's \<open>EvalSymlinks\<close> allows 255.\<close>

definition max_links :: nat where "max_links = 40"

definition resolve :: "fs \<Rightarrow> bool \<Rightarrow> string \<Rightarrow> errno + string list" where
  "resolve fs follow p = walk fs max_links follow [] (path_comps p)"

subsection \<open>Reading calls\<close>

definition node_res :: "fs \<Rightarrow> errno + string list \<Rightarrow> errno + node" where
  "node_res fs r = (case r of Inl e \<Rightarrow> Inl e
     | Inr k \<Rightarrow> (case node_at fs k of None \<Rightarrow> Inl ENOENT | Some n \<Rightarrow> Inr n))"

definition fs_lstat :: "fs \<Rightarrow> string \<Rightarrow> errno + node" where
  "fs_lstat fs p = node_res fs (resolve fs False p)"

definition fs_stat :: "fs \<Rightarrow> string \<Rightarrow> errno + node" where
  "fs_stat fs p = node_res fs (resolve fs True p)"

definition fs_exists :: "fs \<Rightarrow> string \<Rightarrow> bool" where
  "fs_exists fs p = (case fs_stat fs p of Inr _ \<Rightarrow> True | Inl _ \<Rightarrow> False)"

definition fs_read_file :: "fs \<Rightarrow> string \<Rightarrow> errno + string" where
  "fs_read_file fs p = (case fs_stat fs p of
      Inl e \<Rightarrow> Inl e
    | Inr (Reg b m) \<Rightarrow> Inr b
    | Inr Dir \<Rightarrow> Inl EISDIR
    | Inr _ \<Rightarrow> Inl EIO)"

definition fs_read_link :: "fs \<Rightarrow> string \<Rightarrow> errno + string" where
  "fs_read_link fs p = (case fs_lstat fs p of Inl e \<Rightarrow> Inl e | Inr (Sym t) \<Rightarrow> Inr t | Inr _ \<Rightarrow> Inl EINVAL)"

definition is_dir_node :: "node \<Rightarrow> bool" where "is_dir_node n \<longleftrightarrow> n = Dir"

definition is_sym_node :: "node \<Rightarrow> bool" where "is_sym_node n = (case n of Sym _ \<Rightarrow> True | _ \<Rightarrow> False)"

definition is_reg_node :: "node \<Rightarrow> bool" where "is_reg_node n = (case n of Reg _ _ \<Rightarrow> True | _ \<Rightarrow> False)"

text \<open>\<open>filepath.EvalSymlinks\<close>: the path with every symbolic link resolved; it must exist.\<close>

definition eval_symlinks :: "fs \<Rightarrow> string \<Rightarrow> errno + string" where
  "eval_symlinks fs p = (case walk fs 255 True [] (path_comps p) of
      Inl e \<Rightarrow> Inl e
    | Inr k \<Rightarrow> if node_at fs k = None then Inl ENOENT else Inr (path_of True k))"

text \<open>The entries of the directory at a resolved place, sorted as \<open>os.ReadDir\<close> sorts them.\<close>

definition children :: "fs \<Rightarrow> string list \<Rightarrow> string list" where
  "children fs k = sort (remdups (map (\<lambda>q. last (fst q)) (filter (\<lambda>q. fst q \<noteq> [] \<and> butlast (fst q) = k) fs)))"

text \<open>\<open>os.ReadDir\<close>: each entry with whether it is a directory itself (a link to one is not).\<close>

definition fs_read_dir :: "fs \<Rightarrow> string \<Rightarrow> errno + (string \<times> bool) list" where
  "fs_read_dir fs p = (case resolve fs True p of
      Inl e \<Rightarrow> Inl e
    | Inr k \<Rightarrow> (case node_at fs k of
          None \<Rightarrow> Inl ENOENT
        | Some Dir \<Rightarrow> Inr (map (\<lambda>n. (n, node_at fs (k @ [n]) = Some Dir)) (children fs k))
        | Some _ \<Rightarrow> Inl ENOTDIR))"

subsection \<open>filepath.Glob\<close>

text \<open>
  \<open>Glob\<close> expands the directory part first where it has special characters itself.
  \<open>None\<close> is \<open>ErrBadPattern\<close>; I/O errors are ignored, as the package documents.
\<close>

fun glob_names :: "string \<Rightarrow> string \<Rightarrow> string list \<Rightarrow> string list option" where
  "glob_names dir pattern [] = Some []"
| "glob_names dir pattern (n # ns) =
     (case path_match pattern n of
        None \<Rightarrow> None
      | Some b \<Rightarrow> map_option (\<lambda>r. if b then path_join [dir, n] # r else r) (glob_names dir pattern ns))"

definition glob_dir :: "fs \<Rightarrow> string \<Rightarrow> string \<Rightarrow> string list option" where
  "glob_dir fs dir pattern =
     (case fs_read_dir fs dir of
        Inl e \<Rightarrow> Some []
      | Inr es \<Rightarrow> glob_names dir pattern (map fst es))"

definition clean_glob_path :: "string \<Rightarrow> string" where
  "clean_glob_path p = (if p = [] then ''.'' else if p = ''/'' then p else take (length p - 1) p)"

fun glob_dirs :: "fs \<Rightarrow> string \<Rightarrow> string list \<Rightarrow> string list option" where
  "glob_dirs fs pattern [] = Some []"
| "glob_dirs fs pattern (d # ds) =
     (case glob_dir fs d pattern of
        None \<Rightarrow> None
      | Some m \<Rightarrow> map_option (\<lambda>r. m @ r) (glob_dirs fs pattern ds))"

lemma clean_glob_path_shorter:
  "clean_glob_path (fst (split_last p)) \<noteq> p \<Longrightarrow>
   has_meta (clean_glob_path (fst (split_last p))) \<Longrightarrow>
   length (clean_glob_path (fst (split_last p))) < length p"
proof -
  assume neq: "clean_glob_path (fst (split_last p)) \<noteq> p"
    and meta: "has_meta (clean_glob_path (fst (split_last p)))"
  have "length (fst (split_last p)) \<le> length p"
    using length_dropWhile_le [of "\<lambda>c. c \<noteq> CHR ''/''" "rev p"] by (simp add: split_last_def)
  moreover have "fst (split_last p) \<noteq> ''/''" "fst (split_last p) \<noteq> []"
    using meta by (auto simp: clean_glob_path_def has_meta_def)
  ultimately show ?thesis by (cases "fst (split_last p)") (auto simp: clean_glob_path_def)
qed

function fs_glob :: "fs \<Rightarrow> string \<Rightarrow> string list option" where
  "fs_glob fs pattern =
     (if parse_pat pattern = None then None
      else if \<not> has_meta pattern then
        (case fs_lstat fs pattern of Inl e \<Rightarrow> Some [] | Inr n \<Rightarrow> Some [pattern])
      else let (d, f) = split_last pattern; dir = clean_glob_path d
           in if \<not> has_meta dir then glob_dir fs dir f
              else if dir = pattern then None
              else case fs_glob fs dir of None \<Rightarrow> None | Some ds \<Rightarrow> glob_dirs fs f ds)"
  by pat_completeness auto
termination
proof (relation "measure (\<lambda>(fs, p). length p)", goal_cases)
  case 1
  show ?case by simp
next
  case (2 fs pattern x d f dir)
  then have "d = fst (split_last pattern)" by (metis fst_conv)
  with 2 show ?case using clean_glob_path_shorter [of pattern] by auto
qed

declare fs_glob.simps [simp del]

subsection \<open>Changing calls\<close>

type_synonym 'a res = "errno + 'a"

text \<open>\<open>os.WriteFile\<close>: create or truncate, following a final symbolic link.\<close>

definition fs_write :: "string \<Rightarrow> string \<Rightarrow> nat \<Rightarrow> fs \<Rightarrow> unit res \<times> fs" where
  "fs_write p b perm fs = (case resolve fs True p of
      Inl e \<Rightarrow> (Inl e, fs)
    | Inr k \<Rightarrow> (case node_at fs k of
          None \<Rightarrow> (Inr (), set_node k (Reg b perm) fs)
        | Some (Reg _ m) \<Rightarrow> (Inr (), set_node k (Reg b m) fs)
        | Some Dir \<Rightarrow> (Inl EISDIR, fs)
        | Some _ \<Rightarrow> (Inl EINVAL, fs)))"

definition fs_chmod :: "string \<Rightarrow> nat \<Rightarrow> fs \<Rightarrow> unit res \<times> fs" where
  "fs_chmod p perm fs = (case resolve fs True p of
      Inl e \<Rightarrow> (Inl e, fs)
    | Inr k \<Rightarrow> (case node_at fs k of
          None \<Rightarrow> (Inl ENOENT, fs)
        | Some (Reg b m) \<Rightarrow> (Inr (), set_node k (Reg b perm) fs)
        | Some _ \<Rightarrow> (Inr (), fs)))"

definition fs_remove :: "string \<Rightarrow> fs \<Rightarrow> unit res \<times> fs" where
  "fs_remove p fs = (case resolve fs False p of
      Inl e \<Rightarrow> (Inl e, fs)
    | Inr k \<Rightarrow> (case node_at fs k of
          None \<Rightarrow> (Inl ENOENT, fs)
        | Some Dir \<Rightarrow> if k = [] \<or> children fs k \<noteq> [] then (Inl ENOTEMPTY, fs) else (Inr (), del_node k fs)
        | Some _ \<Rightarrow> (Inr (), del_node k fs)))"

text \<open>\<open>os.Rename\<close> of anything but a directory (the toolkit renames a temporary file).\<close>

definition fs_rename :: "string \<Rightarrow> string \<Rightarrow> fs \<Rightarrow> unit res \<times> fs" where
  "fs_rename a b fs = (case resolve fs False a of
      Inl e \<Rightarrow> (Inl e, fs)
    | Inr ka \<Rightarrow> (case node_at fs ka of
          None \<Rightarrow> (Inl ENOENT, fs)
        | Some Dir \<Rightarrow> (Inl EISDIR, fs)
        | Some n \<Rightarrow> (case resolve fs False b of
              Inl e \<Rightarrow> (Inl e, fs)
            | Inr kb \<Rightarrow> if node_at fs kb = Some Dir then (Inl EEXIST, fs)
                        else if ka = kb then (Inr (), fs)
                        else (Inr (), set_node kb n (del_node ka fs)))))"

definition fs_symlink :: "string \<Rightarrow> string \<Rightarrow> fs \<Rightarrow> unit res \<times> fs" where
  "fs_symlink target p fs = (case resolve fs False p of
      Inl e \<Rightarrow> (Inl e, fs)
    | Inr k \<Rightarrow> (case node_at fs k of
          None \<Rightarrow> (Inr (), set_node k (Sym target) fs)
        | Some _ \<Rightarrow> (Inl EEXIST, fs)))"

text \<open>\<open>os.MkdirAll\<close>: each missing directory on the way is made; what was made stays on an error.\<close>

fun mkdir_each :: "string list \<Rightarrow> string list \<Rightarrow> fs \<Rightarrow> unit res \<times> fs" where
  "mkdir_each done [] fs = (Inr (), fs)"
| "mkdir_each done (c # cs) fs =
     (let q = path_of True (done @ [c])
      in case fs_stat fs q of
           Inr Dir \<Rightarrow> mkdir_each (done @ [c]) cs fs
         | Inr _ \<Rightarrow> (Inl ENOTDIR, fs)
         | Inl ENOENT \<Rightarrow>
             (case resolve fs False q of
                Inl e \<Rightarrow> (Inl e, fs)
              | Inr k \<Rightarrow> if node_at fs k = None
                         then mkdir_each (done @ [c]) cs (set_node k Dir fs)
                         else (Inl EEXIST, fs))
         | Inl e \<Rightarrow> (Inl e, fs))"

definition fs_mkdir_all :: "string \<Rightarrow> fs \<Rightarrow> unit res \<times> fs" where
  "fs_mkdir_all p fs = mkdir_each [] (path_comps (clean p)) fs"

text \<open>
  \<open>os.CreateTemp\<close>: the first of the random suffixes whose name is free; the file is created
  exclusively with mode 0600. The result is the path and the place it denotes, which stands for
  the open descriptor. \<open>fd_append\<close> and \<open>fd_chmod\<close> act on that descriptor.
\<close>

fun fs_create_temp :: "string \<Rightarrow> string \<Rightarrow> string list \<Rightarrow> fs \<Rightarrow> (string \<times> string list) res \<times> fs" where
  "fs_create_temp dir prefix [] fs = (Inl EEXIST, fs)"
| "fs_create_temp dir prefix (sfx # sfxs) fs =
     (let p = dir @ ''/'' @ prefix @ sfx
      in case resolve fs False p of
           Inl e \<Rightarrow> (Inl e, fs)
         | Inr k \<Rightarrow> (case node_at fs k of
               None \<Rightarrow> (Inr (p, k), set_node k (Reg [] 0x180) fs)
             | Some _ \<Rightarrow> fs_create_temp dir prefix sfxs fs))"

definition fd_append :: "string list \<Rightarrow> string \<Rightarrow> fs \<Rightarrow> unit res \<times> fs" where
  "fd_append k b fs = (case node_at fs k of
      Some (Reg c m) \<Rightarrow> (Inr (), set_node k (Reg (c @ b) m) fs)
    | _ \<Rightarrow> (Inl EIO, fs))"

definition fd_chmod :: "string list \<Rightarrow> nat \<Rightarrow> fs \<Rightarrow> unit res \<times> fs" where
  "fd_chmod k perm fs = (case node_at fs k of
      Some (Reg c m) \<Rightarrow> (Inr (), set_node k (Reg c perm) fs)
    | _ \<Rightarrow> (Inl EIO, fs))"

text \<open>\<open>os.OpenFile (path, O_RDWR|O_CREATE, perm)\<close> and \<open>File.Truncate (0)\<close>.\<close>

definition fs_open_create :: "string \<Rightarrow> nat \<Rightarrow> fs \<Rightarrow> string list res \<times> fs" where
  "fs_open_create p perm fs = (case resolve fs True p of
      Inl e \<Rightarrow> (Inl e, fs)
    | Inr k \<Rightarrow> (case node_at fs k of
          None \<Rightarrow> (Inr k, set_node k (Reg [] perm) fs)
        | Some Dir \<Rightarrow> (Inl EISDIR, fs)
        | Some _ \<Rightarrow> (Inr k, fs)))"

definition fd_truncate :: "string list \<Rightarrow> fs \<Rightarrow> unit res \<times> fs" where
  "fd_truncate k fs = (case node_at fs k of
      Some (Reg b m) \<Rightarrow> (Inr (), set_node k (Reg [] m) fs)
    | _ \<Rightarrow> (Inl EINVAL, fs))"

text \<open>\<open>os.OpenFile (path, O_CREATE|O_WRONLY|O_TRUNC, perm)\<close>.\<close>

definition fs_open_trunc :: "string \<Rightarrow> nat \<Rightarrow> fs \<Rightarrow> string list res \<times> fs" where
  "fs_open_trunc p perm fs = (case resolve fs True p of
      Inl e \<Rightarrow> (Inl e, fs)
    | Inr k \<Rightarrow> (case node_at fs k of
          None \<Rightarrow> (Inr k, set_node k (Reg [] perm) fs)
        | Some (Reg b m) \<Rightarrow> (Inr k, set_node k (Reg [] m) fs)
        | Some Dir \<Rightarrow> (Inl EISDIR, fs)
        | Some _ \<Rightarrow> (Inr k, fs)))"

subsection \<open>Calls on the state, with faults and history\<close>

record os =
  nodes :: fs
  faults :: "errno option list"
  history :: "fs list"

definition next_fault :: "os \<Rightarrow> errno option \<times> os" where
  "next_fault s = (case faults s of [] \<Rightarrow> (None, s) | f # fl \<Rightarrow> (f, s\<lparr>faults := fl\<rparr>))"

definition query :: "(fs \<Rightarrow> errno + 'a) \<Rightarrow> os \<Rightarrow> (errno + 'a) \<times> os" where
  "query f s = (case next_fault s of
      (Some e, s') \<Rightarrow> (Inl e, s')
    | (None, s') \<Rightarrow> (f (nodes s'), s'))"

definition effect :: "(fs \<Rightarrow> (errno + 'a) \<times> fs) \<Rightarrow> os \<Rightarrow> (errno + 'a) \<times> os" where
  "effect f s = (case next_fault s of
      (Some e, s') \<Rightarrow> (Inl e, s')
    | (None, s') \<Rightarrow> (case f (nodes s') of (r, n') \<Rightarrow>
        (r, s'\<lparr>nodes := n', history := history s' @ [n']\<rparr>)))"

lemma query_nodes [simp]: "nodes (snd (query f s)) = nodes s"
  by (simp add: query_def next_fault_def split: list.split option.split prod.split)

lemma query_history [simp]: "history (snd (query f s)) = history s"
  by (simp add: query_def next_fault_def split: list.split option.split prod.split)

lemma query_snd: "query f s = (r, s') \<Longrightarrow> nodes s' = nodes s \<and> history s' = history s"
  by (metis query_history query_nodes snd_conv)

lemma query_Inr: "query f s = (Inr x, s') \<Longrightarrow> f (nodes s) = Inr x \<and> nodes s' = nodes s"
  by (auto simp: query_def next_fault_def split: list.splits option.splits)

lemma effect_cases:
  obtains (fault) e s' where "effect f s = (Inl e, s')" "nodes s' = nodes s" "history s' = history s"
  | (run) r n' s' where "effect f s = (r, s')" "f (nodes s) = (r, n')" "nodes s' = n'"
      "history s' = history s @ [n']"
proof -
  obtain fo s1 where nf: "next_fault s = (fo, s1)" by (cases "next_fault s")
  then have s1: "nodes s1 = nodes s" "history s1 = history s"
    by (auto simp: next_fault_def split: list.splits)
  show thesis
  proof (cases fo)
    case None
    obtain r n' where "f (nodes s) = (r, n')" by (cases "f (nodes s)")
    with nf None s1 run [of r "s1\<lparr>nodes := n', history := history s1 @ [n']\<rparr>" n'] show thesis
      by (simp add: effect_def)
  next
    case (Some e)
    with nf s1 fault [of e s1] show thesis by (simp add: effect_def)
  qed
qed

lemma effect_Inr:
  "effect f s = (Inr x, s') \<Longrightarrow> \<exists>n'. f (nodes s) = (Inr x, n') \<and> nodes s' = n' \<and> history s' = history s @ [n']"
  by (rule effect_cases [of f s]) auto

text \<open>The rules that evaluate reading calls on a concrete file system.\<close>

lemmas fs_eval = fs_read_file_def fs_stat_def fs_lstat_def fs_exists_def fs_read_link_def node_res_def
  resolve_def max_links_def node_at_def path_comps_def set_node_def del_node_def

subsection \<open>Laws\<close>

text \<open>
  A walk looks only at directories and symbolic links: two file systems with the same ones
  resolve each path alike, except that a missing file may be reported in another way.
\<close>

definition same_shape :: "node option \<Rightarrow> node option \<Rightarrow> bool" where
  "same_shape a b \<longleftrightarrow>
     (a = Some Dir \<longleftrightarrow> b = Some Dir) \<and> (\<forall>t. a = Some (Sym t) \<longleftrightarrow> b = Some (Sym t))"

lemma same_shape_refl [simp]: "same_shape a a"
  by (simp add: same_shape_def)

lemma walk_same_shape:
  "(\<And>k. same_shape (node_at fs k) (node_at fs' k)) \<Longrightarrow>
   walk fs fuel follow done cs = Inr q \<longleftrightarrow> walk fs' fuel follow done cs = Inr q"
proof (induction fs fuel follow "done" cs rule: walk.induct)
  case (1 fs fuel follow "done")
  then show ?case by simp
next
  case (2 fs fuel follow "done" c cs)
  consider "c = [] \<or> c = ''.''" | "\<not> (c = [] \<or> c = ''.'')" "c = ''..''"
    | "\<not> (c = [] \<or> c = ''.'')" "c \<noteq> ''..''" by blast
  then show ?case
  proof cases
    case 1
    with "2.IH"(1) [OF 1 "2.prems"] show ?thesis by auto
  next
    case 2
    with "2.IH"(2) [OF 2 "2.prems"] show ?thesis by auto
  next
    case 3
    have sh: "same_shape (node_at fs (done @ [c])) (node_at fs' (done @ [c]))" by (rule "2.prems")
    show ?thesis
    proof (cases "node_at fs (done @ [c])")
      case None
      with sh 3 show ?thesis
        by (cases "node_at fs' (done @ [c])") (auto simp: same_shape_def split: node.split)
    next
      case (Some n)
      show ?thesis
      proof (cases n)
        case Dir
        with sh Some 3 "2.IH"(3) [OF 3 Some Dir "2.prems"] show ?thesis
          by (auto simp: same_shape_def)
      next
        case (Sym t)
        with sh Some have s': "node_at fs' (done @ [c]) = Some (Sym t)" unfolding same_shape_def by blast
        show ?thesis
        proof (cases "cs = [] \<and> \<not> follow \<or> fuel = 0")
          case True
          with Some Sym s' 3 show ?thesis by auto
        next
          case False
          with Some Sym s' 3 "2.IH"(4) [OF 3 Some Sym _ _ "2.prems"] show ?thesis by auto
        qed
      qed (use sh Some 3 in \<open>cases "node_at fs' (done @ [c])"; auto simp: same_shape_def split: node.split\<close>)+
    qed
  qed
qed

lemma resolve_same_shape:
  assumes "\<And>k. same_shape (node_at fs k) (node_at fs' k)"
  shows "resolve fs follow p = Inr q \<longleftrightarrow> resolve fs' follow p = Inr q"
  unfolding resolve_def by (rule walk_same_shape) (rule assms)

text \<open>A place that a walk can end at and that is no directory and no link: a file can be put there.\<close>

definition plain_at :: "fs \<Rightarrow> string list \<Rightarrow> bool" where
  "plain_at fs k \<longleftrightarrow> k \<noteq> [] \<and> node_at fs k \<noteq> Some Dir \<and> (\<forall>t. node_at fs k \<noteq> Some (Sym t))"

lemma set_plain_shape: "plain_at fs k \<Longrightarrow> same_shape (node_at fs q) (node_at (set_node k (Reg b m) fs) q)"
  by (auto simp: plain_at_def node_at_set same_shape_def)

lemma del_plain_shape: "plain_at fs k \<Longrightarrow> same_shape (node_at fs q) (node_at (del_node k fs) q)"
  by (auto simp: plain_at_def node_at_del same_shape_def)

lemma fs_write_Inr:
  assumes "fs_write p b m fs = (Inr u, fs')"
  obtains k m' where "resolve fs True p = Inr k" "plain_at fs k" "fs' = set_node k (Reg b m') fs"
  using assms
  by (auto simp: fs_write_def plain_at_def node_at_def split: sum.splits option.splits node.splits if_splits)

lemma fs_write_cases:
  "fst (fs_write p b m fs) = Inr () \<or> snd (fs_write p b m fs) = fs"
  by (auto simp: fs_write_def split: sum.splits option.splits node.splits)

lemma read_file_at:
  assumes "resolve fs True p = Inr k" "node_at fs k = Some (Reg b m)"
  shows "fs_read_file fs p = Inr b"
  using assms by (simp add: fs_read_file_def fs_stat_def node_res_def)

lemma read_file_Inr:
  assumes "fs_read_file fs p = Inr b"
  obtains k m where "resolve fs True p = Inr k" "node_at fs k = Some (Reg b m)"
  using assms
  by (auto simp: fs_read_file_def fs_stat_def node_res_def split: sum.splits option.splits node.splits)

lemma resolve_set_plain:
  assumes "plain_at fs k"
  shows "resolve (set_node k (Reg b m) fs) follow p = Inr q \<longleftrightarrow> resolve fs follow p = Inr q"
  using resolve_same_shape [OF set_plain_shape [OF assms]] by blast

lemma resolve_del_plain:
  assumes "plain_at fs k"
  shows "resolve (del_node k fs) follow p = Inr q \<longleftrightarrow> resolve fs follow p = Inr q"
  using resolve_same_shape [OF del_plain_shape [OF assms]] by blast

text \<open>Reading back what was written, and what a write elsewhere leaves alone.\<close>

lemma read_after_write:
  assumes "fs_write p b m fs = (Inr u, fs')"
  shows "fs_read_file fs' p = Inr b"
proof -
  from assms obtain k m' where k: "resolve fs True p = Inr k" "plain_at fs k" "fs' = set_node k (Reg b m') fs"
    by (rule fs_write_Inr)
  then have "resolve fs' True p = Inr k" "node_at fs' k = Some (Reg b m')"
    by (auto simp: resolve_set_plain node_at_set plain_at_def)
  then show ?thesis by (rule read_file_at)
qed

lemma read_file_set_other:
  assumes "plain_at fs k" "resolve fs True q \<noteq> Inr k"
  shows "fs_read_file (set_node k (Reg b m) fs) q = Inr c \<longleftrightarrow> fs_read_file fs q = Inr c"
proof
  assume "fs_read_file (set_node k (Reg b m) fs) q = Inr c"
  then obtain j mj where "resolve (set_node k (Reg b m) fs) True q = Inr j"
    "node_at (set_node k (Reg b m) fs) j = Some (Reg c mj)" by (rule read_file_Inr)
  with assms have "resolve fs True q = Inr j" "node_at fs j = Some (Reg c mj)"
    by (auto simp: resolve_set_plain node_at_set plain_at_def split: if_splits)
  then show "fs_read_file fs q = Inr c" by (rule read_file_at)
next
  assume "fs_read_file fs q = Inr c"
  then obtain j mj where "resolve fs True q = Inr j" "node_at fs j = Some (Reg c mj)" by (rule read_file_Inr)
  with assms have "resolve (set_node k (Reg b m) fs) True q = Inr j"
    "node_at (set_node k (Reg b m) fs) j = Some (Reg c mj)"
    by (auto simp: resolve_set_plain node_at_set plain_at_def)
  then show "fs_read_file (set_node k (Reg b m) fs) q = Inr c" by (rule read_file_at)
qed

lemma read_file_del_other:
  assumes "plain_at fs k" "resolve fs True q \<noteq> Inr k"
  shows "fs_read_file (del_node k fs) q = Inr c \<longleftrightarrow> fs_read_file fs q = Inr c"
proof
  assume "fs_read_file (del_node k fs) q = Inr c"
  then obtain j mj where "resolve (del_node k fs) True q = Inr j"
    "node_at (del_node k fs) j = Some (Reg c mj)" by (rule read_file_Inr)
  with assms have "resolve fs True q = Inr j" "node_at fs j = Some (Reg c mj)"
    by (auto simp: resolve_del_plain node_at_del plain_at_def split: if_splits)
  then show "fs_read_file fs q = Inr c" by (rule read_file_at)
next
  assume "fs_read_file fs q = Inr c"
  then obtain j mj where "resolve fs True q = Inr j" "node_at fs j = Some (Reg c mj)" by (rule read_file_Inr)
  with assms have "resolve (del_node k fs) True q = Inr j" "node_at (del_node k fs) j = Some (Reg c mj)"
    by (auto simp: resolve_del_plain node_at_del plain_at_def)
  then show "fs_read_file (del_node k fs) q = Inr c" by (rule read_file_at)
qed

subsection \<open>Extensions\<close>

text \<open>
  A file system that still has every node of another one, and no other symbolic link, reads every
  file of it alike.
\<close>

definition no_new_links :: "fs \<Rightarrow> fs \<Rightarrow> bool" where
  "no_new_links base fs \<longleftrightarrow> (\<forall>k t. node_at fs k = Some (Sym t) \<longrightarrow> node_at base k = Some (Sym t))"

lemma no_new_links_refl [simp]: "no_new_links fs fs"
  by (simp add: no_new_links_def)

lemma no_new_links_trans: "\<lbrakk> no_new_links a b; no_new_links b c \<rbrakk> \<Longrightarrow> no_new_links a c"
  unfolding no_new_links_def by blast

lemma no_new_links_set: "\<lbrakk> no_new_links base fs; k \<noteq> []; \<forall>t. n \<noteq> Sym t \<rbrakk> \<Longrightarrow> no_new_links base (set_node k n fs)"
  unfolding no_new_links_def by (auto simp: node_at_set)

lemma no_new_links_del: "\<lbrakk> no_new_links base fs; k \<noteq> [] \<rbrakk> \<Longrightarrow> no_new_links base (del_node k fs)"
  unfolding no_new_links_def by (auto simp: node_at_del)

definition extends :: "fs \<Rightarrow> fs \<Rightarrow> bool" where
  "extends base fs \<longleftrightarrow> (\<forall>k n. node_at base k = Some n \<longrightarrow> node_at fs k = Some n)
     \<and> no_new_links base fs"

lemma extendsD: "\<lbrakk> extends base fs; node_at base k = Some n \<rbrakk> \<Longrightarrow> node_at fs k = Some n"
  by (simp add: extends_def)

lemma extends_None: "\<lbrakk> extends base fs; node_at fs k = None \<rbrakk> \<Longrightarrow> node_at base k = None"
  by (cases "node_at base k") (auto dest: extendsD)

lemma extends_refl [simp]: "extends base base"
  by (simp add: extends_def)

lemma extends_set:
  "\<lbrakk> extends base fs; node_at base k = None; k \<noteq> []; \<forall>t. n \<noteq> Sym t \<rbrakk> \<Longrightarrow> extends base (set_node k n fs)"
  by (auto simp: extends_def node_at_set no_new_links_set)

lemma extends_set_new:
  assumes "extends base fs" "node_at fs k = None" "\<forall>t. n \<noteq> Sym t"
  shows "extends base (set_node k n fs)"
proof -
  from assms(2) have "k \<noteq> []" by (auto simp: node_at_def)
  then show ?thesis using assms extends_None by (intro extends_set) auto
qed

lemma extends_del: "\<lbrakk> extends base fs; node_at base k = None; k \<noteq> [] \<rbrakk> \<Longrightarrow> extends base (del_node k fs)"
  by (auto simp: extends_def node_at_del no_new_links_del)

text \<open>
  More generally: all nodes are kept but those with a name that is \<open>own\<close>, and no link is new. A walk to another place is not
  disturbed when the own names of the base carry regular files only.
\<close>

definition own_key :: "(string \<Rightarrow> bool) \<Rightarrow> string list \<Rightarrow> bool" where
  "own_key own k \<longleftrightarrow> k \<noteq> [] \<and> own (last k)"

definition keeps :: "(string \<Rightarrow> bool) \<Rightarrow> fs \<Rightarrow> fs \<Rightarrow> bool" where
  "keeps own base fs \<longleftrightarrow> (\<forall>k n. node_at base k = Some n \<and> \<not> own_key own k \<longrightarrow> node_at fs k = Some n)
     \<and> no_new_links base fs"

definition own_files :: "(string \<Rightarrow> bool) \<Rightarrow> fs \<Rightarrow> bool" where
  "own_files own fs \<longleftrightarrow> list_all (\<lambda>(k, n). own_key own k \<longrightarrow> is_reg_node n) fs"

lemma own_file:
  "\<lbrakk> own_files own fs; node_at fs k = Some n; own_key own k \<rbrakk> \<Longrightarrow> \<exists>b m. n = Reg b m"
  by (cases n) (auto simp: own_files_def list_all_iff node_at_def own_key_def is_reg_node_def dest!: map_of_SomeD)

text \<open>The same of the places alone: no directory and no link is at a place of an own name.\<close>

definition own_plain :: "(string \<Rightarrow> bool) \<Rightarrow> fs \<Rightarrow> bool" where
  "own_plain own fs \<longleftrightarrow> (\<forall>k. own_key own k \<longrightarrow> node_at fs k \<noteq> Some Dir \<and> (\<forall>t. node_at fs k \<noteq> Some (Sym t)))"

lemma own_files_plain: "own_files own fs \<Longrightarrow> own_plain own fs"
  using own_file by (fastforce simp: own_plain_def)

lemma walk_keeps:
  "\<lbrakk> keeps own base fs; own_plain own base; walk base fuel follow done cs = Inr q; node_at base q \<noteq> None; \<not> own_key own q \<rbrakk>
   \<Longrightarrow> walk fs fuel follow done cs = Inr q"
proof (induction base fuel follow "done" cs rule: walk.induct)
  case (1 base fuel follow "done")
  then show ?case by simp
next
  case (2 base fuel follow "done" c cs)
  consider "c = [] \<or> c = ''.''" | "\<not> (c = [] \<or> c = ''.'')" "c = ''..''"
    | "\<not> (c = [] \<or> c = ''.'')" "c \<noteq> ''..''" by blast
  then show ?case
  proof cases
    case 1
    with "2.IH"(1) [OF 1 "2.prems"(1,2)] "2.prems"(3-5) show ?thesis by auto
  next
    case 2
    with "2.IH"(2) [OF 2 "2.prems"(1,2)] "2.prems"(3-5) show ?thesis by auto
  next
    case 3
    then obtain n where n: "node_at base (done @ [c]) = Some n"
      using "2.prems"(3,4) by (cases "node_at base (done @ [c])") (auto split: if_splits)
    show ?thesis
    proof (cases "own_key own (done @ [c])")
      case True
      then have "n \<noteq> Dir" "\<forall>t. n \<noteq> Sym t" using "2.prems"(2) n by (auto simp: own_plain_def)
      with n 3 True "2.prems"(3,5) show ?thesis by (cases n) (auto split: if_splits)
    next
      case False
      then have n': "node_at fs (done @ [c]) = Some n" using n "2.prems"(1) by (simp add: keeps_def)
      show ?thesis
      proof (cases n)
        case Dir
        with n n' 3 "2.IH"(3) [OF 3 n Dir "2.prems"(1,2)] "2.prems"(3-5) show ?thesis by simp
      next
        case (Sym t)
        show ?thesis
        proof (cases "cs = [] \<and> \<not> follow \<or> fuel = 0")
          case True
          with n n' Sym 3 "2.prems"(3) show ?thesis by (auto split: if_splits)
        next
          case False
          then have f: "\<not> (cs = [] \<and> \<not> follow)" "fuel \<noteq> 0" by auto
          with n n' Sym 3 "2.IH"(4) [OF 3 n Sym f "2.prems"(1,2)] "2.prems"(3-5) show ?thesis by auto
        qed
      qed (use n n' 3 "2.prems"(3) in simp_all)
    qed
  qed
qed

lemma read_file_keeps:
  assumes "keeps own base fs" "own_plain own base" "resolve base True p = Inr k" "\<not> own_key own k"
    and "fs_read_file base p = Inr b"
  shows "fs_read_file fs p = Inr b"
proof -
  obtain m where k: "node_at base k = Some (Reg b m)" using read_file_Inr [OF assms(5)] assms(3) by auto
  then have "resolve fs True p = Inr k" using walk_keeps [OF assms(1,2)] assms(3,4) by (simp add: resolve_def)
  moreover have "node_at fs k = Some (Reg b m)" using assms(1,4) k by (simp add: keeps_def)
  ultimately show ?thesis by (rule read_file_at)
qed

lemma extends_keeps_all: "extends base fs \<longleftrightarrow> keeps (\<lambda>_. False) base fs"
  by (simp add: extends_def keeps_def own_key_def)

lemma keeps_refl [simp]: "keeps own base base"
  by (simp add: keeps_def)

lemma keeps_extends: "\<lbrakk> keeps own base fs; extends fs fs' \<rbrakk> \<Longrightarrow> keeps own base fs'"
  by (auto simp: keeps_def extends_def intro: no_new_links_trans)

lemma keeps_None: "\<lbrakk> keeps own base fs; node_at fs k = None \<rbrakk> \<Longrightarrow> own_key own k \<or> node_at base k = None"
  unfolding keeps_def by (metis not_None_eq)

lemma keeps_set:
  "\<lbrakk> keeps own base fs; own_key own k \<or> node_at fs k = None; k \<noteq> []; \<forall>t. n \<noteq> Sym t \<rbrakk> \<Longrightarrow> keeps own base (set_node k n fs)"
  by (auto simp: keeps_def node_at_set no_new_links_set)

lemma keeps_del: "\<lbrakk> keeps own base fs; own_key own k \<or> node_at base k = None; k \<noteq> [] \<rbrakk> \<Longrightarrow> keeps own base (del_node k fs)"
  by (auto simp: keeps_def node_at_del no_new_links_del)

lemma keeps_own_links:
  "\<lbrakk> keeps own base fs; own_files own base; own_key own k \<rbrakk> \<Longrightarrow> node_at fs k \<noteq> Some (Sym t)"
  unfolding keeps_def no_new_links_def using own_file by (metis node.distinct(3))

lemma walk_extends:
  "\<lbrakk> extends base fs; walk base fuel follow done cs = Inr q; node_at base q \<noteq> None \<rbrakk>
   \<Longrightarrow> walk fs fuel follow done cs = Inr q"
  using walk_keeps [of "\<lambda>_. False"] by (auto simp: extends_keeps_all own_plain_def own_key_def)

lemma resolve_extends:
  "\<lbrakk> extends base fs; resolve base follow p = Inr q; node_at base q \<noteq> None \<rbrakk> \<Longrightarrow> resolve fs follow p = Inr q"
  unfolding resolve_def by (rule walk_extends)

text \<open>A path that ends in a proper name leads to a place of that name, unless a final link is followed.\<close>

lemma walk_last:
  "\<lbrakk> walk fs fuel follow done cs = Inr q; cs \<noteq> []; last cs = c; c \<noteq> []; c \<noteq> ''.''; c \<noteq> ''..'';
     follow \<longrightarrow> (\<forall>k t. node_at fs (k @ [c]) \<noteq> Some (Sym t)) \<rbrakk> \<Longrightarrow> q \<noteq> [] \<and> last q = c"
proof (induction fs fuel follow "done" cs rule: walk.induct)
  case (1 fs fuel follow "done")
  then show ?case by simp
next
  case (2 fs fuel follow "done" d ds)
  note pr = "2.prems"
  show ?case
  proof (cases "ds = []")
    case True
    with pr show ?thesis by (auto split: option.splits node.splits if_splits)
  next
    case False
    then have l: "ds \<noteq> []" "last ds = c" using pr(3) by simp_all
    consider "d = [] \<or> d = ''.''" | "\<not> (d = [] \<or> d = ''.'')" "d = ''..''" | "\<not> (d = [] \<or> d = ''.'')" "d \<noteq> ''..''" by blast
    then show ?thesis
    proof cases
      case 1
      then have "walk fs fuel follow done ds = Inr q" using pr(1) by auto
      from "2.IH"(1) [OF 1 this l pr(4-7)] show ?thesis .
    next
      case 2
      then have "walk fs fuel follow (butlast done) ds = Inr q" using pr(1) by auto
      from "2.IH"(2) [OF 2 this l pr(4-7)] show ?thesis .
    next
      case 3
      then obtain n where n: "node_at fs (done @ [d]) = Some n"
        using pr(1) False by (cases "node_at fs (done @ [d])") (auto split: if_splits)
      show ?thesis
      proof (cases n)
        case Dir
        then have "walk fs fuel follow (done @ [d]) ds = Inr q" using pr(1) n 3 by auto
        from "2.IH"(3) [OF 3 n Dir this l pr(4-7)] show ?thesis .
      next
        case (Sym t)
        from pr(1) n Sym 3 False have f: "\<not> (ds = [] \<and> \<not> follow)" "fuel \<noteq> 0" by (auto split: if_splits)
        then have "walk fs (fuel - 1) follow (if is_abs t then [] else done) (path_comps t @ ds) = Inr q"
          using pr(1) n Sym 3 by auto
        from "2.IH"(4) [OF 3 n Sym f this] l pr(4-7) show ?thesis by simp
      qed (use n 3 pr(1) False in auto)
    qed
  qed
qed

lemma resolve_last:
  assumes "resolve fs False p = Inr q" "path_comps p = cs @ [c]" "c \<noteq> ''.''" "c \<noteq> ''..''"
  shows "q \<noteq> [] \<and> last q = c"
proof -
  have "c \<noteq> []" using assms(2) path_comps_no_slash [of c p] by simp
  then show ?thesis using assms walk_last [of fs max_links False "[]" "cs @ [c]" q c] by (simp add: resolve_def)
qed

lemma read_file_extends:
  assumes "extends base fs" "fs_read_file base p = Inr b"
  shows "fs_read_file fs p = Inr b"
proof -
  from assms(2) obtain k m where k: "resolve base True p = Inr k" "node_at base k = Some (Reg b m)"
    by (rule read_file_Inr)
  with assms(1) have "resolve fs True p = Inr k" "node_at fs k = Some (Reg b m)"
    using resolve_extends by (blast, simp add: extendsD)
  then show ?thesis by (rule read_file_at)
qed

text \<open>A final component that is no symbolic link is found with and without following links.\<close>

lemma walk_follow:
  "\<lbrakk> walk fs fuel False done cs = Inr q; \<forall>t. node_at fs q \<noteq> Some (Sym t) \<rbrakk> \<Longrightarrow> walk fs fuel True done cs = Inr q"
proof (induction fs fuel False "done" cs rule: walk.induct)
  case (1 fs fuel "done")
  then show ?case by simp
next
  case (2 fs fuel "done" c cs)
  then show ?case by (auto split: if_splits option.splits node.splits)
qed

lemma walk_nofollow:
  "walk fs fuel True done cs = Inr q \<Longrightarrow>
   \<exists>q'. walk fs fuel False done cs = Inr q' \<and> (q' = q \<or> (\<exists>t. node_at fs q' = Some (Sym t)))"
proof (induction fs fuel True "done" cs rule: walk.induct)
  case (1 fs fuel "done")
  then show ?case by simp
next
  case (2 fs fuel "done" c cs)
  then show ?case by (auto split: if_splits option.splits node.splits)
qed

lemma resolve_nofollow:
  assumes "resolve fs True p = Inr k" "\<forall>t. fs_lstat fs p \<noteq> Inr (Sym t)"
  shows "resolve fs False p = Inr k"
  using walk_nofollow [of fs max_links "[]" "path_comps p" k] assms
  by (auto simp: resolve_def fs_lstat_def node_res_def)

text \<open>Removing a file that is no link: other names keep their text, the name itself is gone.\<close>

lemma remove_own:
  assumes "resolve fs False q = Inr k" "resolve fs True q = Inr k" "node_at fs k = Some (Reg b m)"
    and "resolve fs True p \<noteq> Inr k" "fs_read_file fs p = Inr c"
  shows "\<exists>fs'. fs_remove q fs = (Inr (), fs') \<and> fs_read_file fs' p = Inr c \<and> fs_stat fs' q = Inl ENOENT"
proof -
  have k: "plain_at fs k" "k \<noteq> []" using assms(3) by (auto simp: plain_at_def node_at_def)
  have "resolve (del_node k fs) True q = Inr k" using assms(2) k(1) by (simp add: resolve_del_plain)
  then show ?thesis
    using assms k by (simp add: fs_remove_def read_file_del_other fs_stat_def node_res_def node_at_del)
qed

lemma mkdir_each_extends: "extends base fs \<Longrightarrow> extends base (snd (mkdir_each done cs fs))"
proof (induction "done" cs fs rule: mkdir_each.induct)
  case (1 "done" fs)
  then show ?case by simp
next
  case (2 "done" c cs fs)
  have new: "extends base (set_node k Dir fs)" if "node_at fs k = None" for k
    using extends_set_new [OF "2.prems" that] by simp
  show ?case
    using 2 new by (auto simp: Let_def split: sum.splits node.splits errno.splits if_splits)
qed

lemma create_temp_fresh:
  "fs_create_temp dir prefix sfxs fs = (Inr (p, k), fs') \<Longrightarrow> k \<noteq> [] \<and> node_at fs k = None \<and> fs' = set_node k (Reg [] 0x180) fs
     \<and> resolve fs False p = Inr k"
  by (induction sfxs) (auto simp: Let_def node_at_def split: sum.splits option.splits)

lemma create_temp_fails: "fs_create_temp dir prefix sfxs fs = (Inl e, fs') \<Longrightarrow> fs' = fs"
  by (induction sfxs) (auto simp: Let_def split: sum.splits option.splits)

lemma effect_nodes:
  assumes "effect f s = (r, s')" "\<And>fs. P fs \<Longrightarrow> P (snd (f fs))" "P (nodes s)"
  shows "P (nodes s')"
  using assms by (cases rule: effect_cases [of f s]) (auto, metis snd_conv)

lemma mkdir_keeps: "keeps own base fs \<Longrightarrow> keeps own base (snd (fs_mkdir_all p fs))"
  unfolding fs_mkdir_all_def by (rule keeps_extends [OF _ mkdir_each_extends [OF extends_refl]])

end
