(* ===== verification/Errors.thy ===== *)
theory Errors imports Posix_FS begin

text \<open>
  Error values of the toolkit: the sentinels of \<open>internal/errors/errors.go\<close>, the error types
  of \<open>internal/installer/errors.go\<close> and \<open>lock.go\<close>, and the two ways the code wraps an error.
  \<open>fmt.Errorf\<close> with \<open>%w\<close> keeps the wrapped error visible to \<open>errors.Is\<close>; with \<open>%v\<close> only
  its text survives. The text is kept as the message in front of the wrapped error.
\<close>

datatype sentinel =
    ErrConfigNotFound | ErrInvalidConfig
  | ErrNoLibrariesFound | ErrNoToolsFound | ErrLdcacheParseFailed | ErrLddFailed
  | ErrInvalidCDISpec | ErrFileNotFound | ErrWriteFailed
  | ErrRuntimeNotFound | ErrConfigureFailed | ErrPermissionDenied

fun sentinel_text :: "sentinel \<Rightarrow> string" where
  "sentinel_text ErrConfigNotFound = ''configuration file not found''"
| "sentinel_text ErrInvalidConfig = ''invalid configuration''"
| "sentinel_text ErrNoLibrariesFound = ''no RBLN libraries found''"
| "sentinel_text ErrNoToolsFound = ''no tools found''"
| "sentinel_text ErrLdcacheParseFailed = ''failed to parse ldcache''"
| "sentinel_text ErrLddFailed = ''ldd execution failed''"
| "sentinel_text ErrInvalidCDISpec = ''invalid CDI specification''"
| "sentinel_text ErrFileNotFound = ''file not found''"
| "sentinel_text ErrWriteFailed = ''failed to write file''"
| "sentinel_text ErrRuntimeNotFound = ''runtime not found''"
| "sentinel_text ErrConfigureFailed = ''failed to configure runtime''"
| "sentinel_text ErrPermissionDenied = ''permission denied''"

datatype gerr =
    Sentinel sentinel
  | Sys errno
  | Msg string
  | WrapW string gerr
  | WrapV string gerr
  | RestartFailed string string gerr
  | AlreadyRunning string

text \<open>\<open>errors.Is\<close> against a sentinel: through \<open>%w\<close> and \<open>Unwrap\<close>, not through \<open>%v\<close>.\<close>

fun err_is :: "gerr \<Rightarrow> sentinel \<Rightarrow> bool" where
  "err_is (Sentinel a) b = (a = b)"
| "err_is (WrapW m e) b = err_is e b"
| "err_is (RestartFailed r s e) b = err_is e b"
| "err_is _ b = False"

text \<open>
  The errors the installer declares for its callers; \<open>Unwrap\<close> gives \<open>errors.Is\<close> the cause where there is
  one. \<open>show\<close> is the text of a cause.
\<close>

datatype install_error =
    RestartError string string gerr
  | ConfigError string string gerr
  | GenerateError string gerr
  | PermissionError string string gerr
  | SocketError string string
  | ModeError string string

primrec install_error_text :: "(gerr \<Rightarrow> string) \<Rightarrow> install_error \<Rightarrow> string" where
  "install_error_text show (RestartError r s c) = ''failed to restart '' @ r @ '': '' @ show c @ [newline, newline]
     @ ''To restart manually:'' @ [newline] @ ''  sudo systemctl restart '' @ s"
| "install_error_text show (ConfigError r p c) = ''failed to configure '' @ r @ '' at '' @ p @ '': '' @ show c"
| "install_error_text show (GenerateError p c) = ''failed to generate CDI spec at '' @ p @ '': '' @ show c"
| "install_error_text show (PermissionError a p c) =
     ''permission denied: '' @ a @ '' at '' @ p @ '' (try sudo)'' @ [newline] @ show c"
| "install_error_text show (SocketError p r) = ''socket not found: '' @ p @ [newline, newline] @ ''Is '' @ r @ '' running?''"
| "install_error_text show (ModeError r m) =
     ''restart mode '' @ [CHR 0x27] @ m @ [CHR 0x27] @ '' is not supported for '' @ r"

primrec install_error_unwrap :: "install_error \<Rightarrow> gerr option" where
  "install_error_unwrap (RestartError r s c) = Some c"
| "install_error_unwrap (ConfigError r p c) = Some c"
| "install_error_unwrap (GenerateError p c) = Some c"
| "install_error_unwrap (PermissionError a p c) = Some c"
| "install_error_unwrap (SocketError p r) = None"
| "install_error_unwrap (ModeError r m) = None"

text \<open>Of these only a failed restart is made; as a \<open>gerr\<close> it is \<open>RestartFailed\<close>, which \<open>errors.Is\<close> sees through alike.\<close>

lemma restart_error_is:
  "err_is (RestartFailed r s c) b \<longleftrightarrow> (case install_error_unwrap (RestartError r s c) of None \<Rightarrow> False | Some e \<Rightarrow> err_is e b)"
  by simp

text \<open>\<open>os.IsNotExist\<close> looks at the error itself and not through wrappers.\<close>

definition is_not_exist :: "errno \<Rightarrow> bool" where
  "is_not_exist e \<longleftrightarrow> e = ENOENT"

text \<open>A system call's result with its error wrapped by a message.\<close>

definition wrap_sys :: "string \<Rightarrow> errno + 'a \<Rightarrow> gerr + 'a" where
  "wrap_sys m r = (case r of Inl e \<Rightarrow> Inl (WrapV m (Sys e)) | Inr x \<Rightarrow> Inr x)"

lemma sentinel_text_inj: "sentinel_text a = sentinel_text b \<Longrightarrow> a = b"
  by (cases a; cases b) simp_all

end
