(* ===== verification/Config.thy ===== *)
theory Config imports Errors begin

text \<open>
  The configuration of the toolkit (\<open>internal/config\<close>): the types of \<open>types.go\<close>, the defaults
  of \<open>defaults.go\<close>, the options of \<open>options.go\<close> and the loader of \<open>loader.go\<close>. The YAML
  decoder is third-party code and a parameter: \<open>decode data cfg\<close> is \<open>yaml.Unmarshal (data, cfg)\<close>,
  \<open>None\<close> where it returns an error. The environment is the function \<open>getenv\<close>, which gives the
  empty string for a variable that is not set.
\<close>

subsection \<open>Types\<close>

record cdi_config =
  cdi_output_path :: string
  cdi_format :: string
  cdi_vendor :: string
  cdi_class :: string

record rds_config =
  rds_class :: string
  rds_output_path :: string
  rds_patterns :: "string list"

record rdma_provider_config =
  provider_library :: string
  provider_driver :: string

record library_config =
  lib_patterns :: "string list"
  lib_dependencies :: "string list"
  plugin_paths :: "string list"
  container_path :: string
  rdma_providers :: "rdma_provider_config list"
  rdma_provider_dir :: string

record search_path_config =
  search_libraries :: "string list"
  search_binaries :: "string list"

record selinux_config =
  selinux_enabled :: bool
  mount_context :: string

record device_config =
  dev_patterns :: "string list"
  dev_disabled :: bool

record hook_config =
  hook_path :: string
  ldconfig_path :: string

record config =
  cdi :: cdi_config
  rds :: rds_config
  libraries :: library_config
  tools :: "string list"
  devices :: device_config
  search_paths :: search_path_config
  glibc_exclude :: "string list"
  selinux :: selinux_config
  hooks :: hook_config
  debug :: bool
  driver_root :: string
  search_root :: string
  host_root :: string

subsection \<open>Defaults\<close>

definition default_config :: config where
  "default_config = \<lparr>
     cdi = \<lparr> cdi_output_path = ''/var/run/cdi/rbln.yaml'', cdi_format = ''yaml'',
             cdi_vendor = ''rebellions.ai'', cdi_class = ''npu'' \<rparr>,
     rds = \<lparr> rds_class = ''rds'', rds_output_path = ''/var/run/cdi/rbln-rds.yaml'',
             rds_patterns = [''/dev/rblnfs*''] \<rparr>,
     libraries = \<lparr> lib_patterns = [''librbln-*.so*''], lib_dependencies = [],
             plugin_paths = [''/usr/lib64/libibverbs'', ''/usr/lib/x86_64-linux-gnu/libibverbs''],
             container_path = '''',
             rdma_providers = [\<lparr> provider_library = ''/usr/local/lib/libbnxt_re-rdmav34.so'',
                                provider_driver = ''/etc/libibverbs.d/bnxt_re.driver'' \<rparr>],
             rdma_provider_dir = ''/usr/lib/x86_64-linux-gnu/libibverbs'' \<rparr>,
     tools = [''rbln-smi'', ''rbln-stat'', ''rblnBandwidthLatencyTest''],
     devices = \<lparr> dev_patterns = [''/dev/rbln*'', ''/dev/rsd*''], dev_disabled = False \<rparr>,
     search_paths = \<lparr> search_libraries = [''/usr/lib64'', ''/usr/lib/x86_64-linux-gnu'', ''/usr/lib'',
               ''/usr/local/lib'', ''/usr/local/lib64'', ''/lib'', ''/lib64'', ''/lib/x86_64-linux-gnu''],
             search_binaries = [''/usr/bin'', ''/usr/local/bin''] \<rparr>,
     glibc_exclude = [''ld-linux*'', ''linux-vdso*'', ''libc.so*'', ''libm.so*'', ''libpthread*'', ''libdl*'',
               ''librt*'', ''libgcc_s*'', ''libstdc++*'', ''libresolv*'', ''libnss_*''],
     selinux = \<lparr> selinux_enabled = False, mount_context = ''z'' \<rparr>,
     hooks = \<lparr> hook_path = ''/usr/local/bin/rbln-cdi-hook'', ldconfig_path = ''/sbin/ldconfig'' \<rparr>,
     debug = False,
     driver_root = ''/'',
     search_root = '''',
     host_root = '''' \<rparr>"

lemma default_config_simps [simp]:
  "cdi_output_path (cdi default_config) = ''/var/run/cdi/rbln.yaml''"
  "cdi_format (cdi default_config) = ''yaml''"
  "cdi_vendor (cdi default_config) = ''rebellions.ai''"
  "cdi_class (cdi default_config) = ''npu''"
  "rds_class (rds default_config) = ''rds''"
  "dev_disabled (devices default_config) = False"
  "container_path (libraries default_config) = ''''"
  "driver_root default_config = ''/''"
  "search_root default_config = ''''"
  "host_root default_config = ''''"
  by (simp_all add: default_config_def)

definition default_config_paths :: "string list" where
  "default_config_paths = [''/etc/rbln/container-toolkit.yaml'', ''/etc/rbln/container-toolkit.yml'']"

subsection \<open>Options\<close>

type_synonym cfg_option = "config \<Rightarrow> config"

definition with_config_file :: "string \<Rightarrow> cfg_option" where
  "with_config_file path c = c"

definition with_driver_root :: "string \<Rightarrow> cfg_option" where
  "with_driver_root root c = (if root \<noteq> [] then c\<lparr>driver_root := root\<rparr> else c)"

definition with_output_path :: "string \<Rightarrow> cfg_option" where
  "with_output_path path c = (if path \<noteq> [] then c\<lparr>cdi := (cdi c)\<lparr>cdi_output_path := path\<rparr>\<rparr> else c)"

definition with_format :: "string \<Rightarrow> cfg_option" where
  "with_format f c = (if f \<noteq> [] then c\<lparr>cdi := (cdi c)\<lparr>cdi_format := f\<rparr>\<rparr> else c)"

definition with_debug :: "bool \<Rightarrow> cfg_option" where
  "with_debug d c = c\<lparr>debug := d\<rparr>"

definition with_vendor :: "string \<Rightarrow> cfg_option" where
  "with_vendor v c = (if v \<noteq> [] then c\<lparr>cdi := (cdi c)\<lparr>cdi_vendor := v\<rparr>\<rparr> else c)"

definition with_class :: "string \<Rightarrow> cfg_option" where
  "with_class v c = (if v \<noteq> [] then c\<lparr>cdi := (cdi c)\<lparr>cdi_class := v\<rparr>\<rparr> else c)"

definition with_selinux :: "bool \<Rightarrow> cfg_option" where
  "with_selinux e c = c\<lparr>selinux := (selinux c)\<lparr>selinux_enabled := e\<rparr>\<rparr>"

definition with_selinux_context :: "string \<Rightarrow> cfg_option" where
  "with_selinux_context v c =
     (if v \<noteq> [] then c\<lparr>selinux := (selinux c)\<lparr>mount_context := v\<rparr>\<rparr> else c)"

definition with_container_library_path :: "string \<Rightarrow> cfg_option" where
  "with_container_library_path v c =
     (if v \<noteq> [] then c\<lparr>libraries := (libraries c)\<lparr>container_path := v\<rparr>\<rparr> else c)"

lemmas option_defs = with_config_file_def with_driver_root_def with_output_path_def with_format_def
  with_debug_def with_vendor_def with_class_def with_selinux_def with_selinux_context_def
  with_container_library_path_def

subsection \<open>The loader\<close>

definition env_config_file :: string where "env_config_file = ''RBLN_CTK_CONFIG''"
definition env_debug :: string where "env_debug = ''RBLN_CTK_DEBUG''"
definition env_cdi_output :: string where "env_cdi_output = ''RBLN_CDI_OUTPUT''"
definition env_cdi_format :: string where "env_cdi_format = ''RBLN_CDI_FORMAT''"
definition env_driver_root :: string where "env_driver_root = ''RBLN_DRIVER_ROOT''"

record loader =
  config_file :: string

definition new_loader :: loader where "new_loader = \<lparr> config_file = '''' \<rparr>"

definition with_file :: "string \<Rightarrow> loader \<Rightarrow> loader" where
  "with_file path l = l\<lparr>config_file := path\<rparr>"

definition resolve_config_path :: "fs \<Rightarrow> (string \<Rightarrow> string) \<Rightarrow> loader \<Rightarrow> string" where
  "resolve_config_path fs getenv l =
     (if config_file l \<noteq> [] then config_file l
      else if getenv env_config_file \<noteq> [] then getenv env_config_file
      else case filter (fs_exists fs) default_config_paths of [] \<Rightarrow> [] | p # _ \<Rightarrow> p)"

definition load_from_file ::
  "(string \<Rightarrow> config \<Rightarrow> config option) \<Rightarrow> fs \<Rightarrow> config \<Rightarrow> string \<Rightarrow> gerr + config" where
  "load_from_file decode fs cfg path =
     (case fs_read_file fs path of
        Inl e \<Rightarrow> if is_not_exist e then Inr cfg
                 else Inl (WrapW (''read config file '' @ path) (Sys e))
      | Inr data \<Rightarrow> (case decode data cfg of
            None \<Rightarrow> Inl (WrapW (''parse config file '' @ path) (Sentinel ErrInvalidConfig))
          | Some cfg' \<Rightarrow> Inr cfg'))"

definition apply_env_vars :: "(string \<Rightarrow> string) \<Rightarrow> config \<Rightarrow> config" where
  "apply_env_vars getenv c0 =
     (let c1 = (if getenv env_debug = ''true'' \<or> getenv env_debug = ''1'' then c0\<lparr>debug := True\<rparr> else c0);
          c2 = (if getenv env_cdi_output \<noteq> []
                then c1\<lparr>cdi := (cdi c1)\<lparr>cdi_output_path := getenv env_cdi_output\<rparr>\<rparr> else c1);
          c3 = (if getenv env_cdi_format \<noteq> []
                then c2\<lparr>cdi := (cdi c2)\<lparr>cdi_format := getenv env_cdi_format\<rparr>\<rparr> else c2)
      in if getenv env_driver_root \<noteq> [] then c3\<lparr>driver_root := getenv env_driver_root\<rparr> else c3)"

definition load ::
  "(string \<Rightarrow> config \<Rightarrow> config option) \<Rightarrow> fs \<Rightarrow> (string \<Rightarrow> string) \<Rightarrow> loader \<Rightarrow> cfg_option list \<Rightarrow> gerr + config" where
  "load decode fs getenv l opts =
     (let path = resolve_config_path fs getenv l;
          r = (if path \<noteq> [] then load_from_file decode fs default_config path else Inr default_config)
      in case r of
           Inl e \<Rightarrow> Inl e
         | Inr cfg \<Rightarrow> Inr (fold (\<lambda>opt c. opt c) opts (apply_env_vars getenv cfg)))"

definition load_default ::
  "(string \<Rightarrow> config \<Rightarrow> config option) \<Rightarrow> fs \<Rightarrow> (string \<Rightarrow> string) \<Rightarrow> config" where
  "load_default decode fs getenv =
     (case load decode fs getenv new_loader [] of Inl e \<Rightarrow> default_config | Inr cfg \<Rightarrow> cfg)"

subsection \<open>Priorities\<close>

text \<open>What the file contributes: the defaults overlaid with the file that was found.\<close>

definition file_config ::
  "(string \<Rightarrow> config \<Rightarrow> config option) \<Rightarrow> fs \<Rightarrow> (string \<Rightarrow> string) \<Rightarrow> loader \<Rightarrow> gerr + config" where
  "file_config decode fs getenv l =
     (let path = resolve_config_path fs getenv l
      in if path \<noteq> [] then load_from_file decode fs default_config path else Inr default_config)"

definition first_set :: "string list \<Rightarrow> string" where
  "first_set xs = (case filter (\<lambda>x. x \<noteq> []) xs of [] \<Rightarrow> [] | x # _ \<Rightarrow> x)"

lemma apply_env_vars_simps [simp]:
  "driver_root (apply_env_vars g c) = (if g env_driver_root \<noteq> [] then g env_driver_root else driver_root c)"
  "cdi_output_path (cdi (apply_env_vars g c)) =
     (if g env_cdi_output \<noteq> [] then g env_cdi_output else cdi_output_path (cdi c))"
  "cdi_format (cdi (apply_env_vars g c)) =
     (if g env_cdi_format \<noteq> [] then g env_cdi_format else cdi_format (cdi c))"
  "cdi_vendor (cdi (apply_env_vars g c)) = cdi_vendor (cdi c)"
  "libraries (apply_env_vars g c) = libraries c"
  "devices (apply_env_vars g c) = devices c"
  "rds (apply_env_vars g c) = rds c"
  by (simp_all add: apply_env_vars_def Let_def)

text \<open>The configuration after the options of \<open>cdi generate\<close>, field by field.\<close>

lemma generate_options_simps:
  fixes c :: config and r out f p :: string and d :: bool
  defines "c' \<equiv> fold (\<lambda>opt c. opt c)
    [with_driver_root r, with_output_path out, with_format f, with_debug d, with_container_library_path p] c"
  shows "driver_root c' = (if r \<noteq> [] then r else driver_root c)"
    "cdi_output_path (cdi c') = (if out \<noteq> [] then out else cdi_output_path (cdi c))"
    "cdi_format (cdi c') = (if f \<noteq> [] then f else cdi_format (cdi c))"
    "cdi_vendor (cdi c') = cdi_vendor (cdi c)"
    "debug c' = d"
    "container_path (libraries c') = (if p \<noteq> [] then p else container_path (libraries c))"
    "devices c' = devices c"
    "rds c' = rds c"
  unfolding c'_def by (simp_all add: option_defs)

lemma first_set_simps [simp]:
  "first_set [] = []"
  "first_set (x # xs) = (if x \<noteq> [] then x else first_set xs)"
  by (simp_all add: first_set_def)

lemma load_alt:
  "load decode fs getenv l opts =
     map_sum id (\<lambda>cfg. fold (\<lambda>opt c. opt c) opts (apply_env_vars getenv cfg)) (file_config decode fs getenv l)"
  by (simp add: load_def file_config_def Let_def split: sum.split)

text \<open>
  The loader's priority order is CLI options over environment variables over the
  configuration file over the defaults: with the options the \<open>cdi generate\<close> command passes, each
  of driver root, output path and format is the first non-empty one of the option, the variable
  and the value the file (or, without one, the defaults) left; debug is what the option says.
\<close>

theorem load_priority:
  assumes "file_config decode fs getenv l = Inr fcfg"
  shows "\<exists>cfg. load decode fs getenv l
       [with_driver_root r, with_output_path out, with_format f, with_debug d, with_container_library_path p] = Inr cfg
     \<and> (driver_root fcfg \<noteq> [] \<longrightarrow> driver_root cfg = first_set [r, getenv env_driver_root, driver_root fcfg])
     \<and> (cdi_output_path (cdi fcfg) \<noteq> [] \<longrightarrow>
          cdi_output_path (cdi cfg) = first_set [out, getenv env_cdi_output, cdi_output_path (cdi fcfg)])
     \<and> (cdi_format (cdi fcfg) \<noteq> [] \<longrightarrow>
          cdi_format (cdi cfg) = first_set [f, getenv env_cdi_format, cdi_format (cdi fcfg)])
     \<and> debug cfg = d
     \<and> container_path (libraries cfg) = (if p \<noteq> [] then p else container_path (libraries fcfg))
     \<and> cdi_vendor (cdi cfg) = cdi_vendor (cdi fcfg) \<and> devices cfg = devices fcfg \<and> rds cfg = rds fcfg"
proof -
  let ?opts = "[with_driver_root r, with_output_path out, with_format f, with_debug d, with_container_library_path p]"
  have "load decode fs getenv l ?opts = Inr (fold (\<lambda>opt c. opt c) ?opts (apply_env_vars getenv fcfg))"
    unfolding load_alt assms by (simp only: map_sum.simps)
  then show ?thesis
    by (intro exI [of _ "fold (\<lambda>opt c. opt c) ?opts (apply_env_vars getenv fcfg)"] conjI impI)
      (assumption, simp_all only: generate_options_simps, simp_all)
qed

theorem load_priority_witness:
  "\<exists>cfg. load (\<lambda>data c. Some (c\<lparr>driver_root := data\<rparr>))
       [([''etc''], Dir), ([''etc'', ''c.yaml''], Reg ''/run/rbln/driver'' 0)]
       (\<lambda>v. if v = env_cdi_format then ''json'' else '''') \<lparr> config_file = ''/etc/c.yaml'' \<rparr>
       [with_driver_root '''', with_output_path ''/tmp/x'', with_format '''', with_debug True,
        with_container_library_path ''''] = Inr cfg
     \<and> driver_root cfg = ''/run/rbln/driver'' \<and> cdi_output_path (cdi cfg) = ''/tmp/x''
     \<and> cdi_format (cdi cfg) = ''json'' \<and> debug cfg"
proof -
  let ?fs = "[([''etc''], Dir), ([''etc'', ''c.yaml''], Reg ''/run/rbln/driver'' 0)]"
  let ?env = "\<lambda>v. if v = env_cdi_format then ''json'' else ''''"
  let ?dec = "\<lambda>data c. Some (c\<lparr>driver_root := data\<rparr>)"
  have "fs_read_file ?fs ''/etc/c.yaml'' = Inr ''/run/rbln/driver''"
    by (simp add: fs_eval)
  then have "file_config ?dec ?fs ?env \<lparr> config_file = ''/etc/c.yaml'' \<rparr>
      = Inr (default_config\<lparr>driver_root := ''/run/rbln/driver''\<rparr>)"
    by (simp add: file_config_def resolve_config_path_def load_from_file_def Let_def)
  from load_priority [OF this, of "''''" "''/tmp/x''" "''''" True "''''"]
  obtain cfg where l: "load ?dec ?fs ?env \<lparr> config_file = ''/etc/c.yaml'' \<rparr>
       [with_driver_root '''', with_output_path ''/tmp/x'', with_format '''', with_debug True,
        with_container_library_path ''''] = Inr cfg"
    and r: "driver_root cfg = first_set ['''', ?env env_driver_root, ''/run/rbln/driver'']"
      "cdi_output_path (cdi cfg) = first_set [''/tmp/x'', ?env env_cdi_output, ''/var/run/cdi/rbln.yaml'']"
      "cdi_format (cdi cfg) = first_set ['''', ?env env_cdi_format, ''yaml'']" "debug cfg"
    by auto
  then show ?thesis by (auto simp: env_driver_root_def env_cdi_format_def)
qed

text \<open>A missing configuration file is no error; the defaults are used.\<close>

lemma load_missing_file:
  assumes "config_file l \<noteq> []" "fs_read_file fs (config_file l) = Inl ENOENT"
  shows "file_config decode fs getenv l = Inr default_config"
proof -
  have "resolve_config_path fs getenv l = config_file l"
    using assms(1) by (simp add: resolve_config_path_def)
  moreover have "load_from_file decode fs default_config (config_file l) = Inr default_config"
    using assms(2) by (simp add: load_from_file_def is_not_exist_def)
  ultimately show ?thesis using assms(1) unfolding file_config_def Let_def by simp
qed

text \<open>
  A configuration file that does not parse makes loading fail with an error that
  \<open>errors.Is\<close> recognises as \<open>ErrInvalidConfig\<close>; the load never falls back silently.
\<close>

theorem load_invalid_file:
  assumes "config_file l \<noteq> []" "fs_read_file fs (config_file l) = Inr data"
    and "decode data default_config = None"
  shows "\<exists>e. load decode fs getenv l opts = Inl e \<and> err_is e ErrInvalidConfig"
proof -
  have "resolve_config_path fs getenv l = config_file l"
    using assms(1) by (simp add: resolve_config_path_def)
  moreover have "load_from_file decode fs default_config (config_file l) =
      Inl (WrapW (''parse config file '' @ config_file l) (Sentinel ErrInvalidConfig))"
    using assms(2,3) by (simp add: load_from_file_def)
  ultimately show ?thesis using assms(1) unfolding load_def Let_def by simp
qed

theorem load_invalid_file_witness:
  "\<exists>e. load (\<lambda>data c. None) [([''c.yaml''], Reg ''{'' 0)] (\<lambda>v. '''') \<lparr> config_file = ''/c.yaml'' \<rparr> [] = Inl e
     \<and> err_is e ErrInvalidConfig"
proof (rule load_invalid_file [of _ _ "''{''"])
  show "fs_read_file [([''c.yaml''], Reg ''{'' 0)] (config_file \<lparr> config_file = ''/c.yaml'' \<rparr>) = Inr ''{''"
    by (simp add: fs_eval)
qed simp_all

end
