(* ===== verification/Topology.thy ===== *)
theory Topology imports Errors begin

text \<open>
  The NPU-to-RSD resolver of \<open>internal/topology\<close> and the part of the vendored \<open>go-rbln-ml\<close>
  wrapper it calls. The C library behind the wrapper is a record of functions that return a status
  code with their out-parameter; the wrapper turns the code into an error, the loader walks the
  devices, and \<open>LoadOrFallback\<close> classifies the outcome. The clock's reading is an argument.
\<close>

subsection \<open>The C library and its wrapper\<close>

datatype return_code =
    Success | ErrorUninitialized | ErrorInvalidArg | ErrorNoPermission | ErrorNotFound
  | ErrorIoctlFailed | ErrorUnknown | OtherCode "32 word"

definition return_code :: "32 word \<Rightarrow> return_code" where
  "return_code w =
     (if w = 0 then Success else if w = 1 then ErrorUninitialized else if w = 2 then ErrorInvalidArg
      else if w = 3 then ErrorNoPermission else if w = 4 then ErrorNotFound
      else if w = 5 then ErrorIoctlFailed else if w = 999 then ErrorUnknown else OtherCode w)"

fun return_code_string :: "return_code \<Rightarrow> string" where
  "return_code_string Success = ''RBLNML_SUCCESS''"
| "return_code_string ErrorUninitialized = ''RBLNML_ERROR_UNINITIALIZED''"
| "return_code_string ErrorInvalidArg = ''RBLNML_ERROR_INVALID_ARGUMENT''"
| "return_code_string ErrorNoPermission = ''RBLNML_ERROR_NO_PERMISSION''"
| "return_code_string ErrorNotFound = ''RBLNML_ERROR_NOT_FOUND''"
| "return_code_string ErrorIoctlFailed = ''RBLNML_ERROR_IOCTL_FAILED''"
| "return_code_string ErrorUnknown = ''RBLNML_ERROR_UNKNOWN''"
| "return_code_string (OtherCode w) = ''RBLNML_ERROR_UNKNOWN('' @ show_nat (unat w) @ '')''"

definition to_error :: "return_code \<Rightarrow> gerr option" where
  "to_error rc = (if rc = Success then None else Some (Msg (''rblnml error: '' @ return_code_string rc)))"

record device_info =
  uuid :: string
  bus_id :: string
  serial_id :: "64 word"
  board_info :: "32 word"
  device_id :: "32 word"
  group_id :: "32 word"
  numa_node :: "32 word"

record rblnml_lib =
  c_init :: "32 word"
  c_device_get_count :: "32 word \<times> 32 word"
  c_device_get_handle :: "32 word \<Rightarrow> 32 word \<times> 64 word"
  c_get_device_info :: "64 word \<Rightarrow> 32 word \<times> device_info"

definition rblnml_new :: "rblnml_lib \<Rightarrow> gerr option" where
  "rblnml_new api = to_error (return_code (c_init api))"

definition device_get_count :: "rblnml_lib \<Rightarrow> 32 word \<times> gerr option" where
  "device_get_count api = (case c_device_get_count api of (rc, n) \<Rightarrow> (n, to_error (return_code rc)))"

definition device_get_handle_by_index :: "rblnml_lib \<Rightarrow> 32 word \<Rightarrow> 64 word \<times> gerr option" where
  "device_get_handle_by_index api i =
     (case c_device_get_handle api i of (rc, h) \<Rightarrow> (h, to_error (return_code rc)))"

definition get_device_info :: "rblnml_lib \<Rightarrow> 64 word \<Rightarrow> gerr + device_info" where
  "get_device_info api h = (case c_get_device_info api h of (rc, info) \<Rightarrow>
     (case to_error (return_code rc) of Some e \<Rightarrow> Inl e | None \<Rightarrow> Inr info))"

subsection \<open>Resolvers\<close>

datatype resolver = NoopResolver | CachedResolver "(32 word \<times> 32 word) list"

fun resolve_rsd :: "resolver \<Rightarrow> 32 word \<Rightarrow> 32 word option" where
  "resolve_rsd NoopResolver _ = None"
| "resolve_rsd (CachedResolver m) npu = map_of m npu"

definition new_cached_resolver :: "(32 word \<times> 32 word) list \<Rightarrow> resolver" where
  "new_cached_resolver m = (if m = [] then NoopResolver else CachedResolver m)"

fun count_mappings :: "resolver \<Rightarrow> nat" where
  "count_mappings (CachedResolver m) = length m"
| "count_mappings NoopResolver = 0"

subsection \<open>The loader\<close>

datatype load_err = PlainErr gerr | LoadError nat "gerr list"

text \<open>One device of the walk: an entry of the map, or an error that does not stop the walk.\<close>

definition walk_device ::
  "rblnml_lib \<Rightarrow> (32 word \<times> 32 word) list \<times> gerr list \<Rightarrow> 32 word \<Rightarrow> (32 word \<times> 32 word) list \<times> gerr list" where
  "walk_device api acc i = (case acc of (m, errs) \<Rightarrow>
     (case device_get_handle_by_index api i of
        (h, Some e) \<Rightarrow> (m, errs @ [WrapW (''DeviceGetHandleByIndex('' @ show_nat (unat i) @ '')'') e])
      | (h, None) \<Rightarrow> (case get_device_info api h of
            Inl e \<Rightarrow> (m, errs @ [WrapW (''GetDeviceInfo('' @ show_nat (unat i) @ '')'') e])
          | Inr info \<Rightarrow> (AList.update i (group_id info) m, errs))))"

definition device_range :: "32 word \<Rightarrow> 32 word list" where
  "device_range n = map word_of_nat [0..<unat n]"

definition load_rblnml_resolver :: "rblnml_lib \<Rightarrow> resolver option \<times> load_err option" where
  "load_rblnml_resolver api =
     (case rblnml_new api of
        Some e \<Rightarrow> (None, Some (PlainErr (WrapW ''rblnmlInit'' e)))
      | None \<Rightarrow> (case device_get_count api of
          (_, Some e) \<Rightarrow> (None, Some (PlainErr (WrapW ''rblnmlDeviceGetCount'' e)))
        | (n, None) \<Rightarrow> (case foldl (walk_device api) ([], []) (device_range n) of
            (m, errs) \<Rightarrow> (Some (new_cached_resolver m),
               if errs \<noteq> [] then Some (LoadError (length errs) errs) else None))))"

text \<open>The build without the \<open>with_rblnml\<close> tag.\<close>

definition load_rblnml_resolver_stub :: "resolver option \<times> load_err option" where
  "load_rblnml_resolver_stub = (None, Some (PlainErr
     (Msg ''rblnml resolver unavailable: rebuild with -tags with_rblnml and librbln-ml installed'')))"

record load_stats =
  mapped_npus :: nat
  failed_npus :: nat
  duration :: nat
  fallback :: bool

definition load_stats_string :: "(nat \<Rightarrow> string) \<Rightarrow> load_stats \<Rightarrow> string" where
  "load_stats_string show_duration s =
     (if fallback s
      then ''RSD topology: fallback to no-op resolver (took '' @ show_duration (duration s) @ '')''
      else ''RSD topology: '' @ show_nat (mapped_npus s) @ '' NPU(s) mapped, '' @ show_nat (failed_npus s)
           @ '' failed (took '' @ show_duration (duration s) @ '')'')"

datatype topo_warning = PartialMapping load_err | NoMapping load_err

definition load_or_fallback_with_stats ::
  "nat \<Rightarrow> resolver option \<times> load_err option \<Rightarrow> resolver \<times> load_stats \<times> topo_warning list" where
  "load_or_fallback_with_stats elapsed res =
     (let st = \<lparr> mapped_npus = 0, failed_npus = 0, duration = elapsed, fallback = False \<rparr>
      in case res of
           (Some r, None) \<Rightarrow> (r, st\<lparr>mapped_npus := count_mappings r\<rparr>, [])
         | (None, None) \<Rightarrow> (NoopResolver, st, [])
         | (Some r, Some e) \<Rightarrow>
             (r, st\<lparr>mapped_npus := count_mappings r,
                    failed_npus := (case e of LoadError n _ \<Rightarrow> n | PlainErr _ \<Rightarrow> 0)\<rparr>, [PartialMapping e])
         | (None, Some e) \<Rightarrow> (NoopResolver, st\<lparr>fallback := True\<rparr>, [NoMapping e]))"

definition load_or_fallback :: "resolver option \<times> load_err option \<Rightarrow> resolver \<times> topo_warning list" where
  "load_or_fallback res = (case load_or_fallback_with_stats 0 res of (r, _, ws) \<Rightarrow> (r, ws))"

subsection \<open>The interface of a resolver\<close>

text \<open>
  What a client of \<open>RsdResolver\<close> relies on: a resolver built from a snapshot answers from the
  snapshot and from nothing else. The walk's map has distinct keys, so the order does not matter.
\<close>

locale snapshot_resolver =
  fixes resolve :: "'r \<Rightarrow> 32 word \<Rightarrow> 32 word option"
    and snapshot :: "(32 word \<times> 32 word) list \<Rightarrow> 'r"
  assumes resolve_snapshot: "resolve (snapshot m) npu = map_of m npu"
begin

lemma resolve_update:
  "resolve (snapshot (AList.update k v m)) npu = (if npu = k then Some v else resolve (snapshot m) npu)"
  by (simp add: resolve_snapshot AList.update_conv')

lemma resolve_empty: "resolve (snapshot []) npu = None"
  by (simp add: resolve_snapshot)

end

interpretation topo: snapshot_resolver resolve_rsd new_cached_resolver
  by unfold_locales (simp add: new_cached_resolver_def)

subsection \<open>What the loader builds\<close>

definition device_group :: "rblnml_lib \<Rightarrow> 32 word \<Rightarrow> 32 word option" where
  "device_group api i =
     (case device_get_handle_by_index api i of (h, Some e) \<Rightarrow> None
      | (h, None) \<Rightarrow> (case get_device_info api h of Inl e \<Rightarrow> None | Inr info \<Rightarrow> Some (group_id info)))"

lemma walk_device_alt:
  "walk_device api (m, errs) i = (case device_group api i of
      Some g \<Rightarrow> (AList.update i g m, errs) | None \<Rightarrow> (m, errs @ [snd (walk_device api (m, []) i) ! 0]))"
  by (auto simp: walk_device_def device_group_def split: prod.split option.split sum.split)

lemma walk_devices_lookup:
  "distinct is \<Longrightarrow> map_of (fst (foldl (walk_device api) (m, errs) is)) k =
     (if k \<in> set is then (case device_group api k of Some g \<Rightarrow> Some g | None \<Rightarrow> map_of m k) else map_of m k)"
proof (induction "is" arbitrary: m errs)
  case (Cons i rest)
  show ?case
  proof (cases "device_group api i")
    case None
    then show ?thesis using Cons by (auto simp: walk_device_alt [of api m errs i])
  next
    case (Some g)
    then show ?thesis using Cons
      by (auto simp: walk_device_alt [of api m errs i] AList.update_conv' split: option.splits)
  qed
qed simp

lemma walk_devices_errs:
  "snd (foldl (walk_device api) (m, errs) is) = [] \<longleftrightarrow>
     errs = [] \<and> (\<forall>i \<in> set is. device_group api i \<noteq> None)"
proof (induction "is" arbitrary: m errs)
  case (Cons i rest)
  then show ?case
    by (cases "device_group api i") (simp_all add: walk_device_alt [of api m errs i])
qed simp

lemma alist_update_new: "k \<notin> fst ` set m \<Longrightarrow> AList.update k v m = m @ [(k, v)]"
  by (induction m) auto

lemma walk_devices_count:
  "distinct (map fst m) \<Longrightarrow> distinct is \<Longrightarrow> fst ` set m \<inter> set is = {} \<Longrightarrow>
   length (fst (foldl (walk_device api) (m, errs) is)) + length (snd (foldl (walk_device api) (m, errs) is))
     = length m + length errs + length is"
proof (induction "is" arbitrary: m errs)
  case (Cons i rest)
  show ?case
  proof (cases "device_group api i")
    case None
    then show ?thesis using Cons by (simp add: walk_device_alt [of api m errs i])
  next
    case (Some g)
    have "i \<notin> fst ` set m" using Cons.prems by auto
    then have u: "AList.update i g m = m @ [(i, g)]" by (rule alist_update_new)
    have "distinct (map fst (m @ [(i, g)]))" "fst ` set (m @ [(i, g)]) \<inter> set rest = {}"
      using Cons.prems \<open>i \<notin> fst ` set m\<close> by auto
    from Cons.IH [OF this(1) _ this(2), of errs] show ?thesis
      using Cons.prems by (simp add: walk_device_alt [of api m errs i] Some u)
  qed
qed simp

lemma set_device_range [simp]: "i \<in> set (device_range n) \<longleftrightarrow> i < n"
proof
  assume "i \<in> set (device_range n)"
  then obtain j where "j < unat n" "i = word_of_nat j" by (auto simp: device_range_def)
  then show "i < n" by (simp add: word_less_nat_alt unat_of_nat) 
next
  assume "i < n"
  then have "unat i < unat n" "i = word_of_nat (unat i)" by (simp_all add: word_less_nat_alt)
  then show "i \<in> set (device_range n)" by (force simp: device_range_def)
qed

lemma distinct_device_range [simp]: "distinct (device_range n)"
proof -
  have lt: "unat n < 4294967296" using unsigned_less [of n] by simp
  have "unat (word_of_nat j :: 32 word) = j" if "j < unat n" for j
    using that lt by (simp add: unat_of_nat)
  then have "inj_on (word_of_nat :: nat \<Rightarrow> 32 word) {0..<unat n}"
    by (intro inj_on_inverseI [where g = unat]) simp
  then show ?thesis by (simp add: device_range_def distinct_map)
qed

lemma length_device_range [simp]: "length (device_range n) = unat n"
  by (simp add: device_range_def)

text \<open>
  C16: A walk that reaches the device loop maps exactly the NPUs whose handle and information could
  be read, to the group the driver reported; the statistics count every device once, as mapped or
  as failed, and the no-operation fallback is not taken. Errors of single devices never cost the
  others their mapping.
\<close>

theorem load_resolver_mapping:
  assumes "rblnml_new api = None" and "device_get_count api = (n, None)"
  shows "case load_or_fallback_with_stats t (load_rblnml_resolver api) of (r, stats, warnings) \<Rightarrow>
      (\<forall>npu. resolve_rsd r npu = (if npu < n then device_group api npu else None))
    \<and> mapped_npus stats + failed_npus stats = unat n \<and> \<not> fallback stats \<and> length warnings \<le> 1
    \<and> (warnings = [] \<longleftrightarrow> (\<forall>npu < n. device_group api npu \<noteq> None))"
proof -
  obtain m errs where w: "foldl (walk_device api) ([], []) (device_range n) = (m, errs)"
    by (cases "foldl (walk_device api) ([], []) (device_range n)")
  have look: "map_of m npu = (if npu < n then device_group api npu else None)" for npu
    using walk_devices_lookup [of "device_range n" api "[]" "[]" npu] w
    by (simp split: option.splits)
  have cnt: "length m + length errs = unat n"
    using walk_devices_count [of "[]" "device_range n" api "[]"] w by simp
  have errs: "errs = [] \<longleftrightarrow> (\<forall>npu < n. device_group api npu \<noteq> None)"
    using walk_devices_errs [of api "[]" "[]" "device_range n"] w by (simp add: Ball_def)
  have load: "load_rblnml_resolver api =
      (Some (new_cached_resolver m), if errs \<noteq> [] then Some (LoadError (length errs) errs) else None)"
    using assms w by (simp add: load_rblnml_resolver_def)
  have "count_mappings (new_cached_resolver m) = length m"
    by (simp add: new_cached_resolver_def)
  then show ?thesis
    using look cnt errs by (cases "errs = []") (simp_all add: load load_or_fallback_with_stats_def topo.resolve_snapshot)
qed

theorem load_resolver_mapping_witness:
  "resolve_rsd (fst (load_or_fallback_with_stats 7 (load_rblnml_resolver
      \<lparr> c_init = 0, c_device_get_count = (0, 3), c_device_get_handle = (\<lambda>i. (if i = 1 then 4 else 0, ucast i)),
        c_get_device_info = (\<lambda>h. (0, \<lparr> uuid = '''', bus_id = '''', serial_id = 0, board_info = 0, device_id = 0,
                                       group_id = ucast h + 5, numa_node = 0 \<rparr>)) \<rparr>))) 2 = Some 7"
proof -
  let ?api = "\<lparr> c_init = 0, c_device_get_count = (0, 3),
        c_device_get_handle = (\<lambda>i. (if i = 1 then 4 else 0, ucast i)),
        c_get_device_info = (\<lambda>h. (0, \<lparr> uuid = '''', bus_id = '''', serial_id = 0, board_info = 0, device_id = 0,
                                       group_id = ucast h + 5, numa_node = 0 \<rparr>)) \<rparr>"
  have "rblnml_new ?api = None" "device_get_count ?api = (3, None)"
    by (simp_all add: rblnml_new_def device_get_count_def return_code_def to_error_def)
  from load_resolver_mapping [OF this, where t = 7]
  have "resolve_rsd (fst (load_or_fallback_with_stats 7 (load_rblnml_resolver ?api))) 2 = device_group ?api 2"
    by (simp split: prod.splits)
  then show ?thesis
    by (simp add: device_group_def device_get_handle_by_index_def get_device_info_def return_code_def to_error_def)
qed

text \<open>Every outcome of the loader is answered with a resolver; a failed load maps nothing.\<close>

lemma load_or_fallback_failed:
  "load_or_fallback_with_stats t (None, Some e) =
     (NoopResolver, \<lparr> mapped_npus = 0, failed_npus = 0, duration = t, fallback = True \<rparr>, [NoMapping e])"
  by (simp add: load_or_fallback_with_stats_def)

end
