(* ===== verification/Discover.thy ===== *)
theory Discover imports Config begin

text \<open>
  The building blocks of \<open>internal/discover\<close>: the records of \<open>types.go\<close>, the operating-system
  detection of \<open>paths.go\<close>, the output parser of \<open>ldd.go\<close>, the library caches of \<open>ldcache.go\<close>,
  the link helpers of \<open>soname.go\<close> and \<open>symlink.go\<close>, and the device and tool discoverers. The file
  system is an argument; the ELF reader is a parameter where it is used.
\<close>

subsection \<open>Types\<close>

datatype library_type = LibraryTypeRBLN | LibraryTypeDependency | LibraryTypePlugin

fun library_type_string :: "library_type \<Rightarrow> string" where
  "library_type_string LibraryTypeRBLN = ''rbln''"
| "library_type_string LibraryTypeDependency = ''dependency''"
| "library_type_string LibraryTypePlugin = ''plugin''"

record library =
  lib_name :: string
  lib_path :: string
  lib_container :: string
  lib_real :: string
  lib_type :: library_type

record tool =
  tool_name :: string
  tool_path :: string
  tool_container :: string

record rdma_provider =
  rp_name :: string
  rp_path :: string
  rp_container :: string
  rp_driver :: string

record device =
  dev_path :: string
  dev_container :: string

record discovery_result =
  dr_libraries :: "library list"
  dr_rdma :: "rdma_provider list"
  dr_tools :: "tool list"
  dr_devices :: "device list"

subsection \<open>Operating system\<close>

datatype os_type = OSUbuntu | OSRHEL | OSCoreOS | OSUnknown

definition is_debian :: "os_type \<Rightarrow> bool" where
  "is_debian t = (t = OSUbuntu)"

definition is_rhel :: "os_type \<Rightarrow> bool" where
  "is_rhel t \<longleftrightarrow> t = OSRHEL \<or> t = OSCoreOS"

definition quote_char :: char where "quote_char = CHR 0x22"

text \<open>One line of \<open>os-release\<close>: a key and its value without the quotes around it.\<close>

definition os_release_entry :: "string \<Rightarrow> (string \<times> string) option" where
  "os_release_entry raw =
     (let line = trim_space raw
      in if line = [] \<or> has_prefix line ''#'' then None
         else case split_n2 line ''='' of
                [k, v] \<Rightarrow> Some (trim_space k, trim_chars (\<lambda>c. c = quote_char) (trim_space v))
              | _ \<Rightarrow> None)"

definition os_release_map :: "string \<Rightarrow> string \<Rightarrow> string" where
  "os_release_map content =
     foldl (\<lambda>m l. case os_release_entry l of None \<Rightarrow> m | Some (k, v) \<Rightarrow> m(k := v)) (\<lambda>_. [])
       (split_char newline content)"

definition parse_os_release :: "string \<Rightarrow> os_type" where
  "parse_os_release content =
     (let m = os_release_map content; id = to_lower (m ''ID''); like = to_lower (m ''ID_LIKE'')
      in if id = ''ubuntu'' then OSUbuntu
         else if id = ''rhel'' then OSRHEL
         else if id = ''rhcos'' \<or> str_contains (to_lower (m ''NAME'')) ''coreos'' then OSCoreOS
         else if str_contains like ''debian'' \<or> str_contains like ''ubuntu'' then OSUbuntu
         else if str_contains like ''rhel'' \<or> str_contains like ''fedora'' \<or> str_contains like ''centos'' then OSRHEL
         else OSUnknown)"

definition detect_os :: "fs \<Rightarrow> os_type" where
  "detect_os fs = (case fs_read_file fs ''/etc/os-release'' of Inl _ \<Rightarrow> OSUnknown | Inr s \<Rightarrow> parse_os_release s)"

definition library_path_for_arch :: "os_type \<Rightarrow> string \<Rightarrow> string" where
  "library_path_for_arch t arch =
     (if is_debian t
      then if arch = ''amd64'' then ''/usr/lib/x86_64-linux-gnu''
           else if arch = ''arm64'' then ''/usr/lib/aarch64-linux-gnu''
           else if arch = ''386'' then ''/usr/lib/i386-linux-gnu'' else ''/usr/lib''
      else if arch = ''amd64'' \<or> arch = ''arm64'' then ''/usr/lib64'' else ''/usr/lib'')"

definition default_library_paths :: "string \<Rightarrow> os_type \<Rightarrow> string list" where
  "default_library_paths arch t =
     (if is_debian t then [library_path_for_arch t arch, ''/usr/local/lib'', ''/usr/lib'']
      else [''/usr/lib64'', ''/usr/local/lib64'', ''/usr/lib'', ''/usr/local/lib''])"

definition default_binary_paths :: "os_type \<Rightarrow> string list" where
  "default_binary_paths t = [''/usr/bin'', ''/usr/local/bin'', ''/usr/sbin'', ''/usr/local/sbin'']"

definition default_plugin_paths :: "string \<Rightarrow> os_type \<Rightarrow> string list" where
  "default_plugin_paths arch t =
     (if is_debian t then [library_path_for_arch t arch @ ''/libibverbs''] else [''/usr/lib64/libibverbs''])"

definition is_selinux_enabled :: "fs \<Rightarrow> bool" where
  "is_selinux_enabled fs =
     (case fs_stat fs ''/sys/fs/selinux'' of Inl _ \<Rightarrow> False
      | Inr _ \<Rightarrow> (case fs_read_file fs ''/sys/fs/selinux/enforce'' of
            Inl _ \<Rightarrow> False | Inr s \<Rightarrow> trim_space s = ''1''))"

definition is_selinux_enabled_by_default :: "os_type \<Rightarrow> bool" where
  "is_selinux_enabled_by_default t = is_rhel t"

subsection \<open>The output of ldd\<close>

text \<open>Text up to the address in parentheses.\<close>

definition before_paren :: "string \<Rightarrow> string" where
  "before_paren s = (case str_index s ''('' of None \<Rightarrow> s | Some i \<Rightarrow> trim_space (take i s))"

definition extract_library_path :: "string \<Rightarrow> string" where
  "extract_library_path line =
     (if str_contains line ''=>''
      then (case split_on line ''=>'' of
              [l, r] \<Rightarrow> (let right = trim_space r
                        in if str_contains right ''not found'' then []
                           else let p = before_paren right in if has_prefix p ''/'' then p else [])
            | _ \<Rightarrow> [])
      else if has_prefix line ''/'' then before_paren line else [])"

text \<open>
  The scanner splits at newlines and stops at the first line that does not fit its 64 KiB buffer.
\<close>

definition scan_lines :: "string \<Rightarrow> string list" where
  "scan_lines s = takeWhile (\<lambda>l. length l < 65536) (split_char newline s)"

definition parse_ldd_output :: "string \<Rightarrow> string list" where
  "parse_ldd_output output =
     dedup_by (\<lambda>p. p) [] (filter (\<lambda>p. p \<noteq> []) (map (\<lambda>l. extract_library_path (trim_space l)) (scan_lines output)))"

text \<open>\<open>lddRunner.Run\<close>: the process is a parameter, its output is parsed.\<close>

definition ldd_run :: "(string \<Rightarrow> gerr + string) \<Rightarrow> string \<Rightarrow> gerr + string list" where
  "ldd_run exec_ldd path = map_sum id parse_ldd_output (exec_ldd path)"

subsection \<open>Sonames and links\<close>

function get_so_link :: "string \<Rightarrow> string" where
  "get_so_link soname =
     (let ext = path_ext soname
      in if ext = [] then [] else if ext = ''.so'' then soname else get_so_link (trim_suffix soname ext))"
  by pat_completeness auto

lemma path_ext_decomp:
  assumes "path_ext p \<noteq> []"
  shows "\<exists>q e. p = q @ path_ext p \<and> path_ext p = CHR ''.'' # e \<and> CHR ''.'' \<notin> set e"
proof -
  define b where "b = snd (split_last p)"
  have p: "p = fst (split_last p) @ b" by (simp add: b_def split_last_append)
  have "CHR ''.'' \<in> set b" using assms by (simp add: path_ext_def b_def Let_def split: if_splits)
  then obtain u v where b: "b = u @ CHR ''.'' # v" and v: "CHR ''.'' \<notin> set v"
    by (metis split_list_last)
  have "path_ext p = CHR ''.'' # rev (takeWhile (\<lambda>c. c \<noteq> CHR ''.'') (rev v @ CHR ''.'' # rev u))"
    using \<open>CHR ''.'' \<in> set b\<close> by (simp add: path_ext_def b_def [symmetric] b)
  also have "takeWhile (\<lambda>c. c \<noteq> CHR ''.'') (rev v @ CHR ''.'' # rev u) = rev v"
    using v by (subst takeWhile_append2) auto
  finally have e: "path_ext p = CHR ''.'' # v" by simp
  show ?thesis
    using e v p b by (intro exI [of _ "fst (split_last p) @ u"] exI [of _ v]) simp
qed

termination get_so_link
proof (relation "measure length")
  fix soname ext assume "ext = path_ext soname" "ext \<noteq> []"
  then obtain q where "soname = q @ ext" using path_ext_decomp [of soname] by auto
  then have "trim_suffix soname ext = q" by simp
  then show "(trim_suffix soname ext, soname) \<in> measure length"
    using \<open>soname = q @ ext\<close> \<open>ext \<noteq> []\<close> by simp
qed simp

declare get_so_link.simps [simp del]

text \<open>
  \<open>GetSoLink\<close> strips version suffixes and nothing else: it terminates, its result is a prefix
  of the soname that ends in \<open>.so\<close>, and what was cut off starts with a dot.
\<close>

theorem get_so_link_prefix:
  "get_so_link s = [] \<or> (has_suffix (get_so_link s) ''.so'' \<and>
     (\<exists>rest. s = get_so_link s @ rest \<and> (rest = [] \<or> hd rest = CHR ''.'')))"
proof (induction s rule: get_so_link.induct)
  case (1 s)
  show ?case
  proof (cases "path_ext s = [] \<or> path_ext s = ''.so''")
    case True
    then show ?thesis
      using path_ext_decomp [of s] by (auto simp: get_so_link.simps [of s] Let_def) 
  next
    case False
    then obtain q e where q: "s = q @ path_ext s" "path_ext s = CHR ''.'' # e"
      using path_ext_decomp [of s] by auto
    then have "trim_suffix s (path_ext s) = q" by (metis trim_suffix_append)
    with 1 [OF refl] False have IH: "get_so_link q = [] \<or> (has_suffix (get_so_link q) ''.so'' \<and>
        (\<exists>rest. q = get_so_link q @ rest \<and> (rest = [] \<or> hd rest = CHR ''.'')))" by simp
    have eq: "get_so_link s = get_so_link q"
      using False \<open>trim_suffix s (path_ext s) = q\<close> by (subst get_so_link.simps) simp
    show ?thesis
    proof (cases "get_so_link q = []")
      case True
      then show ?thesis by (simp add: eq)
    next
      case False
      with IH obtain r where r: "has_suffix (get_so_link q) ''.so''" "q = get_so_link q @ r"
        "r = [] \<or> hd r = CHR ''.''" by auto
      have "s = get_so_link q @ (r @ path_ext s)" using q(1) r(2) by (metis append.assoc)
      moreover have "hd (r @ path_ext s) = CHR ''.''" using r(3) q(2) by (cases r) auto
      ultimately show ?thesis using r(1) unfolding eq by blast
    qed
  qed
qed

text \<open>A versioned soname is stripped down to its \<open>.so\<close>.\<close>

definition version_part :: "string \<Rightarrow> bool" where
  "version_part v \<longleftrightarrow> v \<noteq> ''so'' \<and> CHR ''.'' \<notin> set v \<and> CHR ''/'' \<notin> set v"

lemma path_ext_append:
  assumes "CHR ''.'' \<notin> set v" "CHR ''/'' \<notin> set v"
  shows "path_ext (p @ CHR ''.'' # v) = CHR ''.'' # v"
proof -
  have t: "takeWhile (\<lambda>c. c \<noteq> CHR ''/'') (rev v @ CHR ''.'' # rev p) = rev v @ CHR ''.'' # takeWhile (\<lambda>c. c \<noteq> CHR ''/'') (rev p)"
    using assms(2) by (subst takeWhile_append2) auto
  have "takeWhile (\<lambda>c. c \<noteq> CHR ''.'') (rev v @ CHR ''.'' # x) = rev v" for x
    using assms(1) by (subst takeWhile_append2) auto
  then show ?thesis by (simp add: path_ext_def split_last_def t)
qed

lemma get_so_link_step:
  assumes "version_part v"
  shows "get_so_link (p @ CHR ''.'' # v) = get_so_link p"
  using assms path_ext_append [of v p]
  by (subst get_so_link.simps) (simp add: version_part_def)

lemma get_so_link_versions:
  assumes "list_all version_part vs"
  shows "get_so_link (p @ ''.so'' @ concat (map (\<lambda>v. CHR ''.'' # v) vs)) = p @ ''.so''"
  using assms
proof (induction vs rule: rev_induct)
  case Nil
  have "path_ext (p @ ''.so'') = ''.so''" using path_ext_append [of "''so''" p] by simp
  then show ?case by (simp add: get_so_link.simps)
next
  case (snoc v vs)
  then show ?case
    using get_so_link_step [of v "p @ ''.so'' @ concat (map (\<lambda>v. CHR ''.'' # v) vs)"] by simp
qed

definition link_exists :: "fs \<Rightarrow> string \<Rightarrow> errno + bool" where
  "link_exists fs p = (case fs_lstat fs p of
      Inl e \<Rightarrow> if is_not_exist e then Inr False else Inl e
    | Inr n \<Rightarrow> Inr (is_sym_node n))"

text \<open>\<open>ReadSONAME\<close>: \<open>dyn_soname\<close> is the ELF reader, the \<open>DT_SONAME\<close> entries or \<open>None\<close>.\<close>

definition read_soname :: "(string \<Rightarrow> string list option) \<Rightarrow> string \<Rightarrow> string option" where
  "read_soname dyn_soname path = (case dyn_soname path of
      None \<Rightarrow> None | Some [] \<Rightarrow> Some (path_base path) | Some (s # _) \<Rightarrow> Some s)"

subsection \<open>Library caches\<close>

record ldcache_entry =
  le_name :: string
  le_path :: string
  le_is64 :: bool

definition new_ld_cache :: "fs \<Rightarrow> string \<Rightarrow> gerr + ldcache_entry list" where
  "new_ld_cache fs root = (case fs_stat fs root of
      Inl e \<Rightarrow> if is_not_exist e
               then Inl (WrapW (''root path does not exist: '' @ root) (Sentinel ErrLdcacheParseFailed)) else Inr []
    | Inr _ \<Rightarrow> Inr [])"

definition ld_cache_list :: "ldcache_entry list \<Rightarrow> string list \<times> string list" where
  "ld_cache_list es = (map le_path (filter (\<lambda>e. \<not> le_is64 e) es), map le_path (filter le_is64 es))"

definition ld_cache_lookup :: "ldcache_entry list \<Rightarrow> string \<Rightarrow> string list" where
  "ld_cache_lookup es pattern =
     map le_path (filter (\<lambda>e. le_is64 e \<and> path_match pattern (le_name e) = Some True) es)"

definition is_so_name :: "string \<Rightarrow> bool" where
  "is_so_name n \<longleftrightarrow> has_suffix n ''.so'' \<or> str_contains n ''.so.''"

definition fallback_scan :: "fs \<Rightarrow> string \<Rightarrow> string list \<Rightarrow> ldcache_entry list" where
  "fallback_scan fs root paths = concat (map (\<lambda>sp.
     (let full = path_join [root, sp]
      in case fs_read_dir fs full of
           Inl _ \<Rightarrow> []
         | Inr es \<Rightarrow> map (\<lambda>(n, d). \<lparr> le_name = n, le_path = path_join [full, n], le_is64 = True \<rparr>)
                       (filter (\<lambda>(n, d). \<not> d \<and> is_so_name n) es))) paths)"

definition fallback_list :: "ldcache_entry list \<Rightarrow> string list \<times> string list" where
  "fallback_list es = ([], map le_path es)"

definition fallback_lookup :: "ldcache_entry list \<Rightarrow> string \<Rightarrow> string list" where
  "fallback_lookup es pattern =
     dedup_by (\<lambda>p. p) [] (map le_path (filter (\<lambda>e. path_match pattern (le_name e) = Some True) es))"

subsection \<open>Moving a path from one root to another\<close>

text \<open>The step every discoverer repeats: cut the root off and make sure a slash is in front.\<close>

definition strip_root :: "string \<Rightarrow> string \<Rightarrow> string" where
  "strip_root root path =
     (let s = trim_prefix path root in if has_prefix s ''/'' then s else ''/'' @ s)"

lemma strip_root_slash [simp]: "strip_root root (root @ CHR ''/'' # p) = CHR ''/'' # p"
  by (simp add: strip_root_def)

lemma strip_root_path_of:
  assumes "rs \<noteq> []"
  shows "strip_root (path_of True rs) (path_of True (rs @ qs)) = path_of True qs"
proof (cases "qs = []")
  case True
  then show ?thesis
    using trim_prefix_append [of "path_of True rs" "[]"] by (simp add: strip_root_def path_of_def)
next
  case False
  then have "path_of True (rs @ qs) = path_of True rs @ path_of True qs" using assms by (rule path_of_append [rotated])
  moreover have "has_prefix (path_of True qs) ''/''" by (simp add: path_of_def)
  ultimately show ?thesis by (simp add: strip_root_def)
qed

lemma strip_root_abs: "has_prefix (strip_root root path) ''/''"
  by (simp add: strip_root_def Let_def)

subsection \<open>Device nodes\<close>

definition dev_search_root :: "config \<Rightarrow> string" where
  "dev_search_root cfg = (if host_root cfg = [] then ''/'' else host_root cfg)"

definition dev_to_container_path :: "string \<Rightarrow> string" where
  "dev_to_container_path host_path = host_path"

definition dev_to_host_path :: "string \<Rightarrow> string \<Rightarrow> string" where
  "dev_to_host_path path root = (if root = [] \<or> root = ''/'' then path else strip_root root path)"

definition not_dir :: "fs \<Rightarrow> string \<Rightarrow> bool" where
  "not_dir fs p = (case fs_lstat fs p of Inl _ \<Rightarrow> False | Inr n \<Rightarrow> \<not> is_dir_node n)"

fun glob_patterns :: "fs \<Rightarrow> string \<Rightarrow> string list \<Rightarrow> string list option" where
  "glob_patterns fs root [] = Some []"
| "glob_patterns fs root (p # ps) = (case fs_glob fs (path_join [root, p]) of None \<Rightarrow> None
     | Some ms \<Rightarrow> map_option (\<lambda>r. ms @ r) (glob_patterns fs root ps))"

definition device_discover :: "fs \<Rightarrow> config \<Rightarrow> gerr + device list" where
  "device_discover fs cfg =
     (let root = dev_search_root cfg
      in case glob_patterns fs root (dev_patterns (devices cfg)) of
           None \<Rightarrow> Inl (Msg ''syntax error in pattern'')
         | Some ms \<Rightarrow> Inr (sort_key dev_path (map (\<lambda>h. \<lparr> dev_path = h, dev_container = dev_to_container_path h \<rparr>)
             (dedup_by (\<lambda>h. h) [] (map (\<lambda>m. dev_to_host_path m root) (filter (not_dir fs) ms))))))"

lemma glob_patterns_set:
  "glob_patterns fs root ps = Some ms \<Longrightarrow>
     m \<in> set ms \<longleftrightarrow> (\<exists>p \<in> set ps. \<exists>r. fs_glob fs (path_join [root, p]) = Some r \<and> m \<in> set r)"
  by (induction ps arbitrary: ms) (auto split: option.splits)

text \<open>
  C17: Device discovery returns, sorted by path and each once, exactly the host paths of the
  existing entries other than directories that some configured pattern matches below the host
  root; in the container a device sits at its host path.
\<close>

theorem device_discover_exact:
  assumes "device_discover fs cfg = Inr ds"
  shows "sorted (map dev_path ds) \<and> distinct (map dev_path ds)
    \<and> (\<forall>d \<in> set ds. dev_container d = dev_path d)
    \<and> dev_path ` set ds = {dev_to_host_path m (dev_search_root cfg) | m p r.
          p \<in> set (dev_patterns (devices cfg)) \<and> fs_glob fs (path_join [dev_search_root cfg, p]) = Some r
          \<and> m \<in> set r \<and> not_dir fs m}"
proof (intro conjI)
  from assms obtain ms where ms: "glob_patterns fs (dev_search_root cfg) (dev_patterns (devices cfg)) = Some ms"
    by (auto simp: device_discover_def Let_def split: option.splits)
  define hs where "hs = map (\<lambda>m. dev_to_host_path m (dev_search_root cfg)) (filter (not_dir fs) ms)"
  define mk where "mk h = \<lparr> dev_path = h, dev_container = dev_to_container_path h \<rparr>" for h
  have ds: "ds = sort_key dev_path (map mk (dedup_by (\<lambda>h. h) [] hs))"
    using assms ms by (simp add: device_discover_def Let_def hs_def mk_def [abs_def])
  show "sorted (map dev_path ds)" by (simp add: ds)
  have "distinct (map dev_path (map mk (dedup_by (\<lambda>h. h) [] hs)))"
    using dedup_by_distinct [of "\<lambda>h. h" "[]" hs] by (simp add: mk_def o_def)
  then show "distinct (map dev_path ds)" unfolding ds by (metis distinct_map distinct_sort inj_on_def set_sort)
  show "\<forall>d \<in> set ds. dev_container d = dev_path d" by (auto simp: ds mk_def dev_to_container_path_def)
  have "dev_path ` set ds = set (dedup_by (\<lambda>h. h) [] hs)"
    by (auto simp: ds mk_def image_iff)
  also have "\<dots> = set hs" using dedup_by_keys [of "\<lambda>h. h" "[]" hs] by simp
  also have "\<dots> = {dev_to_host_path m (dev_search_root cfg) | m p r.
          p \<in> set (dev_patterns (devices cfg)) \<and> fs_glob fs (path_join [dev_search_root cfg, p]) = Some r
          \<and> m \<in> set r \<and> not_dir fs m}"
    by (auto simp: hs_def glob_patterns_set [OF ms])
  finally show "dev_path ` set ds = {dev_to_host_path m (dev_search_root cfg) | m p r.
          p \<in> set (dev_patterns (devices cfg)) \<and> fs_glob fs (path_join [dev_search_root cfg, p]) = Some r
          \<and> m \<in> set r \<and> not_dir fs m}" .
qed

text \<open>A host with three NPU nodes.\<close>

definition npu_host :: fs where
  "npu_host = [([''dev''], Dir), ([''dev'', ''rbln0''], Chr), ([''dev'', ''rbln10''], Chr), ([''dev'', ''rbln2''], Chr),
     ([''dev'', ''rsd0''], Chr)]"

lemma npu_host_devices:
  "device_discover npu_host default_config = Inr (map (\<lambda>p. \<lparr> dev_path = p, dev_container = p \<rparr>)
     [''/dev/rbln0'', ''/dev/rbln10'', ''/dev/rbln2'', ''/dev/rsd0''])"
  by code_simp

theorem device_discover_exact_witness:
  "\<exists>ds. device_discover npu_host default_config = Inr ds \<and> length ds = 4 \<and> sorted (map dev_path ds)"
  using device_discover_exact [OF npu_host_devices] npu_host_devices by auto

subsection \<open>Tools\<close>

unbundle bit_operations_syntax

text \<open>The permission bits; device nodes are created without execute permission
  (directories are 0755, links 0777, device nodes 0600; the mask below is 0111).\<close>

definition node_mode :: "node \<Rightarrow> nat" where
  "node_mode n = (case n of Reg _ m \<Rightarrow> m | Dir \<Rightarrow> 0x1ED | Sym _ \<Rightarrow> 0x1FF | Chr \<Rightarrow> 0x180)"

definition root_or_driver :: "config \<Rightarrow> string" where
  "root_or_driver cfg = (if search_root cfg \<noteq> [] then search_root cfg else driver_root cfg)"

definition driver_strip :: "config \<Rightarrow> string \<Rightarrow> string" where
  "driver_strip cfg host_path =
     (if driver_root cfg = ''/'' \<or> driver_root cfg = [] then host_path else strip_root (driver_root cfg) host_path)"

definition tool_to_container_path :: "config \<Rightarrow> string \<Rightarrow> string" where
  "tool_to_container_path cfg host_path = driver_strip cfg host_path"

definition tool_to_host_path :: "config \<Rightarrow> string \<Rightarrow> string \<Rightarrow> string" where
  "tool_to_host_path cfg path root =
     (if root = [] \<or> root = ''/'' then path
      else if driver_root cfg \<noteq> [] \<and> driver_root cfg \<noteq> ''/''
           then if has_prefix path (driver_root cfg) then path
                else path_join [driver_root cfg, strip_root root path]
           else strip_root root path)"

definition is_executable :: "fs \<Rightarrow> string \<Rightarrow> bool" where
  "is_executable fs p = (case fs_stat fs p of Inl _ \<Rightarrow> False
     | Inr n \<Rightarrow> \<not> is_dir_node n \<and> node_mode n AND 0x49 \<noteq> 0)"

definition find_tool :: "fs \<Rightarrow> config \<Rightarrow> string \<Rightarrow> tool option" where
  "find_tool fs cfg name =
     (let root = root_or_driver cfg
      in case filter (is_executable fs) (map (\<lambda>b. path_join [root, b, name]) (search_binaries (search_paths cfg))) of
           [] \<Rightarrow> None
         | p # _ \<Rightarrow> (let h = tool_to_host_path cfg p root
                     in Some \<lparr> tool_name = name, tool_path = h, tool_container = tool_to_container_path cfg h \<rparr>))"

fun discover_tools :: "fs \<Rightarrow> config \<Rightarrow> string list \<Rightarrow> string list \<Rightarrow> tool list" where
  "discover_tools fs cfg found [] = []"
| "discover_tools fs cfg found (t # ts) =
     (if t \<in> set found then discover_tools fs cfg found ts
      else case find_tool fs cfg t of
             None \<Rightarrow> discover_tools fs cfg found ts
           | Some x \<Rightarrow> x # discover_tools fs cfg (t # found) ts)"

definition tool_discover :: "fs \<Rightarrow> config \<Rightarrow> tool list" where
  "tool_discover fs cfg = discover_tools fs cfg [] (tools cfg)"

lemma discover_tools_names:
  "distinct (map tool_name (discover_tools fs cfg found ts)) \<and>
   tool_name ` set (discover_tools fs cfg found ts) = {n \<in> set ts - set found. find_tool fs cfg n \<noteq> None} \<and>
   (\<forall>x \<in> set (discover_tools fs cfg found ts). find_tool fs cfg (tool_name x) = Some x)"
proof (induction ts arbitrary: found)
  case (Cons t ts)
  have nm: "tool_name x = n" if "find_tool fs cfg n = Some x" for n x
    using that by (auto simp: find_tool_def Let_def split: list.splits)
  show ?case
  proof (cases "t \<in> set found")
    case True
    then show ?thesis using Cons [of found] by auto
  next
    case False
    show ?thesis
    proof (cases "find_tool fs cfg t")
      case None
      then show ?thesis using Cons [of found] False by auto
    next
      case (Some x)
      then show ?thesis using Cons [of "t # found"] False nm [OF Some] by auto
    qed
  qed
qed simp

text \<open>
  Tool discovery returns each configured tool at most once, exactly those that some binary
  directory has as an executable file, each with the path of the first such directory.
\<close>

theorem tool_discover_exact:
  "distinct (map tool_name (tool_discover fs cfg))
   \<and> tool_name ` set (tool_discover fs cfg) = {n \<in> set (tools cfg). find_tool fs cfg n \<noteq> None}
   \<and> (\<forall>x \<in> set (tool_discover fs cfg). find_tool fs cfg (tool_name x) = Some x)"
  using discover_tools_names [of fs cfg "[]" "tools cfg"] by (simp add: tool_discover_def)

definition tool_host :: fs where
  "tool_host = [([''usr''], Dir), ([''usr'', ''bin''], Dir), ([''usr'', ''bin'', ''rbln-smi''], Reg ''elf'' 0x1ED)]"

lemma tool_host_smi: "find_tool tool_host default_config ''rbln-smi'' = Some
    \<lparr> tool_name = ''rbln-smi'', tool_path = ''/usr/bin/rbln-smi'', tool_container = ''/usr/bin/rbln-smi'' \<rparr>"
  by code_simp

theorem tool_discover_exact_witness: "''rbln-smi'' \<in> tool_name ` set (tool_discover tool_host default_config)"
  using tool_discover_exact [of tool_host default_config] tool_host_smi by (simp add: default_config_def)

lemma filter_Cons_mem: "filter P xs = x # r \<Longrightarrow> x \<in> set xs \<and> P x"
  by (drule arg_cong [where f = set]) auto

lemma find_tool_executable:
  "find_tool fs cfg n = Some x \<Longrightarrow> \<exists>b \<in> set (search_binaries (search_paths cfg)).
     is_executable fs (path_join [root_or_driver cfg, b, n])
     \<and> tool_path x = tool_to_host_path cfg (path_join [root_or_driver cfg, b, n]) (root_or_driver cfg)"
  by (auto simp: find_tool_def Let_def dest!: filter_Cons_mem split: list.splits)

end
