(* ===== verification/Elf_Resolver.thy ===== *)
theory Elf_Resolver imports Discover begin

text \<open>
  The dependency resolver of \<open>internal/discover/elf.go\<close>: a breadth-first search over the
  \<open>DT_NEEDED\<close> entries, with the names resolved in the search paths below the driver root. The
  reader of ELF files (\<open>debug/elf\<close>) is the parameter \<open>read_needed\<close>, \<open>None\<close> where it fails. The
  loop is a \<open>partial_function\<close>, so that a run that does not end is the value \<open>None\<close>; it is proved
  to end, with exactly the reachable libraries.
\<close>

text \<open>\<open>resolveLibrary\<close>: the first search path that has the name; a link is resolved, or skipped.\<close>

fun resolve_library :: "fs \<Rightarrow> string \<Rightarrow> string list \<Rightarrow> string \<Rightarrow> string" where
  "resolve_library fs root [] name = []"
| "resolve_library fs root (sp # sps) name =
     (let candidate = path_join [root, sp, name]
      in case fs_lstat fs candidate of
           Inl _ \<Rightarrow> resolve_library fs root sps name
         | Inr n \<Rightarrow>
             if is_sym_node n
             then (case eval_symlinks fs candidate of
                     Inl _ \<Rightarrow> resolve_library fs root sps name
                   | Inr real \<Rightarrow> (case path_rel root real of
                         None \<Rightarrow> resolve_library fs root sps name
                       | Some rel \<Rightarrow> ''/'' @ rel))
             else path_join [sp, name])"

record elf_state =
  visited :: "string list"
  queue :: "string list"
  found :: "string list"

text \<open>The body of the inner loop: one needed name.\<close>

definition visit_needed :: "(string \<Rightarrow> string) \<Rightarrow> string \<Rightarrow> elf_state \<Rightarrow> string \<Rightarrow> elf_state" where
  "visit_needed res root st name =
     (let r = res name
      in if r = [] then st
         else let p = path_join [root, r]
              in if p \<in> set (visited st) then st
                 else st\<lparr>visited := p # visited st, found := found st @ [r], queue := queue st @ [p]\<rparr>)"

partial_function (option) elf_loop ::
  "(string \<Rightarrow> string list option) \<Rightarrow> (string \<Rightarrow> string) \<Rightarrow> string \<Rightarrow> elf_state \<Rightarrow> string list option" where
  "elf_loop read_needed res root st = (case queue st of
      [] \<Rightarrow> Some (found st)
    | cur # q \<Rightarrow> (case read_needed cur of
          None \<Rightarrow> elf_loop read_needed res root (st\<lparr>queue := q\<rparr>)
        | Some ns \<Rightarrow> elf_loop read_needed res root (foldl (visit_needed res root) (st\<lparr>queue := q\<rparr>) ns)))"

declare elf_loop.simps [code]

definition elf_run ::
  "(string \<Rightarrow> string list option) \<Rightarrow> fs \<Rightarrow> string \<Rightarrow> string list \<Rightarrow> string \<Rightarrow> string list option" where
  "elf_run read_needed fs root paths lib =
     elf_loop read_needed (resolve_library fs root paths) root \<lparr> visited = [lib], queue = [lib], found = [] \<rparr>"

subsection \<open>The search finds the reachable libraries\<close>

text \<open>One edge of the dependency graph, on the paths that are opened.\<close>

definition needs ::
  "(string \<Rightarrow> string list option) \<Rightarrow> (string \<Rightarrow> string) \<Rightarrow> string \<Rightarrow> string \<Rightarrow> string \<Rightarrow> bool" where
  "needs rn res root a b \<longleftrightarrow> (\<exists>ns n. rn a = Some ns \<and> n \<in> set ns \<and> res n \<noteq> [] \<and> b = path_join [root, res n])"

lemma visit_needed_fold:
  "\<exists>new. found (foldl (visit_needed res root) st ns) = found st @ new
    \<and> queue (foldl (visit_needed res root) st ns) = queue st @ map (\<lambda>r. path_join [root, r]) new
    \<and> set (visited (foldl (visit_needed res root) st ns))
        = set (visited st) \<union> (\<lambda>r. path_join [root, r]) ` set new
    \<and> {path_join [root, res n] | n. n \<in> set ns \<and> res n \<noteq> []}
        \<subseteq> set (visited (foldl (visit_needed res root) st ns))
    \<and> distinct (map (\<lambda>r. path_join [root, r]) new)
    \<and> (\<lambda>r. path_join [root, r]) ` set new \<subseteq> {path_join [root, res n] | n. n \<in> set ns \<and> res n \<noteq> []} - set (visited st)"
proof (induction ns rule: rev_induct)
  case Nil
  show ?case by (intro exI [of _ "[]"]) simp
next
  case (snoc n ns)
  let ?f = "\<lambda>r. path_join [root, r]"
  let ?st = "foldl (visit_needed res root) st ns"
  from snoc obtain new where IH: "found ?st = found st @ new" "queue ?st = queue st @ map ?f new"
    "set (visited ?st) = set (visited st) \<union> ?f ` set new"
    "{?f (res n) | n. n \<in> set ns \<and> res n \<noteq> []} \<subseteq> set (visited ?st)" "distinct (map ?f new)"
    "?f ` set new \<subseteq> {?f (res n) | n. n \<in> set ns \<and> res n \<noteq> []} - set (visited st)"
    by blast
  show ?case
  proof (cases "res n = [] \<or> ?f (res n) \<in> set (visited ?st)")
    case True
    then have "visit_needed res root ?st n = ?st" by (auto simp: visit_needed_def Let_def)
    then have st: "foldl (visit_needed res root) st (ns @ [n]) = ?st" by simp
    show ?thesis unfolding st using IH True by (intro exI [of _ new]) auto
  next
    case False
    then have st: "foldl (visit_needed res root) st (ns @ [n]) =
        ?st\<lparr>visited := ?f (res n) # visited ?st, found := found ?st @ [res n], queue := queue ?st @ [?f (res n)]\<rparr>"
      by (simp add: visit_needed_def Let_def)
    show ?thesis unfolding st using IH False by (intro exI [of _ "new @ [res n]"]) auto
  qed
qed

definition elf_inv ::
  "(string \<Rightarrow> string list option) \<Rightarrow> (string \<Rightarrow> string) \<Rightarrow> string \<Rightarrow> string \<Rightarrow> elf_state \<Rightarrow> bool" where
  "elf_inv rn res root lib st \<longleftrightarrow>
     lib \<notin> (\<lambda>r. path_join [root, r]) ` set (found st)
   \<and> set (visited st) = insert lib ((\<lambda>r. path_join [root, r]) ` set (found st))
   \<and> distinct (map (\<lambda>r. path_join [root, r]) (found st))
   \<and> set (queue st) \<subseteq> set (visited st)
   \<and> (\<forall>v \<in> set (visited st). (needs rn res root)\<^sup>*\<^sup>* lib v)
   \<and> (\<forall>v \<in> set (visited st) - set (queue st). \<forall>w. needs rn res root v w \<longrightarrow> w \<in> set (visited st))"

lemma elf_invD:
  assumes "elf_inv rn res root lib st"
  shows "lib \<notin> (\<lambda>r. path_join [root, r]) ` set (found st)"
    and "set (visited st) = insert lib ((\<lambda>r. path_join [root, r]) ` set (found st))"
    and "distinct (map (\<lambda>r. path_join [root, r]) (found st))"
    and "set (queue st) \<subseteq> set (visited st)"
    and "v \<in> set (visited st) \<Longrightarrow> (needs rn res root)\<^sup>*\<^sup>* lib v"
    and "\<lbrakk> v \<in> set (visited st); v \<notin> set (queue st); needs rn res root v w \<rbrakk> \<Longrightarrow> w \<in> set (visited st)"
  using assms unfolding elf_inv_def by blast+

lemma elf_inv_step:
  assumes inv: "elf_inv rn res root lib st" and q: "queue st = cur # q" and ns: "rn cur = Some ns"
  defines "st' \<equiv> foldl (visit_needed res root) (st\<lparr>queue := q\<rparr>) ns"
  shows "elf_inv rn res root lib st'
    \<and> (\<exists>new. queue st' = q @ new \<and> distinct new \<and> set new \<inter> set (visited st) = {}
        \<and> set (visited st') = set (visited st) \<union> set new \<and> (\<forall>w \<in> set new. needs rn res root cur w))"
proof -
  let ?f = "\<lambda>r. path_join [root, r]"
  from visit_needed_fold [of res root "st\<lparr>queue := q\<rparr>" ns] obtain new where
    n: "found st' = found st @ new" "queue st' = q @ map ?f new" "set (visited st') = set (visited st) \<union> ?f ` set new"
    "{?f (res n) | n. n \<in> set ns \<and> res n \<noteq> []} \<subseteq> set (visited st')" "distinct (map ?f new)"
    "?f ` set new \<subseteq> {?f (res n) | n. n \<in> set ns \<and> res n \<noteq> []} - set (visited st)"
    unfolding st'_def by auto
  have edge: "needs rn res root cur w \<longleftrightarrow> w \<in> {?f (res n) | n. n \<in> set ns \<and> res n \<noteq> []}" for w
    by (auto simp: needs_def ns)
  have new: "needs rn res root cur w" "w \<notin> set (visited st)" if "w \<in> ?f ` set new" for w
    using n(6) that edge by auto
  note D = elf_invD [OF inv]
  have "cur \<in> set (visited st)" using D(4) q by auto
  with D(5) have cur: "(needs rn res root)\<^sup>*\<^sup>* lib cur" by blast
  have lib: "lib \<in> set (visited st)" using D(2) by blast
  have "elf_inv rn res root lib st'"
    unfolding elf_inv_def
  proof (intro conjI ballI allI impI)
    show "lib \<notin> ?f ` set (found st')"
      using D(1) lib new(2) by (auto simp: n(1) image_Un)
    have "?f ` set (found st) \<inter> ?f ` set new = {}" using D(2) new(2) by blast
    then show "distinct (map ?f (found st'))" using D(3) n(5) by (simp add: n(1))
    show "set (visited st') = insert lib (?f ` set (found st'))"
      using D(2) by (simp add: n(1) n(3) image_Un)
    have "set q \<subseteq> set (visited st)" using D(4) q by simp
    then show "set (queue st') \<subseteq> set (visited st')" unfolding n(2) n(3) by (simp add: subset_iff)
  next
    fix v assume "v \<in> set (visited st')"
    then consider "v \<in> set (visited st)" | "v \<in> ?f ` set new" using n(3) by blast
    then show "(needs rn res root)\<^sup>*\<^sup>* lib v"
      using D(5) new(1) cur by cases (blast intro: rtranclp.rtrancl_into_rtrancl)+
  next
    fix v w assume v: "v \<in> set (visited st') - set (queue st')" and w: "needs rn res root v w"
    show "w \<in> set (visited st')"
    proof (cases "v = cur")
      case True
      then show ?thesis using w edge n(4) by blast
    next
      case False
      with v have "v \<in> set (visited st)" "v \<notin> set (queue st)" unfolding n(2) n(3) q by simp_all blast
      then show ?thesis using D(6) w n(3) by blast
    qed
  qed
  moreover have "?f ` set new \<inter> set (visited st) = {}" using new(2) by blast
  ultimately show ?thesis using n(2,3,5) new(1) by (intro conjI exI [of _ "map ?f new"]) simp_all
qed

lemma elf_inv_skip:
  assumes "elf_inv rn res root lib st" "queue st = cur # q" "rn cur = None"
  shows "elf_inv rn res root lib (st\<lparr>queue := q\<rparr>)"
proof -
  note D = elf_invD [OF assms(1)]
  have cur: "\<not> needs rn res root cur w" for w using assms(3) by (simp add: needs_def)
  have "w \<in> set (visited st)" if "v \<in> set (visited st)" "v \<notin> set q" "needs rn res root v w" for v w
    using that D(6) cur assms(2) by (cases "v = cur") auto
  moreover have "set q \<subseteq> set (visited st)" using D(4) assms(2) by simp
  ultimately show ?thesis using D(1,2,3,5) unfolding elf_inv_def by simp blast
qed

lemma elf_inv_done:
  assumes inv: "elf_inv rn res root lib st" and q: "queue st = []"
  shows "(\<lambda>r. path_join [root, r]) ` set (found st) = {p. (needs rn res root)\<^sup>*\<^sup>* lib p} - {lib}"
proof -
  note D = elf_invD [OF inv]
  have "p \<in> set (visited st)" if "(needs rn res root)\<^sup>*\<^sup>* lib p" for p
    using that
  proof (induction rule: rtranclp_induct)
    case base
    then show ?case using D(2) by simp
  next
    case (step y z)
    then show ?case using D(6) [of y z] q by simp
  qed
  with D(5) have "set (visited st) = {p. (needs rn res root)\<^sup>*\<^sup>* lib p}" by blast
  then show ?thesis using D(1,2) by blast
qed

lemma card_unseen:
  assumes "finite D" "set new \<subseteq> D" "distinct new" "set new \<inter> V = {}"
  shows "card (D - (V \<union> set new)) + length new = card (D - V)"
proof -
  have "D - V = (D - (V \<union> set new)) \<union> set new" using assms(2,4) by blast
  then have "card (D - V) = card (D - (V \<union> set new)) + card (set new)"
    using assms(1) card_Un_disjoint [of "D - (V \<union> set new)" "set new"] by (simp add: Diff_Int_distrib2 disjoint_iff)
  then show ?thesis using assms(3) by (simp add: distinct_card)
qed

text \<open>The loop ends: each round takes one path off the queue, and only unseen paths are put on it.\<close>

lemma elf_loop_total:
  assumes "finite {n. \<exists>p ns. rn p = Some ns \<and> n \<in> set ns}" and "elf_inv rn res root lib st"
  shows "\<exists>r. elf_loop rn res root st = Some r \<and> distinct (map (\<lambda>r. path_join [root, r]) r)
    \<and> (\<lambda>r. path_join [root, r]) ` set r = {p. (needs rn res root)\<^sup>*\<^sup>* lib p} - {lib}"
  using assms(2)
proof (induction "length (queue st) + card ((\<lambda>n. path_join [root, res n]) ` {n. \<exists>p ns. rn p = Some ns \<and> n \<in> set ns} - set (visited st))"
    arbitrary: st rule: less_induct)
  case less
  let ?D = "(\<lambda>n. path_join [root, res n]) ` {n. \<exists>p ns. rn p = Some ns \<and> n \<in> set ns}"
  have fin: "finite ?D" using assms(1) by (rule finite_imageI)
  show ?case
  proof (cases "queue st")
    case Nil
    then have "elf_loop rn res root st = Some (found st)" by (simp add: elf_loop.simps)
    then show ?thesis using elf_invD(3) [OF less.prems] elf_inv_done [OF less.prems Nil] by simp
  next
    case (Cons cur q)
    show ?thesis
    proof (cases "rn cur")
      case None
      have "elf_loop rn res root st = elf_loop rn res root (st\<lparr>queue := q\<rparr>)"
        by (subst elf_loop.simps) (simp add: Cons None)
      with less.hyps [OF _ elf_inv_skip [OF less.prems Cons None]] Cons show ?thesis by simp
    next
      case (Some ns)
      let ?st = "foldl (visit_needed res root) (st\<lparr>queue := q\<rparr>) ns"
      have run: "elf_loop rn res root st = elf_loop rn res root ?st"
        by (subst elf_loop.simps) (simp add: Cons Some)
      from elf_inv_step [OF less.prems Cons Some] obtain new where inv: "elf_inv rn res root lib ?st"
        and new: "queue ?st = q @ new" "distinct new" "set new \<inter> set (visited st) = {}"
          "set (visited ?st) = set (visited st) \<union> set new" "\<forall>w \<in> set new. needs rn res root cur w"
        by auto
      have sub: "set new \<subseteq> ?D" using new(5) by (force simp: needs_def)
      have "length (queue ?st) + card (?D - set (visited ?st)) < length (queue st) + card (?D - set (visited st))"
        using card_unseen [OF fin sub new(2,3)] Cons new(1,4) by simp
      from less.hyps [OF this inv] run show ?thesis by simp
    qed
  qed
qed

text \<open>
  C9: The resolver always returns, whatever the dependency graph (cycles included), provided the
  files of the host name finitely many libraries; what it returns is each library reachable from
  the given one through \<open>DT_NEEDED\<close> entries that resolve, once, and never the library itself.
\<close>

theorem elf_run_reachable:
  assumes "finite {n. \<exists>p ns. read_needed p = Some ns \<and> n \<in> set ns}"
  shows "\<exists>r. elf_run read_needed fs root paths lib = Some r
    \<and> distinct (map (\<lambda>x. path_join [root, x]) r)
    \<and> (\<lambda>x. path_join [root, x]) ` set r =
        {p. (needs read_needed (resolve_library fs root paths) root)\<^sup>*\<^sup>* lib p} - {lib}"
  unfolding elf_run_def
  by (rule elf_loop_total [OF assms]) (simp add: elf_inv_def)

text \<open>Two libraries that need each other and a name that no search path has.\<close>

definition cyclic_needed :: "string \<Rightarrow> string list option" where
  "cyclic_needed p = (if p = ''/lib/liba.so'' then Some [''libb.so'', ''libmissing.so'']
     else if p = ''/lib/libb.so'' then Some [''liba.so''] else None)"

definition cyclic_host :: fs where
  "cyclic_host = [([''lib''], Dir), ([''lib'', ''liba.so''], Reg [] 0), ([''lib'', ''libb.so''], Reg [] 0)]"

theorem elf_run_reachable_witness:
  "\<exists>r. elf_run cyclic_needed cyclic_host ''/'' [''/lib''] ''/lib/liba.so'' = Some r
     \<and> ''/lib/libb.so'' \<in> (\<lambda>x. path_join [''/'', x]) ` set r"
proof -
  have "{n. \<exists>p ns. cyclic_needed p = Some ns \<and> n \<in> set ns} \<subseteq> {''libb.so'', ''libmissing.so'', ''liba.so''}"
    by (auto simp: cyclic_needed_def split: if_splits)
  then have "finite {n. \<exists>p ns. cyclic_needed p = Some ns \<and> n \<in> set ns}"
    by (rule finite_subset) simp
  from elf_run_reachable [OF this, of cyclic_host "''/''" "[''/lib'']" "''/lib/liba.so''"]
  obtain r where r: "elf_run cyclic_needed cyclic_host ''/'' [''/lib''] ''/lib/liba.so'' = Some r"
    "(\<lambda>x. path_join [''/'', x]) ` set r =
      {p. (needs cyclic_needed (resolve_library cyclic_host ''/'' [''/lib'']) ''/'')\<^sup>*\<^sup>* ''/lib/liba.so'' p} - {''/lib/liba.so''}"
    by blast
  have lib: "resolve_library cyclic_host ''/'' [''/lib''] ''libb.so'' = ''/lib/libb.so''"
    "path_join [''/'', ''/lib/libb.so''] = ''/lib/libb.so''"
    by code_simp+
  have "needs cyclic_needed (resolve_library cyclic_host ''/'' [''/lib'']) ''/'' ''/lib/liba.so'' ''/lib/libb.so''"
    unfolding needs_def by (intro exI [of _ "[''libb.so'', ''libmissing.so'']"] exI [of _ "''libb.so''"])
      (simp add: lib cyclic_needed_def del: resolve_library.simps)
  with r show ?thesis by auto
qed

text \<open>
  The resolver as the \<open>LDDRunner\<close> of the library discoverer; it reports no error. The value for a
  run that does not end is not reached, by the theorem above.
\<close>

definition elf_runner ::
  "(string \<Rightarrow> string list option) \<Rightarrow> fs \<Rightarrow> string \<Rightarrow> string list \<Rightarrow> string \<Rightarrow> gerr + string list" where
  "elf_runner read_needed fs root paths lib =
     (case elf_run read_needed fs root paths lib of Some r \<Rightarrow> Inr r | None \<Rightarrow> Inl (Msg ''does not return''))"

end
