(* ===== verification/Library_Discovery.thy ===== *)
theory Library_Discovery imports Elf_Resolver begin

text \<open>
  The library discoverer of \<open>internal/discover/library.go\<close>: the RBLN libraries, the dependencies
  the \<open>LDDRunner\<close> (a parameter) reports, the plugins and the host's libibverbs providers, with the
  translation of a path between the three roots (search root, driver root, container).
\<close>

subsection \<open>Roots\<close>

definition lib_get_container_path :: "config \<Rightarrow> string \<Rightarrow> string" where
  "lib_get_container_path cfg host_path =
     (if container_path (libraries cfg) = [] then host_path
      else path_join [container_path (libraries cfg), path_base host_path])"

definition lib_to_container_path :: "config \<Rightarrow> string \<Rightarrow> string" where
  "lib_to_container_path cfg host_path =
     (if container_path (libraries cfg) \<noteq> [] then lib_get_container_path cfg host_path
      else driver_strip cfg host_path)"

definition lib_to_host_path :: "config \<Rightarrow> string \<Rightarrow> string \<Rightarrow> string" where
  "lib_to_host_path cfg path root =
     (if root = [] \<or> root = ''/'' then path
      else if driver_root cfg \<noteq> [] \<and> driver_root cfg \<noteq> ''/''
           then path_join [driver_root cfg, strip_root root path]
           else strip_root root path)"

definition to_search_root_path :: "config \<Rightarrow> string \<Rightarrow> string" where
  "to_search_root_path cfg p =
     (if search_root cfg = [] \<or> search_root cfg = driver_root cfg then p
      else path_join [search_root cfg, strip_root (driver_root cfg) p])"

definition to_driver_root_path :: "config \<Rightarrow> string \<Rightarrow> string" where
  "to_driver_root_path cfg p =
     (let sr = root_or_driver cfg; dr = driver_root cfg
      in if (sr = [] \<or> sr = ''/'') \<and> (dr = [] \<or> dr = ''/'') then p
         else if search_root cfg \<noteq> [] \<and> search_root cfg \<noteq> dr
         then (if dr \<noteq> [] \<and> dr \<noteq> ''/'' then path_join [dr, strip_root sr p] else strip_root sr p)
         else if dr \<noteq> [] \<and> dr \<noteq> ''/''
         then (if has_prefix p dr then p else path_join [dr, p])
         else p)"

definition plugin_container_path :: "config \<Rightarrow> string \<Rightarrow> string \<Rightarrow> string" where
  "plugin_container_path cfg host_path subdir =
     (if container_path (libraries cfg) \<noteq> []
      then path_join [container_path (libraries cfg), subdir, path_base host_path]
      else driver_strip cfg host_path)"

subsection \<open>Discovery\<close>

definition real_or_self :: "fs \<Rightarrow> string \<Rightarrow> string" where
  "real_or_self fs p = (case eval_symlinks fs p of Inl _ \<Rightarrow> p | Inr r \<Rightarrow> r)"

definition is_plain_file :: "fs \<Rightarrow> string \<Rightarrow> bool" where
  "is_plain_file fs p = (case fs_lstat fs p of Inl _ \<Rightarrow> False | Inr n \<Rightarrow> \<not> is_dir_node n \<and> \<not> is_sym_node n)"

text \<open>The matches of all patterns in all search paths; a bad pattern matches nothing.\<close>

definition rbln_matches :: "fs \<Rightarrow> config \<Rightarrow> string list" where
  "rbln_matches fs cfg = concat (map (\<lambda>pattern. concat (map (\<lambda>sp.
     (case fs_glob fs (path_join [path_join [root_or_driver cfg, sp], pattern]) of
        None \<Rightarrow> [] | Some ms \<Rightarrow> filter (is_plain_file fs) ms))
     (search_libraries (search_paths cfg)))) (lib_patterns (libraries cfg)))"

definition discover_rbln :: "fs \<Rightarrow> config \<Rightarrow> library list" where
  "discover_rbln fs cfg =
     map (\<lambda>m. let h = lib_to_host_path cfg m (root_or_driver cfg)
              in \<lparr> lib_name = path_base m, lib_path = h, lib_container = lib_to_container_path cfg h,
                   lib_real = [], lib_type = LibraryTypeRBLN \<rparr>)
       (dedup_by (real_or_self fs) [] (rbln_matches fs cfg))"

definition is_glibc :: "config \<Rightarrow> string \<Rightarrow> bool" where
  "is_glibc cfg name \<longleftrightarrow> list_ex (\<lambda>p. path_match p name = Some True) (glibc_exclude cfg)"

definition input_paths :: "library list \<Rightarrow> string list" where
  "input_paths libs = concat (map (\<lambda>l. if lib_real l \<noteq> [] then [lib_path l, lib_real l] else [lib_path l]) libs)"

definition reported_deps :: "(string \<Rightarrow> gerr + string list) \<Rightarrow> config \<Rightarrow> library list \<Rightarrow> string list" where
  "reported_deps ldd cfg libs = concat (map (\<lambda>l.
     (case ldd (to_search_root_path cfg (lib_path l)) of Inl _ \<Rightarrow> [] | Inr ds \<Rightarrow> ds)) libs)"

definition discover_dependencies ::
  "(string \<Rightarrow> gerr + string list) \<Rightarrow> config \<Rightarrow> library list \<Rightarrow> library list" where
  "discover_dependencies ldd cfg libs =
     map (\<lambda>d. let h = to_driver_root_path cfg d
              in \<lparr> lib_name = path_base d, lib_path = h, lib_container = lib_to_container_path cfg h,
                   lib_real = [], lib_type = LibraryTypeDependency \<rparr>)
       (filter (\<lambda>d. \<not> is_glibc cfg (path_base d))
         (dedup_by (to_driver_root_path cfg) (input_paths libs) (reported_deps ldd cfg libs)))"

text \<open>The entries of the plugin directories: the file, and the last element of its directory.\<close>

definition plugin_entries :: "fs \<Rightarrow> config \<Rightarrow> (string \<times> string \<times> string) list" where
  "plugin_entries fs cfg = concat (map (\<lambda>pp.
     (let full = path_join [root_or_driver cfg, pp]
      in case fs_read_dir fs full of
           Inl _ \<Rightarrow> []
         | Inr es \<Rightarrow> map (\<lambda>(n, d). (n, path_join [full, n], path_base pp))
                       (filter (\<lambda>(n, d). \<not> d \<and> is_so_name n) es))) (plugin_paths (libraries cfg)))"

definition discover_plugins :: "fs \<Rightarrow> config \<Rightarrow> library list" where
  "discover_plugins fs cfg =
     map (\<lambda>(n, p, sub). let h = lib_to_host_path cfg p (root_or_driver cfg)
          in \<lparr> lib_name = n, lib_path = h, lib_container = plugin_container_path cfg h sub,
               lib_real = [], lib_type = LibraryTypePlugin \<rparr>)
       (dedup_by (\<lambda>(n, p, sub). real_or_self fs p) [] (plugin_entries fs cfg))"

definition is_host_file :: "fs \<Rightarrow> config \<Rightarrow> string \<Rightarrow> bool" where
  "is_host_file fs cfg p = (case fs_stat fs (path_join [host_root cfg, p]) of
     Inl _ \<Rightarrow> False | Inr n \<Rightarrow> is_reg_node n)"

definition discover_rdma_providers :: "fs \<Rightarrow> config \<Rightarrow> rdma_provider list" where
  "discover_rdma_providers fs cfg =
     (let dir = rdma_provider_dir (libraries cfg)
      in if dir = [] then []
         else map (\<lambda>p. let n = path_base (provider_library p)
                       in \<lparr> rp_name = n, rp_path = provider_library p, rp_container = path_join [dir, n],
                            rp_driver = provider_driver p \<rparr>)
           (filter (\<lambda>p. provider_library p \<noteq> [] \<and> is_host_file fs cfg (provider_library p)
              \<and> (provider_driver p = [] \<or> is_host_file fs cfg (provider_driver p)))
            (rdma_providers (libraries cfg))))"

subsection \<open>What discovery returns\<close>

lemma path_of_not_slash: "\<lbrakk> rs \<noteq> []; list_all normal_comp rs \<rbrakk> \<Longrightarrow> path_of True rs \<noteq> ''/'' \<and> path_of True rs \<noteq> []"
  by (cases rs; cases "tl rs = []") (auto simp: path_of_def join_strs_Cons normal_comp_def)

text \<open>
  The three roots agree: a library found at \<open>S/q\<close> below the search root gets the host path
  \<open>D/q\<close> below the driver root and the container path \<open>/q\<close>; reading it again goes back to \<open>S/q\<close>,
  and a dependency the resolver reports at \<open>S/q\<close> is recorded at \<open>D/q\<close>.
\<close>

theorem roots_agree:
  assumes "search_root cfg = path_of True ss" "driver_root cfg = path_of True ds"
    and "ss \<noteq> []" "ds \<noteq> []" "list_all normal_comp (ss @ ds @ qs)" "container_path (libraries cfg) = []"
  shows "lib_to_host_path cfg (path_of True (ss @ qs)) (root_or_driver cfg) = path_of True (ds @ qs)
    \<and> lib_to_container_path cfg (path_of True (ds @ qs)) = path_of True qs
    \<and> to_search_root_path cfg (path_of True (ds @ qs)) = path_of True (ss @ qs)
    \<and> to_driver_root_path cfg (path_of True (ss @ qs)) = path_of True (ds @ qs)"
proof -
  have n: "list_all normal_comp ss" "list_all normal_comp ds" "list_all normal_comp qs" using assms(5) by simp_all
  note ns = path_of_not_slash [OF assms(3) n(1)] path_of_not_slash [OF assms(4) n(2)]
  have root: "root_or_driver cfg = path_of True ss" using assms(1) ns by (simp add: root_or_driver_def)
  have same: "path_of True (ss @ qs) = path_of True (ds @ qs) \<and> has_prefix (path_of True (ss @ qs)) (path_of True ds)"
    if "path_of True ss = path_of True ds"
  proof -
    have "ss = ds" using that n path_comps_path_of_True by metis
    then show ?thesis using assms(4) by (cases "qs = []") (simp_all add: path_of_append, simp add: has_prefix_iff)
  qed
  show ?thesis
  proof (intro conjI)
    show "lib_to_host_path cfg (path_of True (ss @ qs)) (root_or_driver cfg) = path_of True (ds @ qs)"
      using ns assms(2,3) n by (simp add: lib_to_host_path_def root strip_root_path_of path_join_path_of)
    show "lib_to_container_path cfg (path_of True (ds @ qs)) = path_of True qs"
      using ns assms(2,4,6) by (simp add: lib_to_container_path_def driver_strip_def strip_root_path_of)
    show "to_search_root_path cfg (path_of True (ds @ qs)) = path_of True (ss @ qs)"
      using ns assms(1,2,4) n same by (auto simp: to_search_root_path_def strip_root_path_of path_join_path_of)
    show "to_driver_root_path cfg (path_of True (ss @ qs)) = path_of True (ds @ qs)"
      using ns assms(1-4) n same
      by (auto simp: to_driver_root_path_def root Let_def strip_root_path_of path_join_path_of)
  qed
qed

theorem roots_agree_witness:
  "to_driver_root_path (default_config\<lparr>search_root := ''/host/run/driver'', driver_root := ''/run/driver''\<rparr>)
     ''/host/run/driver/usr/lib/libx.so'' = ''/run/driver/usr/lib/libx.so''"
proof -
  let ?c = "default_config\<lparr>search_root := ''/host/run/driver'', driver_root := ''/run/driver''\<rparr>"
  have "search_root ?c = path_of True [''host'', ''run'', ''driver'']" "driver_root ?c = path_of True [''run'', ''driver'']"
    by (simp_all add: path_of_def)
  from roots_agree [OF this, of "[''usr'', ''lib'', ''libx.so'']"] show ?thesis
    by (simp add: normal_comp_def) (simp add: path_of_def)
qed

text \<open>
  RBLN library discovery returns one library per real file that a pattern matches in a search
  path, named after the match, never a symbolic link or a directory.
\<close>

theorem discover_rbln_once:
  "length (discover_rbln fs cfg) = card (real_or_self fs ` set (rbln_matches fs cfg))
   \<and> (\<forall>l \<in> set (discover_rbln fs cfg). lib_type l = LibraryTypeRBLN \<and> lib_real l = []
        \<and> (\<exists>m \<in> set (rbln_matches fs cfg). is_plain_file fs m \<and> lib_name l = path_base m
             \<and> lib_path l = lib_to_host_path cfg m (root_or_driver cfg)
             \<and> lib_container l = lib_to_container_path cfg (lib_path l)))"
proof
  let ?ms = "dedup_by (real_or_self fs) [] (rbln_matches fs cfg)"
  have "length ?ms = card (set (map (real_or_self fs) ?ms))"
    by (metis dedup_by_distinct distinct_card length_map)
  also have "set (map (real_or_self fs) ?ms) = real_or_self fs ` set (rbln_matches fs cfg)"
    using dedup_by_keys [of "real_or_self fs" "[]" "rbln_matches fs cfg"] by simp
  finally show "length (discover_rbln fs cfg) = card (real_or_self fs ` set (rbln_matches fs cfg))"
    by (simp add: discover_rbln_def)
  have "is_plain_file fs m" if "m \<in> set (rbln_matches fs cfg)" for m
    using that by (auto simp: rbln_matches_def split: option.splits)
  then show "\<forall>l \<in> set (discover_rbln fs cfg). lib_type l = LibraryTypeRBLN \<and> lib_real l = []
        \<and> (\<exists>m \<in> set (rbln_matches fs cfg). is_plain_file fs m \<and> lib_name l = path_base m
             \<and> lib_path l = lib_to_host_path cfg m (root_or_driver cfg)
             \<and> lib_container l = lib_to_container_path cfg (lib_path l))"
    using dedup_by_subset [of "real_or_self fs" "[]" "rbln_matches fs cfg"]
    by (auto simp: discover_rbln_def Let_def)
qed

text \<open>
  C15: Dependency discovery returns each dependency once, none of the input libraries and nothing
  the glibc patterns exclude; and it loses nothing else: every dependency the resolver reports is
  an input, is returned, or has a path at which an excluded name was reported.
\<close>

theorem discover_dependencies_exact:
  "distinct (map lib_path (discover_dependencies ldd cfg libs))
   \<and> lib_path ` set (discover_dependencies ldd cfg libs) \<inter> set (input_paths libs) = {}
   \<and> (\<forall>l \<in> set (discover_dependencies ldd cfg libs). lib_type l = LibraryTypeDependency
        \<and> \<not> is_glibc cfg (lib_name l) \<and> (\<exists>d \<in> set (reported_deps ldd cfg libs). lib_path l = to_driver_root_path cfg d))
   \<and> (\<forall>d \<in> set (reported_deps ldd cfg libs). to_driver_root_path cfg d \<in> set (input_paths libs)
        \<or> to_driver_root_path cfg d \<in> lib_path ` set (discover_dependencies ldd cfg libs)
        \<or> (\<exists>g \<in> set (reported_deps ldd cfg libs). is_glibc cfg (path_base g) \<and> to_driver_root_path cfg g = to_driver_root_path cfg d))"
proof -
  let ?f = "to_driver_root_path cfg"
  let ?rs = "reported_deps ldd cfg libs"
  let ?ds = "dedup_by ?f (input_paths libs) ?rs"
  let ?out = "discover_dependencies ldd cfg libs"
  have paths: "map lib_path ?out = map ?f (filter (\<lambda>d. \<not> is_glibc cfg (path_base d)) ?ds)"
    by (simp add: discover_dependencies_def Let_def)
  have keys: "?f ` set ?ds = ?f ` set ?rs - set (input_paths libs)" by (rule dedup_by_keys)
  have sub: "set ?ds \<subseteq> set ?rs" by (rule dedup_by_subset)
  have img: "lib_path ` set ?out = ?f ` {d \<in> set ?ds. \<not> is_glibc cfg (path_base d)}"
    using arg_cong [OF paths, of set] by simp
  have "distinct (map lib_path ?out)"
    unfolding paths using dedup_by_distinct [of ?f "input_paths libs" ?rs] by (rule distinct_map_filter)
  moreover have "lib_path ` set ?out \<inter> set (input_paths libs) = {}"
    unfolding img using keys by auto
  moreover have "\<forall>l \<in> set ?out. lib_type l = LibraryTypeDependency
      \<and> \<not> is_glibc cfg (lib_name l) \<and> (\<exists>d \<in> set ?rs. lib_path l = ?f d)"
    using sub by (simp add: discover_dependencies_def Let_def) blast
  moreover have "?f d \<in> set (input_paths libs) \<or> ?f d \<in> lib_path ` set ?out
      \<or> (\<exists>g \<in> set ?rs. is_glibc cfg (path_base g) \<and> ?f g = ?f d)" if d: "d \<in> set ?rs" for d
  proof (cases "?f d \<in> set (input_paths libs)")
    case False
    with keys d have "?f d \<in> ?f ` set ?ds" by blast
    then obtain g where g: "g \<in> set ?ds" "?f g = ?f d" by (metis imageE)
    show ?thesis
    proof (cases "is_glibc cfg (path_base g)")
      case True
      then show ?thesis using g sub by blast
    next
      case no: False
      have "?f g \<in> ?f ` {d \<in> set ?ds. \<not> is_glibc cfg (path_base d)}" using g(1) no by blast
      then show ?thesis unfolding img g(2) by blast
    qed
  qed simp
  ultimately show ?thesis by blast
qed


text \<open>A library with its unversioned link, and one that depends on the C library.\<close>

definition lib_host :: fs where
  "lib_host = [([''usr''], Dir), ([''usr'', ''lib64''], Dir), ([''usr'', ''lib64'', ''librbln-ccl.so.3''], Reg ''elf'' 0x1A4),
     ([''usr'', ''lib64'', ''librbln-ccl.so''], Sym ''librbln-ccl.so.3'')]"

lemma lib_host_matches: "rbln_matches lib_host default_config = [''/usr/lib64/librbln-ccl.so.3'']"
  by code_simp

theorem discover_rbln_once_witness: "length (discover_rbln lib_host default_config) = 1"
  using discover_rbln_once [of lib_host default_config] by (simp add: lib_host_matches)

theorem discover_dependencies_exact_witness:
  "''/usr/lib64/libz.so.1'' \<in> lib_path ` set (discover_dependencies
     (\<lambda>_. Inr [''/usr/lib64/libz.so.1'']) default_config
     [\<lparr> lib_name = ''a'', lib_path = ''/a'', lib_container = ''/a'', lib_real = [], lib_type = LibraryTypeRBLN \<rparr>])"
proof -
  let ?l = "\<lparr> lib_name = ''a'', lib_path = ''/a'', lib_container = ''/a'', lib_real = [], lib_type = LibraryTypeRBLN \<rparr>"
  let ?ldd = "\<lambda>_ :: string. Inr [''/usr/lib64/libz.so.1''] :: gerr + string list"
  have "\<not> is_glibc default_config (path_base ''/usr/lib64/libz.so.1'')"
    "to_driver_root_path default_config ''/usr/lib64/libz.so.1'' = ''/usr/lib64/libz.so.1''" by code_simp+
  moreover have "reported_deps ?ldd default_config [?l] = [''/usr/lib64/libz.so.1'']" "input_paths [?l] = [''/a'']"
    by (simp_all add: reported_deps_def input_paths_def)
  ultimately show ?thesis
    using discover_dependencies_exact [of ?ldd default_config "[?l]", THEN conjunct2, THEN conjunct2, THEN conjunct2]
    by simp
qed

end
