(* ===== verification/Fingerprint.thy ===== *)
theory Fingerprint imports Discover begin

text \<open>
  Change detection for the driver's libraries (\<open>internal/discover/umdfingerprint.go\<close>): the parser
  of the ELF build-id note on bytes and machine words, the fingerprint of a library, and the probe
  the watcher runs on every tick. Go's slice expressions panic out of bounds; here they are
  \<open>None\<close>, so that a parser that never panics is a theorem. The ELF reader and \<open>os.Stat\<close>'s size
  and modification time are parameters.
\<close>

subsection \<open>Build-id notes\<close>

type_synonym byte = "8 word"

datatype byte_order = LittleEndian | BigEndian

definition be_value :: "byte list \<Rightarrow> 32 word" where
  "be_value bs = foldl (\<lambda>a b. push_bit 8 a OR ucast b) 0 bs"

definition get_uint32 :: "byte_order \<Rightarrow> byte list \<Rightarrow> 32 word" where
  "get_uint32 bo bs = be_value (case bo of BigEndian \<Rightarrow> bs | LittleEndian \<Rightarrow> rev bs)"

definition align4 :: "64 word \<Rightarrow> 64 word" where
  "align4 n = (n + 3) AND NOT 3"

definition slice_to :: "'a list \<Rightarrow> nat \<Rightarrow> 'a list option" where
  "slice_to xs n = (if n \<le> length xs then Some (take n xs) else None)"

definition slice_from :: "'a list \<Rightarrow> nat \<Rightarrow> 'a list option" where
  "slice_from xs n = (if n \<le> length xs then Some (drop n xs) else None)"

definition hex_digit :: "nat \<Rightarrow> char" where
  "hex_digit d = ''0123456789abcdef'' ! d"

definition hex_encode :: "byte list \<Rightarrow> string" where
  "hex_encode bs = concat (map (\<lambda>b. [hex_digit (unat b div 16), hex_digit (unat b mod 16)]) bs)"

definition nt_gnu_build_id :: "32 word" where "nt_gnu_build_id = 3"

definition gnu_owner :: "byte list \<Rightarrow> bool" where
  "gnu_owner name \<longleftrightarrow> rev (dropWhile (\<lambda>b. b = 0) (rev name)) = [71, 78, 85]"

text \<open>One round of the loop: a slice out of bounds, a break or the end, or a note and what follows it.\<close>

datatype note_step = NotePanic | NoteStop | Note "32 word" "64 word" "byte list" "byte list" "byte list"

definition next_note :: "byte_order \<Rightarrow> byte list \<Rightarrow> note_step" where
  "next_note bo data =
     (if length data < 12 then NoteStop
      else let namesz = ucast (get_uint32 bo (take 4 data)) :: 64 word;
               descsz = ucast (get_uint32 bo (take 4 (drop 4 data))) :: 64 word;
               typ = get_uint32 bo (take 4 (drop 8 data));
               rest = drop 12 data;
               name_aligned = align4 namesz
           in if unat name_aligned > length rest then NoteStop
              else case (slice_to rest (unat namesz), slice_from rest (unat name_aligned)) of
                     (Some name, Some rest2) \<Rightarrow>
                       (let desc_aligned = align4 descsz
                        in if unat desc_aligned > length rest2 then NoteStop
                           else case (slice_to rest2 (unat descsz), slice_from rest2 (unat desc_aligned)) of
                                  (Some desc, Some data2) \<Rightarrow> Note typ descsz name desc data2
                                | _ \<Rightarrow> NotePanic)
                   | _ \<Rightarrow> NotePanic)"

lemma next_note_shorter: "next_note bo data = Note typ sz name desc data2 \<Longrightarrow> length data2 < length data"
  by (auto simp: next_note_def Let_def slice_from_def split: if_splits option.splits)

text \<open>
  The outer option is the panic of a slice out of bounds, the inner one the sentinel \<open>errNoBuildID\<close>.
\<close>

function parse_build_id_note :: "byte_order \<Rightarrow> byte list \<Rightarrow> string option option" where
  "parse_build_id_note bo data = (case next_note bo data of
      NotePanic \<Rightarrow> None
    | NoteStop \<Rightarrow> Some None
    | Note typ descsz name desc data2 \<Rightarrow>
        if typ = nt_gnu_build_id \<and> gnu_owner name \<and> descsz > 0 then Some (Some (hex_encode desc))
        else parse_build_id_note bo data2)"
  by pat_completeness auto
termination
  by (relation "measure (\<lambda>(bo, data). length data)") (auto dest: next_note_shorter)

declare parse_build_id_note.simps [simp del]

text \<open>Rounding up a 32-bit size in 64 bits does not overflow.\<close>

lemma unat_32: "unat (n :: 32 word) < 4294967296"
  using unsigned_less [of n] by simp

lemma unat_size: "unat (ucast (n :: 32 word) :: 64 word) = unat n"
proof -
  have "take_bit 64 (unat n) = unat n"
    using unat_32 [of n] by (simp add: take_bit_nat_eq_self_iff)
  then show ?thesis by (simp add: unsigned_ucast_eq)
qed

lemma and_not_3: "unat ((w :: 64 word) AND NOT 3) = 4 * (unat w div 4)"
proof -
  have "w AND NOT (mask 2) = push_bit 2 (drop_bit 2 w)"
    by (intro bit_eqI) (auto simp: bit_and_iff bit_not_iff bit_mask_iff bit_push_bit_iff bit_drop_bit_eq not_less dest: le_add_diff_inverse)
  moreover have "(3 :: 64 word) = mask 2" by (simp add: mask_eq_exp_minus_1)
  ultimately have "w AND NOT 3 = push_bit 2 (drop_bit 2 w)" by simp
  moreover have "unat (push_bit 2 (drop_bit 2 w)) = 4 * (unat w div 4)"
  proof -
    have "unat w < 18446744073709551616" using unsigned_less [of w] by simp
    moreover from this have "4 * (unat w div 4) < 18446744073709551616" by linarith
    ultimately show ?thesis
      unfolding unsigned_push_bit_eq unsigned_drop_bit_eq
      by (simp add: push_bit_eq_mult drop_bit_eq_div take_bit_eq_mod mult.commute)
  qed
  ultimately show ?thesis by (simp only:)
qed

lemma unat_align4: "unat (align4 (ucast (n :: 32 word))) = 4 * ((unat n + 3) div 4)"
proof -
  have "unat (ucast n + 3 :: 64 word) = unat n + 3"
    using unat_32 [of n] by (simp add: unat_word_ariths unat_size)
  then show ?thesis unfolding align4_def and_not_3 by simp
qed

lemma align4_ge: "unat n \<le> unat (align4 (ucast (n :: 32 word)))"
  unfolding unat_align4 by presburger

lemma next_note_no_panic: "next_note bo data \<noteq> NotePanic"
  using align4_ge [of "get_uint32 bo (take 4 data)"] align4_ge [of "get_uint32 bo (take 4 (drop 4 data))"]
  by (auto simp: next_note_def Let_def slice_to_def slice_from_def unat_size)

text \<open>
  C10: The build-id parser never indexes out of bounds, whatever bytes the section holds: its sizes
  are 32-bit values widened to 64 bits, so the rounded sizes do not wrap and the guards cover every
  slice.
\<close>

theorem parse_build_id_note_no_panic: "parse_build_id_note bo data \<noteq> None"
proof (induction bo data rule: parse_build_id_note.induct)
  case (1 bo data)
  then show ?case
    using next_note_no_panic [of bo data]
    by (subst parse_build_id_note.simps) (auto split: note_step.split)
qed

subsection \<open>What linkers write is read back\<close>

definition be_bytes :: "32 word \<Rightarrow> byte list" where
  "be_bytes w = [ucast (drop_bit 24 w), ucast (drop_bit 16 w), ucast (drop_bit 8 w), ucast w]"

definition put_uint32 :: "byte_order \<Rightarrow> 32 word \<Rightarrow> byte list" where
  "put_uint32 bo w = (case bo of BigEndian \<Rightarrow> be_bytes w | LittleEndian \<Rightarrow> rev (be_bytes w))"

definition pad4 :: "byte list \<Rightarrow> byte list" where
  "pad4 bs = bs @ replicate (4 * ((length bs + 3) div 4) - length bs) 0"

definition encode_note :: "byte_order \<Rightarrow> 32 word \<times> byte list \<times> byte list \<Rightarrow> byte list" where
  "encode_note bo n = (case n of (typ, name, desc) \<Rightarrow>
     put_uint32 bo (word_of_nat (length name)) @ put_uint32 bo (word_of_nat (length desc)) @ put_uint32 bo typ
       @ pad4 name @ pad4 desc)"

definition is_build_id :: "32 word \<times> byte list \<times> byte list \<Rightarrow> bool" where
  "is_build_id n = (case n of (typ, name, desc) \<Rightarrow> typ = nt_gnu_build_id \<and> gnu_owner name \<and> desc \<noteq> [])"

lemma be_value_bytes: "be_value (be_bytes w) = w"
proof (rule bit_eqI)
  fix n assume "possible_bit TYPE(32 word) n"
  then have "n < 32" by simp
  then consider "n < 8" | "8 \<le> n" "n < 16" | "16 \<le> n" "n < 24" | "24 \<le> n" "n < 32" by linarith
  then show "bit (be_value (be_bytes w)) n = bit w n"
    by cases (auto simp: be_value_def be_bytes_def bit_or_iff bit_push_bit_iff bit_ucast_iff bit_drop_bit_eq)
qed

lemma get_put_uint32: "get_uint32 bo (put_uint32 bo w) = w"
  by (cases bo) (simp_all add: get_uint32_def put_uint32_def be_value_bytes)

lemma length_put_uint32 [simp]: "length (put_uint32 bo w) = 4"
  by (cases bo) (simp_all add: put_uint32_def be_bytes_def)

lemma length_pad4: "length (pad4 bs) = 4 * ((length bs + 3) div 4)"
proof -
  have "length bs \<le> 4 * ((length bs + 3) div 4)" by presburger
  then show ?thesis by (simp add: pad4_def)
qed

lemma unat_length: "length xs < 2 ^ 32 \<Longrightarrow> unat (word_of_nat (length xs) :: 32 word) = length xs"
  by (simp add: unat_of_nat)

lemma next_note_encode:
  assumes "length name < 2 ^ 32" "length desc < 2 ^ 32"
  shows "next_note bo (encode_note bo (typ, name, desc) @ d) =
    Note typ (ucast (word_of_nat (length desc) :: 32 word)) name desc d"
proof -
  let ?nw = "word_of_nat (length name) :: 32 word" and ?dw = "word_of_nat (length desc) :: 32 word"
  let ?data = "encode_note bo (typ, name, desc) @ d"
  note sz = unat_length [OF assms(1)] unat_length [OF assms(2)]
  have data: "?data = put_uint32 bo ?nw @ put_uint32 bo ?dw @ put_uint32 bo typ @ pad4 name @ pad4 desc @ d"
    by (simp add: encode_note_def)
  have parts: "get_uint32 bo (take 4 ?data) = ?nw" "get_uint32 bo (take 4 (drop 4 ?data)) = ?dw"
    "get_uint32 bo (take 4 (drop 8 ?data)) = typ" "drop 12 ?data = pad4 name @ pad4 desc @ d"
    unfolding data by (simp_all add: get_put_uint32)
  have al: "unat (align4 (ucast ?nw)) = length (pad4 name)" "unat (align4 (ucast ?dw)) = length (pad4 desc)"
    by (simp_all add: unat_align4 sz length_pad4)
  have le: "length name \<le> length (pad4 name)" "length desc \<le> length (pad4 desc)" by (simp_all add: pad4_def)
  have tk: "take (length name) (pad4 name @ x) = name" "take (length desc) (pad4 desc @ x) = desc" for x
    by (simp_all add: pad4_def)
  show ?thesis
    unfolding next_note_def parts Let_def al unat_size sz slice_to_def slice_from_def
    using le tk by (simp add: data)
qed

lemma parse_note_append:
  assumes "length (fst (snd n)) < 2 ^ 32" "length (snd (snd n)) < 2 ^ 32"
  shows "parse_build_id_note bo (encode_note bo n @ d) =
    (if is_build_id n then Some (Some (hex_encode (snd (snd n)))) else parse_build_id_note bo d)"
proof -
  obtain t name desc where n: "n = (t, name, desc)" by (cases n)
  have "(0 :: 64 word) < ucast (word_of_nat (length desc) :: 32 word) \<longleftrightarrow> desc \<noteq> []"
    using assms(2) by (simp add: n word_less_nat_alt unat_size unat_length)
  then show ?thesis
    using assms by (subst parse_build_id_note.simps) (simp add: n next_note_encode is_build_id_def)
qed

text \<open>
  C11: The parser reads what linkers write: over any sequence of notes laid out as the ELF format
  says, in either byte order, it returns the hexadecimal digits of the first GNU build-id note and
  the sentinel when there is none, skipping every other note by its rounded sizes.
\<close>

theorem parse_build_id_notes:
  assumes "\<forall>n \<in> set nts. length (fst (snd n)) < 2 ^ 32 \<and> length (snd (snd n)) < 2 ^ 32"
  shows "parse_build_id_note bo (concat (map (encode_note bo) nts)) =
    Some (map_option (\<lambda>n. hex_encode (snd (snd n))) (find is_build_id nts))"
  using assms
proof (induction nts)
  case Nil
  show ?case by (subst parse_build_id_note.simps) (simp add: next_note_def)
next
  case (Cons n nts)
  then show ?case by (simp add: parse_note_append)
qed

theorem parse_build_id_notes_witness:
  "parse_build_id_note LittleEndian (concat (map (encode_note LittleEndian)
      [(1, [71, 78, 85, 0], [1, 2, 3]), (3, [71, 78, 85, 0], [171, 205])])) = Some (Some ''abcd'')"
  using parse_build_id_notes [of "[(1, [71, 78, 85, 0], [1, 2, 3]), (3, [71, 78, 85, 0], [171, 205])]" LittleEndian]
  by (simp add: is_build_id_def nt_gnu_build_id_def gnu_owner_def hex_encode_def hex_digit_def)

subsection \<open>Fingerprints\<close>

text \<open>What \<open>debug/elf\<close> says of the note section: \<open>None\<close> is a file that is no ELF image.\<close>

record note_section =
  ns_compressed :: bool
  ns_size :: "64 word"
  ns_data :: "byte list option"
  ns_order :: byte_order

definition max_build_id_note_bytes :: "64 word" where "max_build_id_note_bytes = 64 * 1024"

definition read_elf_build_id :: "(string \<Rightarrow> note_section option option) \<Rightarrow> string \<Rightarrow> string option" where
  "read_elf_build_id elf path = (case elf path of
      None \<Rightarrow> None
    | Some None \<Rightarrow> None
    | Some (Some sec) \<Rightarrow>
        if ns_compressed sec \<or> ns_size sec > max_build_id_note_bytes then None
        else (case ns_data sec of
                None \<Rightarrow> None
              | Some d \<Rightarrow> (case parse_build_id_note (ns_order sec) d of Some (Some h) \<Rightarrow> Some h | _ \<Rightarrow> None)))"

text \<open>\<open>stat_info\<close> gives the size and the modification time in nanoseconds.\<close>

definition library_fingerprint ::
  "(string \<Rightarrow> note_section option option) \<Rightarrow> (string \<Rightarrow> errno + int \<times> int) \<Rightarrow> string \<Rightarrow> errno + string" where
  "library_fingerprint elf stat_info path =
     (case read_elf_build_id elf path of
        Some (c # cs) \<Rightarrow> Inr (''build-id:'' @ c # cs)
      | _ \<Rightarrow> (case stat_info path of
            Inl e \<Rightarrow> Inl e
          | Inr (sz, mtime) \<Rightarrow> Inr (''size:'' @ show_int sz @ '',mtime:'' @ show_int mtime)))"

subsection \<open>The probe\<close>

definition rbln_library_globs :: "string list" where
  "rbln_library_globs = [''librbln-ccl.so*'', ''librbln-thunk.so*'']"

record probe_state =
  fingerprints :: "(string \<times> string) list"
  probe_errs :: "(string \<times> gerr) list"
  probe_seen :: "string list"

definition probe_match ::
  "fs \<Rightarrow> (string \<Rightarrow> errno + string) \<Rightarrow> probe_state \<Rightarrow> string \<Rightarrow> probe_state" where
  "probe_match fs fingerprint st m =
     (case eval_symlinks fs m of
        Inl e \<Rightarrow> if is_not_exist e then st else st\<lparr>probe_errs := AList.update m (Sys e) (probe_errs st)\<rparr>
      | Inr resolved \<Rightarrow>
          if resolved \<in> set (probe_seen st) then st
          else let st1 = st\<lparr>probe_seen := resolved # probe_seen st\<rparr>
               in case fingerprint resolved of
                    Inl e \<Rightarrow> if is_not_exist e then st1
                             else st1\<lparr>probe_errs := AList.update resolved (Sys e) (probe_errs st1)\<rparr>
                  | Inr fp \<Rightarrow> st1\<lparr>fingerprints := AList.update resolved fp (fingerprints st1)\<rparr>)"

text \<open>The matches of one directory; a pattern that is bad is reported for the directory.\<close>

fun dir_matches :: "fs \<Rightarrow> string \<Rightarrow> string list \<Rightarrow> (string \<times> gerr) list \<Rightarrow> string list \<times> (string \<times> gerr) list" where
  "dir_matches fs dir [] errs = ([], errs)"
| "dir_matches fs dir (p # ps) errs = (case fs_glob fs (path_join [dir, p]) of
      None \<Rightarrow> dir_matches fs dir ps (AList.update dir (Msg ''syntax error in pattern'') errs)
    | Some m \<Rightarrow> (case dir_matches fs dir ps errs of (ms, errs') \<Rightarrow> (m @ ms, errs')))"

definition probe_dir :: "fs \<Rightarrow> (string \<Rightarrow> errno + string) \<Rightarrow> probe_state \<Rightarrow> string \<Rightarrow> probe_state" where
  "probe_dir fs fingerprint st dir =
     (case dir_matches fs dir rbln_library_globs (probe_errs st) of
        (ms, errs) \<Rightarrow> foldl (probe_match fs fingerprint) (st\<lparr>probe_errs := errs\<rparr>) ms)"

definition probe_rbln_libraries ::
  "fs \<Rightarrow> (string \<Rightarrow> errno + string) \<Rightarrow> string list \<Rightarrow> (string \<times> string) list \<times> (string \<times> gerr) list" where
  "probe_rbln_libraries fs fingerprint dirs =
     (let st = foldl (probe_dir fs fingerprint) \<lparr> fingerprints = [], probe_errs = [], probe_seen = [] \<rparr> dirs
      in (fingerprints st, probe_errs st))"

text \<open>The files the probe looks at.\<close>

definition probed_files :: "fs \<Rightarrow> string list \<Rightarrow> string set" where
  "probed_files fs dirs = {r. \<exists>d \<in> set dirs. \<exists>m \<in> set (fst (dir_matches fs d rbln_library_globs [])).
     eval_symlinks fs m = Inr r}"

lemma dir_matches_errs: "fst (dir_matches fs d ps errs) = fst (dir_matches fs d ps [])"
proof (induction ps arbitrary: errs)
  case (Cons p ps)
  then show ?case
    by (auto split: option.split prod.split) (metis fst_conv)+
qed simp

definition probe_inv :: "(string \<Rightarrow> errno + string) \<Rightarrow> string set \<Rightarrow> probe_state \<Rightarrow> bool" where
  "probe_inv fingerprint done st \<longleftrightarrow> set (probe_seen st) = done \<and> distinct (map fst (fingerprints st))
     \<and> (\<forall>r. map_of (fingerprints st) r = (if r \<in> done then (case fingerprint r of Inr fp \<Rightarrow> Some fp | Inl _ \<Rightarrow> None) else None))"

lemma probe_match_inv:
  assumes "probe_inv fp done st"
  shows "probe_inv fp (done \<union> {r. eval_symlinks fs m = Inr r}) (probe_match fs fp st m)"
proof (cases "eval_symlinks fs m")
  case (Inl e)
  then show ?thesis using assms by (simp add: probe_match_def probe_inv_def)
next
  case (Inr r)
  show ?thesis
  proof (cases "r \<in> done")
    case True
    then have "insert r done = done" by blast
    then show ?thesis using assms Inr True by (simp add: probe_match_def probe_inv_def)
  next
    case False
    then show ?thesis
      using assms Inr unfolding probe_match_def probe_inv_def
      by (cases "fp r") (auto simp: Let_def AList.update_conv' distinct_update)
  qed
qed

lemma probe_dir_inv:
  assumes "probe_inv fp done st"
  shows "probe_inv fp (done \<union> probed_files fs [d]) (probe_dir fs fp st d)"
proof -
  obtain ms errs where m: "dir_matches fs d rbln_library_globs (probe_errs st) = (ms, errs)" by fastforce
  have ms: "ms = fst (dir_matches fs d rbln_library_globs [])"
    using dir_matches_errs [of fs d rbln_library_globs "probe_errs st"] m by simp
  have step: "probe_inv fp (D \<union> {r. \<exists>m \<in> set ms. eval_symlinks fs m = Inr r}) (foldl (probe_match fs fp) s ms)"
    if "probe_inv fp D s" for D s ms
    using that
  proof (induction ms arbitrary: D s)
    case (Cons m ms)
    from Cons.IH [OF probe_match_inv [OF Cons.prems, of fs m]]
    have "probe_inv fp (D \<union> {r. eval_symlinks fs m = Inr r} \<union> {r. \<exists>m \<in> set ms. eval_symlinks fs m = Inr r})
      (foldl (probe_match fs fp) s (m # ms))" by simp
    moreover have "D \<union> {r. eval_symlinks fs m = Inr r} \<union> {r. \<exists>m \<in> set ms. eval_symlinks fs m = Inr r}
        = D \<union> {r. \<exists>m \<in> set (m # ms). eval_symlinks fs m = Inr r}" by auto
    ultimately show ?case by simp
  qed simp
  have "probe_inv fp done (st\<lparr>probe_errs := errs\<rparr>)" using assms by (simp add: probe_inv_def)
  from step [OF this, of ms] show ?thesis by (simp add: probe_dir_def m ms probed_files_def)
qed

lemma probe_result:
  "distinct (map fst (fst (probe_rbln_libraries fs fp dirs)))"
  "map_of (fst (probe_rbln_libraries fs fp dirs)) r =
     (if r \<in> probed_files fs dirs then (case fp r of Inr v \<Rightarrow> Some v | Inl _ \<Rightarrow> None) else None)"
proof -
  have "probe_inv fp (D \<union> probed_files fs dirs) (foldl (probe_dir fs fp) s dirs)" if "probe_inv fp D s" for D s
    using that
  proof (induction dirs arbitrary: D s)
    case Nil
    then show ?case by (simp add: probed_files_def)
  next
    case (Cons d dirs)
    have "D \<union> probed_files fs [d] \<union> probed_files fs dirs = D \<union> probed_files fs (d # dirs)"
      by (auto simp: probed_files_def)
    with Cons.IH [OF probe_dir_inv [OF Cons.prems, of fs d]] show ?case by simp
  qed
  moreover have "probe_inv fp {} \<lparr> fingerprints = [], probe_errs = [], probe_seen = [] \<rparr>"
    by (simp add: probe_inv_def)
  ultimately have "probe_inv fp ({} \<union> probed_files fs dirs)
      (foldl (probe_dir fs fp) \<lparr> fingerprints = [], probe_errs = [], probe_seen = [] \<rparr> dirs)" by blast
  then show "distinct (map fst (fst (probe_rbln_libraries fs fp dirs)))"
    "map_of (fst (probe_rbln_libraries fs fp dirs)) r =
     (if r \<in> probed_files fs dirs then (case fp r of Inr v \<Rightarrow> Some v | Inl _ \<Rightarrow> None) else None)"
    by (simp_all add: probe_rbln_libraries_def Let_def probe_inv_def)
qed

text \<open>
  C14: The probe reports exactly the files that the library patterns reach in the given directories
  (after symbolic links, each once, whatever the order of the directories) and that can be
  fingerprinted, each with its fingerprint; a missing or unreadable file never stops the scan.
\<close>

theorem probe_exact:
  "distinct (map fst (fst (probe_rbln_libraries fs fp dirs)))
   \<and> (\<forall>r. map_of (fst (probe_rbln_libraries fs fp dirs)) r =
        (if r \<in> probed_files fs dirs then (case fp r of Inr v \<Rightarrow> Some v | Inl _ \<Rightarrow> None) else None))"
  by (simp add: probe_result)

text \<open>No fingerprint is the empty text.\<close>

lemma library_fingerprint_nonempty: "library_fingerprint elf stat_info p = Inr v \<Longrightarrow> v \<noteq> []"
  by (auto simp: library_fingerprint_def split: option.splits list.splits sum.splits)

lemma probe_nonempty:
  "list_all (\<lambda>(k, v). v \<noteq> []) (fst (probe_rbln_libraries fs (library_fingerprint elf stat_info) dirs))"
proof -
  let ?p = "fst (probe_rbln_libraries fs (library_fingerprint elf stat_info) dirs)"
  have "v \<noteq> []" if "(k, v) \<in> set ?p" for k v
  proof -
    have "map_of ?p k = Some v" using probe_result(1) that by simp
    then show ?thesis unfolding probe_result(2) using library_fingerprint_nonempty by (auto split: if_splits sum.splits)
  qed
  then show ?thesis by (auto simp: list_all_iff)
qed

subsection \<open>What a fingerprint tells apart\<close>

lemma show_nat_inj: "show_nat m = show_nat n \<longleftrightarrow> m = n"
  by (metis dec_value_show_nat)

lemma show_int_inj: "show_int i = show_int j \<longleftrightarrow> i = j"
proof
  assume eq: "show_int i = show_int j"
  have "\<not> is_digit CHR ''-''" by code_simp
  then have ne: "show_nat a \<noteq> CHR ''-'' # s" for a s
    using show_nat_hd_digit [of a] by (metis list.sel(1))
  show "i = j"
    using eq by (auto simp: show_int_def show_nat_inj ne ne [symmetric] split: if_splits)
qed simp

lemma show_int_no_comma: "CHR '','' \<notin> set (show_int i)"
proof -
  have "\<not> is_digit CHR '',''" by code_simp
  then have "CHR '','' \<notin> set (show_nat n)" for n
    using show_nat_digits [of n] by (auto simp: list_all_iff)
  then show ?thesis by (simp add: show_int_def)
qed

lemma split_at_comma:
  "\<lbrakk> CHR '','' \<notin> set a; CHR '','' \<notin> set b \<rbrakk> \<Longrightarrow> a @ CHR '','' # x = b @ CHR '','' # y \<longleftrightarrow> a = b \<and> x = y"
proof (induction a arbitrary: b)
  case Nil
  then show ?case by (cases b) auto
next
  case (Cons c a)
  then show ?case by (cases b) auto
qed

text \<open>
  A fingerprint changes whenever what it is taken from changes: with build-ids on both sides
  it is equal exactly when they are, with neither exactly when size and modification time are, and
  a library that gains or loses its build-id never keeps its fingerprint. It is never empty, which
  the watcher's comparison of maps needs.
\<close>

theorem fingerprint_detects:
  assumes "library_fingerprint elf1 stat1 p = Inr f1" and "library_fingerprint elf2 stat2 p = Inr f2"
  shows "f1 \<noteq> [] \<and> (f1 = f2 \<longleftrightarrow>
    (case (read_elf_build_id elf1 p, read_elf_build_id elf2 p) of
       (Some (c # cs), Some (d # ds)) \<Rightarrow> c # cs = d # ds
     | (Some (c # cs), _) \<Rightarrow> False
     | (_, Some (d # ds)) \<Rightarrow> False
     | _ \<Rightarrow> stat1 p = stat2 p))"
  using assms show_int_no_comma
  by (auto simp: library_fingerprint_def split_at_comma show_int_inj split: option.splits list.splits sum.splits prod.splits)

theorem fingerprint_detects_witness:
  "library_fingerprint (\<lambda>_. None) (\<lambda>_. Inr (10, 5)) ''/l'' \<noteq> library_fingerprint (\<lambda>_. None) (\<lambda>_. Inr (10, 6)) ''/l''"
proof -
  let ?f = "\<lambda>t. library_fingerprint (\<lambda>_. None) (\<lambda>_. Inr (10, t)) ''/l''"
  obtain f1 f2 where "?f 5 = Inr f1" "?f 6 = Inr f2"
    by (simp add: library_fingerprint_def read_elf_build_id_def)
  with fingerprint_detects [OF this] show ?thesis by (simp add: read_elf_build_id_def)
qed


text \<open>A library and its link give one entry.\<close>

definition ccl_host :: fs where
  "ccl_host = [([''lib''], Dir), ([''lib'', ''librbln-ccl.so.3''], Reg ''elf'' 0x1A4),
     ([''lib'', ''librbln-ccl.so''], Sym ''librbln-ccl.so.3'')]"

theorem probe_exact_witness:
  "map_of (fst (probe_rbln_libraries ccl_host (\<lambda>_. Inr ''v'') [''/lib''])) ''/lib/librbln-ccl.so.3'' = Some ''v''"
proof -
  have "fst (dir_matches ccl_host ''/lib'' rbln_library_globs []) = [''/lib/librbln-ccl.so'', ''/lib/librbln-ccl.so.3'']"
    "eval_symlinks ccl_host ''/lib/librbln-ccl.so'' = Inr ''/lib/librbln-ccl.so.3''" by code_simp+
  then have "''/lib/librbln-ccl.so.3'' \<in> probed_files ccl_host [''/lib'']" by (simp add: probed_files_def)
  then show ?thesis using probe_exact [of ccl_host "\<lambda>_. Inr ''v''" "[''/lib'']"] by simp
qed

end
