(* ===== verification/Cdi_Spec.thy ===== *)
theory Cdi_Spec imports Discover begin

text \<open>
  The CDI specification as the toolkit builds and prints it: the data types of the CDI library
  (\<open>specs-go\<close>, the fields the code reads or sets), the YAML view of \<open>internal/cdi/writer.go\<close> and
  the validator of \<open>validator.go\<close>. \<open>IntelRdt\<close> is opaque; the code only asks whether it is nil.
\<close>

subsection \<open>Data\<close>

record device_node =
  dn_path :: string
  dn_host_path :: string
  dn_permissions :: string

record mount =
  mnt_host_path :: string
  mnt_container_path :: string
  mnt_options :: "string list"
  mnt_type :: string

record hook =
  hk_name :: string
  hk_path :: string
  hk_args :: "string list"
  hk_env :: "string list"

record container_edits =
  ed_env :: "string list"
  ed_device_nodes :: "device_node list"
  ed_hooks :: "hook list"
  ed_mounts :: "mount list"
  ed_intel_rdt :: "string option"
  ed_gids :: "nat list"

record cdi_device =
  cd_name :: string
  cd_annotations :: "(string \<times> string) list"
  cd_edits :: container_edits

record cdi_spec =
  sp_version :: string
  sp_kind :: string
  sp_annotations :: "(string \<times> string) list"
  sp_devices :: "cdi_device list"
  sp_edits :: container_edits

definition no_edits :: container_edits where
  "no_edits = \<lparr> ed_env = [], ed_device_nodes = [], ed_hooks = [], ed_mounts = [],
     ed_intel_rdt = None, ed_gids = [] \<rparr>"

definition is_container_edits_empty :: "container_edits \<Rightarrow> bool" where
  "is_container_edits_empty e \<longleftrightarrow> ed_env e = [] \<and> ed_device_nodes e = [] \<and> ed_hooks e = []
     \<and> ed_mounts e = [] \<and> ed_intel_rdt e = None \<and> ed_gids e = []"

lemma is_container_edits_empty_iff: "is_container_edits_empty e \<longleftrightarrow> e = no_edits"
  by (cases e) (simp add: is_container_edits_empty_def no_edits_def)

subsection \<open>The YAML view\<close>

record yaml_mount =
  ym_host_path :: string
  ym_container_path :: string
  ym_options :: "string list"
  ym_type :: string

record yaml_device_node =
  yn_path :: string
  yn_host_path :: string
  yn_permissions :: string

record yaml_container_edits =
  ye_env :: "string list"
  ye_device_nodes :: "yaml_device_node list"
  ye_hooks :: "hook list"
  ye_mounts :: "yaml_mount list"

record yaml_device =
  yd_name :: string
  yd_annotations :: "(string \<times> string) list"
  yd_edits :: yaml_container_edits

record yaml_spec =
  ys_version :: string
  ys_kind :: string
  ys_annotations :: "(string \<times> string) list"
  ys_devices :: "yaml_device list"
  ys_edits :: yaml_container_edits

definition to_yaml_container_edits :: "container_edits \<Rightarrow> yaml_container_edits" where
  "to_yaml_container_edits e = \<lparr>
     ye_env = ed_env e,
     ye_device_nodes = map (\<lambda>n. \<lparr> yn_path = dn_path n, yn_host_path = dn_host_path n,
                                 yn_permissions = dn_permissions n \<rparr>) (ed_device_nodes e),
     ye_hooks = ed_hooks e,
     ye_mounts = map (\<lambda>m. \<lparr> ym_host_path = mnt_host_path m, ym_container_path = mnt_container_path m,
                           ym_options = mnt_options m, ym_type = mnt_type m \<rparr>) (ed_mounts e) \<rparr>"

definition to_yaml_spec :: "cdi_spec \<Rightarrow> yaml_spec" where
  "to_yaml_spec s = \<lparr>
     ys_version = sp_version s, ys_kind = sp_kind s, ys_annotations = sp_annotations s,
     ys_devices = map (\<lambda>d. \<lparr> yd_name = cd_name d, yd_annotations = cd_annotations d,
                            yd_edits = to_yaml_container_edits (cd_edits d) \<rparr>) (sp_devices s),
     ys_edits = to_yaml_container_edits (sp_edits s) \<rparr>"

text \<open>The fields the toolkit populates; for such specifications the YAML view loses nothing.\<close>

definition plain_edits :: "container_edits \<Rightarrow> bool" where
  "plain_edits e \<longleftrightarrow> ed_intel_rdt e = None \<and> ed_gids e = []"

definition plain_spec :: "cdi_spec \<Rightarrow> bool" where
  "plain_spec s \<longleftrightarrow> plain_edits (sp_edits s) \<and> list_all (\<lambda>d. plain_edits (cd_edits d)) (sp_devices s)"

definition of_yaml_container_edits :: "yaml_container_edits \<Rightarrow> container_edits" where
  "of_yaml_container_edits y = \<lparr>
     ed_env = ye_env y,
     ed_device_nodes = map (\<lambda>n. \<lparr> dn_path = yn_path n, dn_host_path = yn_host_path n,
                                 dn_permissions = yn_permissions n \<rparr>) (ye_device_nodes y),
     ed_hooks = ye_hooks y,
     ed_mounts = map (\<lambda>m. \<lparr> mnt_host_path = ym_host_path m, mnt_container_path = ym_container_path m,
                           mnt_options = ym_options m, mnt_type = ym_type m \<rparr>) (ye_mounts y),
     ed_intel_rdt = None, ed_gids = [] \<rparr>"

definition of_yaml_spec :: "yaml_spec \<Rightarrow> cdi_spec" where
  "of_yaml_spec y = \<lparr>
     sp_version = ys_version y, sp_kind = ys_kind y, sp_annotations = ys_annotations y,
     sp_devices = map (\<lambda>d. \<lparr> cd_name = yd_name d, cd_annotations = yd_annotations d,
                            cd_edits = of_yaml_container_edits (yd_edits d) \<rparr>) (ys_devices y),
     sp_edits = of_yaml_container_edits (ys_edits y) \<rparr>"

lemma yaml_edits_roundtrip: "plain_edits e \<Longrightarrow> of_yaml_container_edits (to_yaml_container_edits e) = e"
  by (cases e) (simp add: plain_edits_def of_yaml_container_edits_def to_yaml_container_edits_def o_def map_idI)

lemma yaml_spec_roundtrip: "plain_spec s \<Longrightarrow> of_yaml_spec (to_yaml_spec s) = s"
proof -
  assume p: "plain_spec s"
  have "map (\<lambda>d. \<lparr>cd_name = cd_name d, cd_annotations = cd_annotations d,
      cd_edits = of_yaml_container_edits (to_yaml_container_edits (cd_edits d))\<rparr>) (sp_devices s) = sp_devices s"
    using p by (intro map_idI) (auto simp: plain_spec_def list_all_iff yaml_edits_roundtrip)
  with p show ?thesis
    by (cases s) (simp add: of_yaml_spec_def to_yaml_spec_def plain_spec_def yaml_edits_roundtrip o_def)
qed

subsection \<open>Validation\<close>

definition validate :: "cdi_spec option \<Rightarrow> gerr option" where
  "validate so = (case so of
      None \<Rightarrow> Some (WrapW ''spec is nil'' (Sentinel ErrInvalidCDISpec))
    | Some s \<Rightarrow>
        if sp_version s = [] then Some (WrapW ''missing cdiVersion'' (Sentinel ErrInvalidCDISpec))
        else if \<not> str_contains (sp_kind s) ''/''
        then Some (WrapW ''invalid kind format (expected vendor/class)'' (Sentinel ErrInvalidCDISpec))
        else if list_ex (\<lambda>d. cd_name d = []) (sp_devices s)
        then Some (WrapW (''device '' @ show_nat (length (takeWhile (\<lambda>d. cd_name d \<noteq> []) (sp_devices s)))
                          @ '' has empty name'') (Sentinel ErrInvalidCDISpec))
        else None)"

text \<open>\<open>parse\<close> is \<open>yaml.Unmarshal\<close> into a specification.\<close>

definition validate_file :: "(string \<Rightarrow> cdi_spec option) \<Rightarrow> fs \<Rightarrow> string \<Rightarrow> gerr option" where
  "validate_file parse fs path = (case fs_read_file fs path of
      Inl e \<Rightarrow> Some (if is_not_exist e then WrapW (''spec file not found: '' @ path) (Sentinel ErrFileNotFound)
                     else WrapW ''read spec file'' (Sys e))
    | Inr data \<Rightarrow> (case parse data of
          None \<Rightarrow> Some (WrapW ''parse spec file'' (Sentinel ErrInvalidCDISpec))
        | Some s \<Rightarrow> validate (Some s)))"

lemma validate_accepts:
  "validate (Some s) = None \<longleftrightarrow> sp_version s \<noteq> [] \<and> str_contains (sp_kind s) ''/''
     \<and> (\<forall>d \<in> set (sp_devices s). cd_name d \<noteq> [])"
  by (auto simp: validate_def list_ex_iff)

text \<open>Every rejection of the validator is recognisable as \<open>ErrInvalidCDISpec\<close>.\<close>

lemma validate_error_kind: "validate so = Some e \<Longrightarrow> err_is e ErrInvalidCDISpec"
  by (auto simp: validate_def split: option.splits if_splits)

end
