(* ===== verification/Generator.thy ===== *)
theory Generator imports Cdi_Spec Library_Discovery Topology begin

text \<open>
  The CDI generator of \<open>internal/cdi/generator.go\<close>. The record \<open>generator\<close> holds the configuration
  and the resolver, as the Go struct does, and the two reads of the host file system it makes
  through \<open>discover.ReadSONAME\<close> and \<open>discover.LinkExists\<close>. The sets \<open>libPaths\<close>, \<open>mountedPaths\<close> and
  \<open>seen\<close> are lists without duplicates.
\<close>

record generator =
  g_cfg :: config
  g_resolver :: "32 word \<Rightarrow> 32 word option"
  g_soname :: "string \<Rightarrow> string option"
  g_link_exists :: "string \<Rightarrow> errno + bool"

definition new_generator ::
  "config \<Rightarrow> resolver option \<Rightarrow> (string \<Rightarrow> string option) \<Rightarrow> (string \<Rightarrow> errno + bool) \<Rightarrow> generator" where
  "new_generator cfg res soname link = \<lparr> g_cfg = cfg,
     g_resolver = resolve_rsd (case res of None \<Rightarrow> NoopResolver | Some r \<Rightarrow> r), g_soname = soname, g_link_exists = link \<rparr>"

definition cdi_version :: string where "cdi_version = ''0.5.0''"
definition all_device_name :: string where "all_device_name = ''all''"
definition legacy_runtime_device_name :: string where "legacy_runtime_device_name = ''runtime''"
definition rsd_entry_prefix :: string where "rsd_entry_prefix = ''rsd''"
definition rsd_container_path :: string where "rsd_container_path = ''/dev/rsd0''"
definition rblnfs_entry_prefix :: string where "rblnfs_entry_prefix = ''rblnfs''"

subsection \<open>Device classes\<close>

datatype device_class = ClassUnknown | ClassRBLN | ClassRSD | ClassRBLNFS

definition numeric_after :: "string \<Rightarrow> string \<Rightarrow> bool" where
  "numeric_after base pre = (case cut_prefix base pre of None \<Rightarrow> False | Some rest \<Rightarrow> atoi rest \<noteq> None)"

definition parse_device_class :: "device \<Rightarrow> device_class" where
  "parse_device_class d =
     (let base = path_base (dev_container d)
      in if numeric_after base ''rblnfs'' then ClassRBLNFS
         else if numeric_after base ''rbln'' then ClassRBLN
         else if numeric_after base ''rsd'' then ClassRSD
         else ClassUnknown)"

definition device_index :: "device \<Rightarrow> string" where
  "device_index d =
     (let base = path_base (dev_container d)
      in case cut_prefix base ''rblnfs'' of Some rest \<Rightarrow> rest
         | None \<Rightarrow> (case cut_prefix base ''rbln'' of Some rest \<Rightarrow> rest
         | None \<Rightarrow> (case cut_prefix base ''rsd'' of Some rest \<Rightarrow> rest
         | None \<Rightarrow> base)))"

text \<open>The sort key; on devices of a class the conversion succeeds.\<close>

definition index_key :: "device \<Rightarrow> int" where
  "index_key d = (case atoi (device_index d) of Some i \<Rightarrow> i | None \<Rightarrow> 0)"

definition sort_devices_by_index :: "device list \<Rightarrow> device list" where
  "sort_devices_by_index ds = sort_key index_key ds"

definition devices_of_class :: "device_class \<Rightarrow> device list \<Rightarrow> device list" where
  "devices_of_class c ds = sort_devices_by_index (filter (\<lambda>d. parse_device_class d = c) ds)"

definition classify_devices :: "generator \<Rightarrow> discovery_result option \<Rightarrow> device list \<times> device list" where
  "classify_devices g result = (case result of None \<Rightarrow> ([], [])
    | Some r \<Rightarrow> if dev_disabled (devices (g_cfg g)) then ([], [])
               else (devices_of_class ClassRBLN (dr_devices r), devices_of_class ClassRSD (dr_devices r)))"

definition classify_rblnfs_devices :: "discovery_result option \<Rightarrow> device list" where
  "classify_rblnfs_devices result = (case result of None \<Rightarrow> []
    | Some r \<Rightarrow> devices_of_class ClassRBLNFS (dr_devices r))"

subsection \<open>Device entries\<close>

definition create_device_node :: "device \<Rightarrow> device_node" where
  "create_device_node d = \<lparr> dn_path = dev_container d, dn_host_path = dev_path d, dn_permissions = ''rw'' \<rparr>"

definition create_rsd_alias_node :: "device \<Rightarrow> device_node" where
  "create_rsd_alias_node d = (create_device_node d)\<lparr>dn_path := rsd_container_path\<rparr>"

definition device_entry :: "string \<Rightarrow> device_node list \<Rightarrow> cdi_device" where
  "device_entry name dns = \<lparr> cd_name = name, cd_annotations = [],
     cd_edits = no_edits\<lparr>ed_device_nodes := dns\<rparr> \<rparr>"

definition index_rsd_devices :: "device list \<Rightarrow> (32 word \<times> device) list" where
  "index_rsd_devices ds = foldl (\<lambda>m d. case parse_uint32 (device_index d) of
     None \<Rightarrow> m | Some i \<Rightarrow> AList.update i d m) [] ds"

definition resolve_rsd_for :: "generator \<Rightarrow> device \<Rightarrow> (32 word \<times> device) list \<Rightarrow> device option" where
  "resolve_rsd_for g npu rsd_by_index = (case parse_uint32 (device_index npu) of
      None \<Rightarrow> None
    | Some i \<Rightarrow> (case g_resolver g i of None \<Rightarrow> None | Some k \<Rightarrow> map_of rsd_by_index k))"

definition build_device_entries :: "generator \<Rightarrow> device list \<Rightarrow> device list \<Rightarrow> cdi_device list" where
  "build_device_entries g rbln rsd =
     (let idx = index_rsd_devices rsd;
          npus = map (\<lambda>d. device_entry (device_index d)
             (create_device_node d # (case resolve_rsd_for g d idx of Some r \<Rightarrow> [create_rsd_alias_node r] | None \<Rightarrow> []))) rbln;
          rsds = map (\<lambda>d. device_entry (rsd_entry_prefix @ device_index d) [create_rsd_alias_node d]) rsd;
          dns = map create_device_node rbln @ map create_device_node rsd
      in npus @ rsds @ [device_entry all_device_name dns, device_entry legacy_runtime_device_name dns])"

definition build_rblnfs_device_entries :: "device list \<Rightarrow> cdi_device list" where
  "build_rblnfs_device_entries ds =
     map (\<lambda>d. device_entry (rblnfs_entry_prefix @ device_index d) [create_device_node d]) ds
     @ [device_entry all_device_name (map create_device_node ds)]"

definition generate_rds :: "generator \<Rightarrow> discovery_result option \<Rightarrow> cdi_spec option" where
  "generate_rds g result =
     (let ds = classify_rblnfs_devices result
      in if ds = [] then None
         else Some \<lparr> sp_version = cdi_version,
                     sp_kind = cdi_vendor (cdi (g_cfg g)) @ ''/'' @ rds_class (rds (g_cfg g)),
                     sp_annotations = [], sp_devices = build_rblnfs_device_entries ds, sp_edits = no_edits \<rparr>)"

subsection \<open>Mounts\<close>

definition create_mount :: "generator \<Rightarrow> string \<Rightarrow> string \<Rightarrow> mount" where
  "create_mount g host cont = \<lparr> mnt_host_path = host, mnt_container_path = cont,
     mnt_options = [''ro'', ''nosuid'', ''nodev'', ''bind''] @
       (if selinux_enabled (selinux (g_cfg g)) \<and> mount_context (selinux (g_cfg g)) \<noteq> []
        then [mount_context (selinux (g_cfg g))] else []),
     mnt_type = [] \<rparr>"

definition create_library_mount :: "generator \<Rightarrow> library \<Rightarrow> mount" where
  "create_library_mount g l = create_mount g (lib_path l) (lib_container l)"

definition create_tool_mount :: "generator \<Rightarrow> tool \<Rightarrow> mount" where
  "create_tool_mount g t = create_mount g (tool_path t) (tool_container t)"

definition symlink_target_container_path :: "generator \<Rightarrow> library \<Rightarrow> string" where
  "symlink_target_container_path g l =
     (let cfg = g_cfg g
      in if container_path (libraries cfg) \<noteq> []
         then path_join [container_path (libraries cfg), path_base (lib_real l)]
         else driver_strip cfg (lib_real l))"

text \<open>The locals of \<open>buildCommonEdits\<close>.\<close>

record mount_state =
  ms_mounts :: "mount list"
  ms_mounted :: "string list"
  ms_lib_paths :: "string list"

definition add_mount :: "mount \<Rightarrow> mount_state \<Rightarrow> mount_state" where
  "add_mount m st = st\<lparr>ms_mounts := ms_mounts st @ [m], ms_mounted := mnt_container_path m # ms_mounted st\<rparr>"

definition mount_provider :: "generator \<Rightarrow> mount_state \<Rightarrow> rdma_provider \<Rightarrow> mount_state" where
  "mount_provider g st p =
     (let st1 = (if rp_container p \<notin> set (ms_mounted st)
                 then add_mount (create_mount g (rp_path p) (rp_container p)) st else st)
      in if rp_driver p \<noteq> [] \<and> rp_driver p \<notin> set (ms_mounted st1)
         then add_mount (create_mount g (rp_driver p) (rp_driver p)) st1 else st1)"

definition mount_library :: "generator \<Rightarrow> mount_state \<Rightarrow> library \<Rightarrow> mount_state" where
  "mount_library g st l =
     (if lib_real l \<noteq> [] \<and> lib_real l \<noteq> lib_path l
      then let cp = symlink_target_container_path g l
           in if cp \<notin> set (ms_mounted st)
              then (add_mount (create_mount g (lib_real l) cp) st)\<lparr>ms_lib_paths := List.insert (path_dir cp) (ms_lib_paths st)\<rparr>
              else st
      else if lib_container l \<notin> set (ms_mounted st)
           then (add_mount (create_library_mount g l) st)\<lparr>ms_lib_paths := List.insert (path_dir (lib_container l)) (ms_lib_paths st)\<rparr>
           else st)"

definition build_mounts :: "generator \<Rightarrow> discovery_result \<Rightarrow> mount_state" where
  "build_mounts g r = foldl (mount_library g)
     (foldl (mount_provider g) \<lparr> ms_mounts = [], ms_mounted = [], ms_lib_paths = [] \<rparr> (dr_rdma r)) (dr_libraries r)"

subsection \<open>Links and hooks\<close>

definition host_path_for_read :: "generator \<Rightarrow> string \<Rightarrow> string" where
  "host_path_for_read g path =
     (let cfg = g_cfg g
      in if search_root cfg = [] \<or> search_root cfg = ''/'' \<or> search_root cfg = driver_root cfg then path
         else path_join [search_root cfg, strip_root (driver_root cfg) path])"

definition link_exists_on_host :: "generator \<Rightarrow> string \<Rightarrow> string \<Rightarrow> bool" where
  "link_exists_on_host g dir name =
     (name \<noteq> [] \<and> (case g_link_exists g (host_path_for_read g (path_join [dir, name])) of
        Inl _ \<Rightarrow> False | Inr b \<Rightarrow> b))"

definition link_spec :: "string \<Rightarrow> string \<Rightarrow> string" where
  "link_spec target link = target @ ''::'' @ link"

definition library_links :: "generator \<Rightarrow> library \<Rightarrow> string list" where
  "library_links g l =
     (if lib_real l \<noteq> [] \<and> lib_real l \<noteq> lib_path l then []
      else case g_soname g (host_path_for_read g (lib_path l)) of
             None \<Rightarrow> []
           | Some soname \<Rightarrow>
               (let host_dir = path_dir (lib_path l); name = path_base (lib_path l);
                    dir = (if container_path (libraries (g_cfg g)) \<noteq> [] then container_path (libraries (g_cfg g))
                           else path_dir (lib_container l));
                    so_target = (if soname = [] then name else soname);
                    so_link = get_so_link so_target
                in (if soname \<noteq> name \<and> link_exists_on_host g host_dir soname
                    then [link_spec name (path_join [dir, soname])] else [])
                 @ (if so_link \<noteq> [] \<and> so_link \<noteq> so_target \<and> link_exists_on_host g host_dir so_link
                    then [link_spec so_target (path_join [dir, so_link])] else [])))"

definition compute_symlinks :: "generator \<Rightarrow> library list \<Rightarrow> string list" where
  "compute_symlinks g libs = dedup_by (\<lambda>s. s) [] (concat (map (library_links g) libs))"

definition create_symlink_hook :: "generator \<Rightarrow> string list \<Rightarrow> hook list" where
  "create_symlink_hook g links =
     (if links = [] then []
      else [\<lparr> hk_name = ''createContainer'', hk_path = hook_path (hooks (g_cfg g)),
              hk_args = [''rbln-cdi-hook'', ''create-symlinks''] @ concat (map (\<lambda>l. [''--link'', l]) links),
              hk_env = [] \<rparr>])"

definition bool_text :: "bool \<Rightarrow> string" where
  "bool_text b = (if b then ''true'' else ''false'')"

definition create_ldcache_hook :: "generator \<Rightarrow> string list \<Rightarrow> hook list" where
  "create_ldcache_hook g lib_paths =
     (if lib_paths = [] then []
      else [\<lparr> hk_name = ''createContainer'', hk_path = hook_path (hooks (g_cfg g)),
              hk_args = [''rbln-cdi-hook'', ''update-ldcache''] @ concat (map (\<lambda>f. [''--folder'', f]) (sort lib_paths)),
              hk_env = [''RBLN_CDI_HOOK_LDCONFIG_PATH='' @ ldconfig_path (hooks (g_cfg g)),
                        ''RBLN_CDI_HOOK_DEBUG='' @ bool_text (debug (g_cfg g))] \<rparr>])"

text \<open>The order of \<open>paths\<close> is that of a Go map's iteration; the insertion order stands for it.\<close>

definition create_env_vars :: "string list \<Rightarrow> bool \<Rightarrow> string list" where
  "create_env_vars paths has_hooks =
     (if \<not> has_hooks \<and> paths \<noteq> [] then [''LD_LIBRARY_PATH='' @ join_strs '':'' paths] else [])"

definition build_common_edits :: "generator \<Rightarrow> discovery_result option \<Rightarrow> container_edits" where
  "build_common_edits g result = (case result of None \<Rightarrow> no_edits
    | Some r \<Rightarrow>
        (let st = build_mounts g r;
             hks = create_symlink_hook g (compute_symlinks g (dr_libraries r)) @ create_ldcache_hook g (ms_lib_paths st)
         in no_edits\<lparr>ed_mounts := ms_mounts st @ map (create_tool_mount g) (dr_tools r),
                     ed_hooks := hks, ed_env := create_env_vars (ms_lib_paths st) (hks \<noteq> [])\<rparr>))"

subsection \<open>Generate\<close>

definition fold_common_edits :: "cdi_spec \<Rightarrow> cdi_spec" where
  "fold_common_edits s =
     (if is_container_edits_empty (sp_edits s) then s
      else let ds = map (\<lambda>d. if is_container_edits_empty (cd_edits d) then d\<lparr>cd_edits := sp_edits s\<rparr> else d) (sp_devices s)
           in s\<lparr>sp_devices := ds,
               sp_edits := (if list_ex (\<lambda>d. is_container_edits_empty (cd_edits d)) (sp_devices s)
                            then no_edits else sp_edits s)\<rparr>)"

definition generate :: "generator \<Rightarrow> discovery_result option \<Rightarrow> cdi_spec" where
  "generate g result =
     (let (rbln, rsd) = classify_devices g result;
          s = \<lparr> sp_version = cdi_version, sp_kind = cdi_vendor (cdi (g_cfg g)) @ ''/'' @ cdi_class (cdi (g_cfg g)),
                sp_annotations = [], sp_devices = build_device_entries g rbln rsd,
                sp_edits = build_common_edits g result \<rparr>
      in if dev_disabled (devices (g_cfg g)) then fold_common_edits s else s)"

subsection \<open>Classes and names\<close>

fun class_prefix :: "device_class \<Rightarrow> string" where
  "class_prefix ClassRBLNFS = ''rblnfs''"
| "class_prefix ClassRBLN = ''rbln''"
| "class_prefix ClassRSD = ''rsd''"
| "class_prefix ClassUnknown = ''''"

lemma atoi_letter: "\<lbrakk> c \<in> set s; c \<in> set ''abcdefghijklmnopqrstuvwxyz'' \<rbrakk> \<Longrightarrow> atoi s = None"
proof (rule atoi_nondigit)
  assume c: "c \<in> set ''abcdefghijklmnopqrstuvwxyz''"
  have "list_all (\<lambda>c. \<not> is_digit c \<and> c \<noteq> CHR ''-'' \<and> c \<noteq> CHR ''+'') ''abcdefghijklmnopqrstuvwxyz''"
    by code_simp
  with c show "\<not> is_digit c" "c \<noteq> CHR ''-''" "c \<noteq> CHR ''+''" unfolding list_all_iff by blast+
qed

lemma numeric_after_iff: "numeric_after base pre \<longleftrightarrow> (\<exists>rest. base = pre @ rest \<and> atoi rest \<noteq> None)"
  by (auto simp: numeric_after_def cut_prefix_Some_iff split: option.splits)

lemma device_class_base:
  assumes "parse_device_class d = c" "c \<noteq> ClassUnknown"
  shows "path_base (dev_container d) = class_prefix c @ device_index d \<and> atoi (device_index d) \<noteq> None"
proof -
  let ?b = "path_base (dev_container d)"
  from assms obtain rest where rest: "?b = class_prefix c @ rest" "atoi rest \<noteq> None"
    by (auto simp: parse_device_class_def Let_def numeric_after_iff split: if_splits)
  have "device_index d = rest"
  proof (cases c)
    case ClassRBLN
    have "\<not> has_prefix rest ''fs''"
      using rest(2) atoi_letter [of "CHR ''f''" rest] by (auto simp: has_prefix_iff)
    then have "cut_prefix ?b ''rblnfs'' = None"
      using rest(1) ClassRBLN by (simp add: cut_prefix_def)
    then show ?thesis using rest(1) ClassRBLN by (simp add: device_index_def cut_prefix_def Let_def)
  qed (use rest(1) assms(2) in \<open>simp_all add: device_index_def cut_prefix_def Let_def\<close>)
  with rest show ?thesis by simp
qed

lemma set_devices_of_class: "set (devices_of_class c ds) = {d \<in> set ds. parse_device_class d = c}"
  by (auto simp: devices_of_class_def sort_devices_by_index_def)

lemma device_index_nonempty: "\<lbrakk> parse_device_class d = c; c \<noteq> ClassUnknown \<rbrakk> \<Longrightarrow> device_index d \<noteq> []"
  using device_class_base by force

text \<open>Device nodes of one directory with different paths get different indexes within their class.\<close>

definition one_directory :: "device list \<Rightarrow> bool" where
  "one_directory ds \<longleftrightarrow> distinct (map (\<lambda>d. path_base (dev_container d)) ds)"

lemma class_index_distinct:
  assumes "one_directory ds" "c \<noteq> ClassUnknown"
  shows "distinct (map device_index (devices_of_class c ds))"
proof -
  let ?fs = "filter (\<lambda>d. parse_device_class d = c) ds"
  have "distinct (map (\<lambda>d. path_base (dev_container d)) ?fs)"
    using assms(1) by (simp add: one_directory_def distinct_map_filter)
  moreover have "map (\<lambda>d. path_base (dev_container d)) ?fs = map (\<lambda>i. class_prefix c @ i) (map device_index ?fs)"
    using device_class_base assms(2) by auto
  ultimately have "distinct (map device_index ?fs)" by (metis distinct_map)
  then have "distinct ?fs" "inj_on device_index (set ?fs)" by (simp_all add: distinct_map)
  then show ?thesis
    by (simp add: distinct_map devices_of_class_def sort_devices_by_index_def)
qed

lemma device_entry_simps [simp]:
  "cd_name (device_entry n ns) = n" "cd_edits (device_entry n ns) = no_edits\<lparr>ed_device_nodes := ns\<rparr>"
  by (simp_all add: device_entry_def)

lemma build_device_entries_names:
  "map cd_name (build_device_entries g rbln rsd) =
     map device_index rbln @ map (\<lambda>d. ''rsd'' @ device_index d) rsd @ [''all'', ''runtime'']"
  by (simp add: build_device_entries_def Let_def o_def rsd_entry_prefix_def all_device_name_def legacy_runtime_device_name_def)

lemma fold_common_edits_names: "map cd_name (sp_devices (fold_common_edits s)) = map cd_name (sp_devices s)"
  by (simp add: fold_common_edits_def Let_def o_def)

lemma generate_names:
  "map cd_name (sp_devices (generate g result)) =
     (case classify_devices g result of (rbln, rsd) \<Rightarrow>
       map device_index rbln @ map (\<lambda>d. ''rsd'' @ device_index d) rsd @ [''all'', ''runtime''])"
  by (simp add: generate_def Let_def fold_common_edits_names build_device_entries_names split: prod.split)



lemmas class_eval = parse_device_class_def device_index_def path_base_def split_last_def trim_right_char_def
  numeric_after_def cut_prefix_def atoi_def parse_uint32_def dec_digits_def dec_value_def is_digit_def
  digit_val_def Let_def

text \<open>A host with two NPUs of different groups, one RSD device of the second group and an RDS device.\<close>

definition two_npus :: discovery_result where
  "two_npus = \<lparr> dr_libraries =
       [\<lparr> lib_name = ''librbln-ml.so.1'', lib_path = ''/usr/lib/librbln-ml.so.1'',
          lib_container = ''/usr/lib/librbln-ml.so.1'', lib_real = '''', lib_type = LibraryTypeRBLN \<rparr>],
     dr_rdma = [], dr_tools = [],
     dr_devices = map (\<lambda>p. \<lparr> dev_path = p, dev_container = p \<rparr>)
       [''/dev/rbln10'', ''/dev/rbln2'', ''/dev/rsd7'', ''/dev/rblnfs0''] \<rparr>"

definition two_npus_gen :: "bool \<Rightarrow> generator" where
  "two_npus_gen dis = \<lparr> g_cfg = default_config\<lparr>devices := (devices default_config)\<lparr>dev_disabled := dis\<rparr>\<rparr>,
     g_resolver = resolve_rsd (CachedResolver [(10, 7), (2, 3)]),
     g_soname = (\<lambda>_. Some ''librbln-ml.so.1''), g_link_exists = (\<lambda>_. Inr True) \<rparr>"


subsection \<open>Selecting an NPU\<close>

lemma index_rsd_devices_snoc:
  "map_of (index_rsd_devices (ds @ [d])) k =
     (if parse_uint32 (device_index d) = Some k then Some d else map_of (index_rsd_devices ds) k)"
  by (cases "parse_uint32 (device_index d)") (simp_all add: index_rsd_devices_def AList.update_conv')

lemma index_rsd_devices_mem:
  "map_of (index_rsd_devices ds) k = Some s \<Longrightarrow> s \<in> set ds \<and> parse_uint32 (device_index s) = Some k"
proof (induction ds rule: rev_induct)
  case Nil
  then show ?case by (simp add: index_rsd_devices_def)
next
  case (snoc d ds)
  then show ?case by (simp add: index_rsd_devices_snoc split: if_splits)
qed

lemma index_rsd_devices_none:
  "map_of (index_rsd_devices ds) k = None \<longleftrightarrow> (\<forall>s \<in> set ds. parse_uint32 (device_index s) \<noteq> Some k)"
proof (induction ds rule: rev_induct)
  case Nil
  show ?case by (simp add: index_rsd_devices_def)
next
  case (snoc d ds)
  then show ?case by (simp add: index_rsd_devices_snoc)
qed

text \<open>The group the resolver gives for the NPU.\<close>

definition npu_group :: "generator \<Rightarrow> device \<Rightarrow> 32 word option" where
  "npu_group g d = Option.bind (parse_uint32 (device_index d)) (g_resolver g)"

lemma resolve_rsd_for_spec:
  "case resolve_rsd_for g d (index_rsd_devices ds) of
     Some s \<Rightarrow> s \<in> set ds \<and> npu_group g d \<noteq> None \<and> parse_uint32 (device_index s) = npu_group g d
   | None \<Rightarrow> npu_group g d = None \<or> (\<forall>s \<in> set ds. parse_uint32 (device_index s) \<noteq> npu_group g d)"
  using index_rsd_devices_mem [of ds] index_rsd_devices_none [of ds]
  by (auto simp: resolve_rsd_for_def npu_group_def split: option.splits)

text \<open>
  C1: Selecting NPU \<open>N\<close> gives the container the node of that NPU at its own path and, exactly when
  the resolver knows the NPU's group and that group's RSD device was discovered, this one device as
  \<open>/dev/rsd0\<close>, the only path the driver opens, whatever its index on the host.
\<close>

theorem npu_selection:
  assumes "\<not> dev_disabled (devices (g_cfg g))" "d \<in> set (dr_devices r)" "parse_device_class d = ClassRBLN"
  shows "\<exists>e \<in> set (sp_devices (generate g (Some r))). \<exists>groups. cd_name e = device_index d
    \<and> ed_device_nodes (cd_edits e) = create_device_node d # groups
    \<and> (if npu_group g d \<noteq> None \<and> (\<exists>s \<in> set (dr_devices r). parse_device_class s = ClassRSD
             \<and> parse_uint32 (device_index s) = npu_group g d)
       then \<exists>s \<in> set (dr_devices r). parse_device_class s = ClassRSD \<and> parse_uint32 (device_index s) = npu_group g d
              \<and> groups = [\<lparr> dn_path = ''/dev/rsd0'', dn_host_path = dev_path s, dn_permissions = ''rw'' \<rparr>]
       else groups = [])"
proof -
  let ?rbln = "devices_of_class ClassRBLN (dr_devices r)"
  let ?rsd = "devices_of_class ClassRSD (dr_devices r)"
  let ?o = "resolve_rsd_for g d (index_rsd_devices ?rsd)"
  let ?e = "device_entry (device_index d)
     (create_device_node d # (case ?o of Some s \<Rightarrow> [create_rsd_alias_node s] | None \<Rightarrow> []))"
  have d: "d \<in> set ?rbln" using assms(2,3) by (simp add: set_devices_of_class)
  have "sp_devices (generate g (Some r)) = build_device_entries g ?rbln ?rsd"
    using assms(1) by (simp add: generate_def classify_devices_def)
  then have "?e \<in> set (sp_devices (generate g (Some r)))"
    using d by (simp add: build_device_entries_def Let_def)
  moreover have "create_rsd_alias_node s = \<lparr> dn_path = ''/dev/rsd0'', dn_host_path = dev_path s, dn_permissions = ''rw'' \<rparr>" for s
    by (simp add: create_rsd_alias_node_def create_device_node_def rsd_container_path_def)
  ultimately show ?thesis
    using resolve_rsd_for_spec [of g d ?rsd]
    by (intro bexI [of _ ?e] exI [of _ "case ?o of Some s \<Rightarrow> [create_rsd_alias_node s] | None \<Rightarrow> []"])
       (auto simp: set_devices_of_class split: option.splits)
qed

theorem npu_selection_witness:
  "\<exists>e \<in> set (sp_devices (generate (two_npus_gen False) (Some two_npus))). cd_name e = ''10''
     \<and> map dn_path (ed_device_nodes (cd_edits e)) = [''/dev/rbln10'', ''/dev/rsd0'']
     \<and> map dn_host_path (ed_device_nodes (cd_edits e)) = [''/dev/rbln10'', ''/dev/rsd7'']"
proof -
  let ?d = "\<lparr> dev_path = ''/dev/rbln10'', dev_container = ''/dev/rbln10'' \<rparr>"
  let ?g = "two_npus_gen False"
  have h: "\<not> dev_disabled (devices (g_cfg ?g))" by (simp add: two_npus_gen_def)
  have d: "?d \<in> set (dr_devices two_npus)" by (simp add: two_npus_def)
  have cls: "parse_device_class ?d = ClassRBLN" by (simp add: class_eval)
  have grp2: "device_index ?d = ''10''" by (simp add: class_eval)
  moreover have "parse_uint32 ''10'' = Some 10" by (simp add: class_eval)
  ultimately have grp: "npu_group ?g ?d = Some 7" by (simp add: npu_group_def two_npus_gen_def)
  have only: "s \<in> set (dr_devices two_npus) \<and> parse_device_class s = ClassRSD \<longleftrightarrow>
      s = \<lparr> dev_path = ''/dev/rsd7'', dev_container = ''/dev/rsd7'' \<rparr>" for s
  proof -
    have "map parse_device_class (dr_devices two_npus) = [ClassRBLN, ClassRBLN, ClassRSD, ClassRBLNFS]"
      by (simp add: two_npus_def class_eval)
    then show ?thesis by (auto simp: two_npus_def)
  qed
  have idx: "parse_uint32 (device_index \<lparr> dev_path = ''/dev/rsd7'', dev_container = ''/dev/rsd7'' \<rparr>) = Some 7"
    by (simp add: class_eval)
  have ex: "\<exists>s \<in> set (dr_devices two_npus). parse_device_class s = ClassRSD \<and> parse_uint32 (device_index s) = npu_group ?g ?d"
    using only idx grp by metis
  from npu_selection [OF h d cls] obtain e groups where
    e: "e \<in> set (sp_devices (generate ?g (Some two_npus)))" "cd_name e = device_index ?d"
      "ed_device_nodes (cd_edits e) = create_device_node ?d # groups"
    and g: "\<exists>s \<in> set (dr_devices two_npus). parse_device_class s = ClassRSD \<and> parse_uint32 (device_index s) = npu_group ?g ?d
              \<and> groups = [\<lparr> dn_path = ''/dev/rsd0'', dn_host_path = dev_path s, dn_permissions = ''rw'' \<rparr>]"
    using ex grp by (auto split: if_splits)
  then obtain s where "s = \<lparr> dev_path = ''/dev/rsd7'', dev_container = ''/dev/rsd7'' \<rparr>"
    "groups = [\<lparr> dn_path = ''/dev/rsd0'', dn_host_path = dev_path s, dn_permissions = ''rw'' \<rparr>]"
    using only by blast
  then have "groups = [\<lparr> dn_path = ''/dev/rsd0'', dn_host_path = ''/dev/rsd7'', dn_permissions = ''rw'' \<rparr>]"
    by simp
  with e grp2 show ?thesis by (intro bexI [of _ e]) (simp_all add: create_device_node_def)
qed


subsection \<open>The common edits\<close>

definition mount_target :: "generator \<Rightarrow> library \<Rightarrow> string" where
  "mount_target g l = (if lib_real l \<noteq> [] \<and> lib_real l \<noteq> lib_path l then symlink_target_container_path g l else lib_container l)"

definition mount_source :: "library \<Rightarrow> string" where
  "mount_source l = (if lib_real l \<noteq> [] \<and> lib_real l \<noteq> lib_path l then lib_real l else lib_path l)"

definition mount_inv :: "mount_state \<Rightarrow> bool" where
  "mount_inv st \<longleftrightarrow> ms_mounted st = rev (map mnt_container_path (ms_mounts st))
     \<and> distinct (map mnt_container_path (ms_mounts st))"

lemma add_mount_simps [simp]:
  "ms_mounts (add_mount m st) = ms_mounts st @ [m]" "ms_mounted (add_mount m st) = mnt_container_path m # ms_mounted st"
  "ms_lib_paths (add_mount m st) = ms_lib_paths st"
  by (simp_all add: add_mount_def)

lemma create_mount_simps [simp]:
  "mnt_container_path (create_mount g h c) = c" "mnt_host_path (create_mount g h c) = h"
  by (simp_all add: create_mount_def)

lemma add_mount_inv: "\<lbrakk> mount_inv st; mnt_container_path m \<notin> set (ms_mounted st) \<rbrakk> \<Longrightarrow> mount_inv (add_mount m st)"
  by (simp add: mount_inv_def)

text \<open>A library's mount, in one form for both kinds of library.\<close>

lemma mount_library_alt:
  "mount_library g st l =
     (if mount_target g l \<in> set (ms_mounted st) then st
      else (add_mount (create_mount g (mount_source l) (mount_target g l)) st)
             \<lparr>ms_lib_paths := List.insert (path_dir (mount_target g l)) (ms_lib_paths st)\<rparr>)"
  by (simp add: mount_library_def mount_target_def mount_source_def create_library_mount_def Let_def)

lemma mount_library_inv: "mount_inv st \<Longrightarrow> mount_inv (mount_library g st l)"
  by (simp add: mount_library_alt mount_inv_def)

lemma mount_provider_inv: "mount_inv st \<Longrightarrow> mount_inv (mount_provider g st p)"
  by (simp add: mount_provider_def Let_def mount_inv_def)

lemma foldl_inv: "\<lbrakk> \<And>s x. I s \<Longrightarrow> I (f s x); I s \<rbrakk> \<Longrightarrow> I (foldl f s xs)"
  by (induction xs arbitrary: s) simp_all

lemma foldl_mono_set:
  assumes "\<And>s x. set (m s) \<subseteq> set (m (f s x))"
  shows "set (m s) \<subseteq> set (m (foldl f s xs))"
  using assms by (induction xs arbitrary: s) (simp, fastforce)

lemma foldl_covers:
  assumes mono: "\<And>s x. set (m s) \<subseteq> set (m (f s x))" and hit: "\<And>s. P x (m (f s x))" and x: "x \<in> set xs"
    and up: "\<And>a b. \<lbrakk> P x a; set a \<subseteq> set b \<rbrakk> \<Longrightarrow> P x b"
  shows "P x (m (foldl f s xs))"
proof -
  from x obtain us vs where xs: "xs = us @ x # vs" by (metis split_list)
  show ?thesis
    unfolding xs using up [OF hit foldl_mono_set [of m f, OF mono], of "foldl f s us" vs] by simp
qed

lemma mounted_mono:
  "set (ms_mounted st) \<subseteq> set (ms_mounted (mount_library g st l))"
  "set (ms_mounted st) \<subseteq> set (ms_mounted (mount_provider g st p))"
  by (auto simp: mount_library_alt mount_provider_def Let_def)

lemma mounted_hit:
  "mount_target g l \<in> set (ms_mounted (mount_library g st l))"
  "rp_container p \<in> set (ms_mounted (mount_provider g st p))
   \<and> (rp_driver p \<noteq> [] \<longrightarrow> rp_driver p \<in> set (ms_mounted (mount_provider g st p)))"
  by (auto simp: mount_library_alt mount_provider_def Let_def)

lemma build_mounts_inv: "mount_inv (build_mounts g r)"
  unfolding build_mounts_def
  by (intro foldl_inv [where I = mount_inv] mount_library_inv mount_provider_inv) (simp_all add: mount_inv_def)

lemma build_mounts_libraries: "l \<in> set (dr_libraries r) \<Longrightarrow> mount_target g l \<in> set (ms_mounted (build_mounts g r))"
  unfolding build_mounts_def
  by (rule foldl_covers [where P = "\<lambda>l ms. mount_target g l \<in> set ms" and m = ms_mounted and f = "mount_library g", OF mounted_mono(1) mounted_hit(1)]) auto

lemma build_mounts_providers:
  assumes "p \<in> set (dr_rdma r)"
  shows "rp_container p \<in> set (ms_mounted (build_mounts g r))
     \<and> (rp_driver p \<noteq> [] \<longrightarrow> rp_driver p \<in> set (ms_mounted (build_mounts g r)))"
proof -
  let ?st = "foldl (mount_provider g) \<lparr> ms_mounts = [], ms_mounted = [], ms_lib_paths = [] \<rparr> (dr_rdma r)"
  have "rp_container p \<in> set (ms_mounted ?st) \<and> (rp_driver p \<noteq> [] \<longrightarrow> rp_driver p \<in> set (ms_mounted ?st))"
    by (rule foldl_covers [where P = "\<lambda>p ms. rp_container p \<in> set ms \<and> (rp_driver p \<noteq> [] \<longrightarrow> rp_driver p \<in> set ms)"
          and m = ms_mounted and f = "mount_provider g", OF mounted_mono(2) mounted_hit(2) assms]) auto
  then show ?thesis
    unfolding build_mounts_def using foldl_mono_set [of ms_mounted "mount_library g" ?st "dr_libraries r", OF mounted_mono(1)]
    by blast
qed

lemma build_common_edits_simps [simp]:
  "ed_mounts (build_common_edits g (Some r)) = ms_mounts (build_mounts g r) @ map (create_tool_mount g) (dr_tools r)"
  "ed_hooks (build_common_edits g (Some r)) =
     create_symlink_hook g (compute_symlinks g (dr_libraries r)) @ create_ldcache_hook g (ms_lib_paths (build_mounts g r))"
  "ed_device_nodes (build_common_edits g result) = []"
  "ed_intel_rdt (build_common_edits g result) = None" "ed_gids (build_common_edits g result) = []"
  by (auto simp: build_common_edits_def Let_def no_edits_def split: option.splits)



text \<open>
  The two hooks come in the order the loader cache needs (links first, then the cache), each at
  most once, and no environment variable is ever set: whenever there is a library directory to put
  into \<open>LD_LIBRARY_PATH\<close> there is also the cache hook that makes the code leave it out.
\<close>

theorem hooks_ordered_no_env:
  "map (\<lambda>h. take 2 (hk_args h)) (ed_hooks (build_common_edits g result)) \<in>
     {[], [[''rbln-cdi-hook'', ''create-symlinks'']], [[''rbln-cdi-hook'', ''update-ldcache'']],
      [[''rbln-cdi-hook'', ''create-symlinks''], [''rbln-cdi-hook'', ''update-ldcache'']]}
   \<and> ed_env (build_common_edits g result) = []"
proof (cases result)
  case None
  then show ?thesis by (simp add: build_common_edits_def no_edits_def)
next
  case (Some r)
  have "ed_env (build_common_edits g (Some r)) = []"
    by (simp add: build_common_edits_def Let_def create_env_vars_def create_ldcache_hook_def no_edits_def)
  then show ?thesis unfolding Some by (simp add: create_symlink_hook_def create_ldcache_hook_def)
qed



text \<open>
  Without the Kubernetes switch nothing is folded: a host on which no device was discovered gets
  entries with empty edits next to non-empty common edits, which strict parsers reject.
\<close>

lemma generate_no_devices_empty_entries:
  assumes "\<not> dev_disabled (devices (g_cfg g))"
    and "\<forall>d \<in> set (dr_devices r). parse_device_class d \<notin> {ClassRBLN, ClassRSD}"
  shows "map cd_edits (sp_devices (generate g (Some r))) = [no_edits, no_edits]"
proof -
  have "filter (\<lambda>d. parse_device_class d = c) (dr_devices r) = []" if "c \<in> {ClassRBLN, ClassRSD}" for c
    using assms(2) that by (auto simp: filter_empty_conv)
  then have "classify_devices g (Some r) = ([], [])"
    using assms(1) by (simp add: classify_devices_def devices_of_class_def sort_devices_by_index_def)
  moreover have "no_edits\<lparr>ed_device_nodes := []\<rparr> = no_edits" by (simp add: no_edits_def)
  ultimately show ?thesis using assms(1) by (simp add: generate_def build_device_entries_def)
qed

subsection \<open>The RDS class and validity\<close>

text \<open>
  C12: The RDS specification exists exactly when an RDS device was discovered, does not depend on the
  Kubernetes switch, and has one entry per device with that device's own node alone, plus \<open>all\<close> with
  every node; no entry is empty.
\<close>

theorem generate_rds_exact:
  "(generate_rds g (Some r) = None \<longleftrightarrow> (\<forall>d \<in> set (dr_devices r). parse_device_class d \<noteq> ClassRBLNFS))
   \<and> generate_rds g (Some r) = generate_rds (g\<lparr>g_cfg := (g_cfg g)\<lparr>devices := dc\<rparr>\<rparr>) (Some r)
   \<and> (\<forall>s. generate_rds g (Some r) = Some s \<longrightarrow> sp_edits s = no_edits
        \<and> sp_devices s = map (\<lambda>d. device_entry (''rblnfs'' @ device_index d) [create_device_node d])
                           (devices_of_class ClassRBLNFS (dr_devices r))
                         @ [device_entry ''all'' (map create_device_node (devices_of_class ClassRBLNFS (dr_devices r)))]
        \<and> (\<forall>e \<in> set (sp_devices s). cd_edits e \<noteq> no_edits))"
proof -
  let ?ds = "devices_of_class ClassRBLNFS (dr_devices r)"
  have "?ds = [] \<longleftrightarrow> (\<forall>d \<in> set (dr_devices r). parse_device_class d \<noteq> ClassRBLNFS)"
    using set_devices_of_class [of ClassRBLNFS "dr_devices r"] by (metis (mono_tags, lifting) empty_Collect_eq set_empty)
  then show ?thesis
    by (auto simp: generate_rds_def classify_rblnfs_devices_def build_rblnfs_device_entries_def Let_def
        rblnfs_entry_prefix_def all_device_name_def device_entry_def no_edits_def)
qed

lemma plain_no_edits [simp]: "plain_edits no_edits" "plain_edits (e\<lparr>ed_device_nodes := ns\<rparr>) = plain_edits e"
  by (simp_all add: plain_edits_def no_edits_def)

lemma plain_common_edits [simp]: "plain_edits (build_common_edits g result)"
  by (simp add: plain_edits_def)

lemma plain_fold: "plain_spec s \<Longrightarrow> plain_spec (fold_common_edits s)"
  by (auto simp: plain_spec_def fold_common_edits_def Let_def list_all_iff)

text \<open>
  C13: Everything the generator produces passes the validator and survives the YAML view without
  loss: the fields the YAML wrapper leaves out are never set.
\<close>

theorem generated_valid_and_lossless:
  "validate (Some (generate g result)) = None \<and> of_yaml_spec (to_yaml_spec (generate g result)) = generate g result
   \<and> (\<forall>s. generate_rds g result = Some s \<longrightarrow> validate (Some s) = None \<and> of_yaml_spec (to_yaml_spec s) = s)"
proof (intro conjI allI impI)
  have names: "cd_name d \<noteq> []" if "d \<in> set (sp_devices (generate g result))" for d
  proof -
    obtain rbln rsd where c: "classify_devices g result = (rbln, rsd)" by fastforce
    then have "\<forall>d \<in> set rbln. parse_device_class d = ClassRBLN"
      by (auto simp: classify_devices_def set_devices_of_class split: option.splits if_splits)
    then have "\<forall>d \<in> set rbln. device_index d \<noteq> []" using device_index_nonempty by blast
    moreover have "cd_name d \<in> set (map cd_name (sp_devices (generate g result)))" using that by simp
    ultimately show ?thesis unfolding generate_names c by auto
  qed
  have slash: "str_contains (a @ CHR ''/'' # b) ''/''" for a b
    by (auto simp: str_contains_iff)
  have "sp_version (generate g result) \<noteq> []" "str_contains (sp_kind (generate g result)) ''/''"
    by (auto simp: generate_def fold_common_edits_def Let_def cdi_version_def slash split: prod.split)
  then show "validate (Some (generate g result)) = None" using names by (simp add: validate_accepts)
  have "plain_spec (generate g result)"
    by (auto simp: generate_def Let_def plain_spec_def build_device_entries_def list_all_iff
        intro!: plain_fold [unfolded plain_spec_def list_all_iff] split: prod.split)
  then show "of_yaml_spec (to_yaml_spec (generate g result)) = generate g result" by (rule yaml_spec_roundtrip)
next
  fix s assume s: "generate_rds g result = Some s"
  have slash: "str_contains (a @ CHR ''/'' # b) ''/''" for a b
    by (auto simp: str_contains_iff)
  show "validate (Some s) = None"
    using s by (auto simp: generate_rds_def Let_def validate_accepts cdi_version_def slash build_rblnfs_device_entries_def
        rblnfs_entry_prefix_def all_device_name_def split: if_splits)
  have "plain_spec s"
    using s by (auto simp: generate_rds_def Let_def plain_spec_def build_rblnfs_device_entries_def list_all_iff split: if_splits)
  then show "of_yaml_spec (to_yaml_spec s) = s" by (rule yaml_spec_roundtrip)
qed



theorem generate_rds_exact_witness: "generate_rds (two_npus_gen True) (Some two_npus) \<noteq> None"
proof -
  let ?d = "\<lparr> dev_path = ''/dev/rblnfs0'', dev_container = ''/dev/rblnfs0'' \<rparr>"
  have "?d \<in> set (dr_devices two_npus)" by (simp add: two_npus_def)
  moreover have "parse_device_class ?d = ClassRBLNFS" by (simp add: class_eval)
  ultimately show ?thesis using generate_rds_exact [of "two_npus_gen True" two_npus] by blast
qed

theorem generated_valid_and_lossless_witness:
  "validate (Some (generate (two_npus_gen False) (Some two_npus))) = None"
  using generated_valid_and_lossless [of "two_npus_gen False" "Some two_npus"] by blast

end
