(* ===== verification/Fs_Tree.thy ===== *)
theory Fs_Tree imports Posix_FS begin

text \<open>
  Well-formed file systems: everything is in a directory. Every call keeps that, whatever its arguments,
  and the interface \<open>call_invariant\<close> carries such a property from the calls to the operations of
  the components, which prove it once for every property that the calls keep.
\<close>

subsection \<open>Trees\<close>

definition fs_tree :: "fs \<Rightarrow> bool" where
  "fs_tree fs \<longleftrightarrow> list_all (\<lambda>(k, n). k \<noteq> [] \<and> node_at fs (butlast k) = Some Dir) fs"

lemma node_at_root [simp]: "node_at fs [] = Some Dir"
  by (simp add: node_at_def)

lemma fs_tree_iff:
  "fs_tree fs \<longleftrightarrow> [] \<notin> fst ` set fs \<and> (\<forall>k. k \<noteq> [] \<longrightarrow> node_at fs k \<noteq> None \<longrightarrow> node_at fs (butlast k) = Some Dir)"
proof -
  have m: "node_at fs k \<noteq> None \<longleftrightarrow> k \<in> fst ` set fs" if "k \<noteq> []" for k
    using that by (simp add: node_at_def map_of_eq_None_iff)
  have "fs_tree fs \<longleftrightarrow> (\<forall>k \<in> fst ` set fs. k \<noteq> [] \<and> node_at fs (butlast k) = Some Dir)"
    by (simp add: fs_tree_def list_all_iff case_prod_unfold)
  with m show ?thesis by metis
qed

lemma tree_parent: "\<lbrakk> fs_tree fs; node_at fs k = Some n; k \<noteq> [] \<rbrakk> \<Longrightarrow> node_at fs (butlast k) = Some Dir"
  by (simp add: fs_tree_iff)

lemma tree_dir_parent: "\<lbrakk> fs_tree fs; node_at fs k = Some Dir \<rbrakk> \<Longrightarrow> node_at fs (butlast k) = Some Dir"
  by (cases "k = []") (simp_all add: tree_parent)

lemma set_node_keys: "fst ` set (set_node k n fs) = insert k (fst ` set fs)"
  by (simp add: set_node_def dom_update)

lemma tree_set:
  assumes "fs_tree fs" "k \<noteq> []" "node_at fs (butlast k) = Some Dir" "node_at fs k \<noteq> Some Dir"
  shows "fs_tree (set_node k n fs)"
proof -
  have "butlast k \<noteq> k" using assms(2) by (metis append_butlast_last_id append_self_conv not_Cons_self2)
  moreover have "node_at fs (butlast q) \<noteq> None \<and> butlast q \<noteq> k" if "node_at fs q \<noteq> None" "q \<noteq> []" for q
    using that assms(1,4) tree_parent by fastforce
  ultimately show ?thesis using assms
    by (auto simp: fs_tree_iff node_at_set set_node_keys)
qed

lemma tree_del:
  assumes "fs_tree fs" "node_at fs k = Some Dir \<longrightarrow> k \<noteq> [] \<and> children fs k = []"
  shows "fs_tree (del_node k fs)"
proof (cases "k = []")
  case True
  with assms(2) show ?thesis by simp
next
  case False
  have nc: "butlast q \<noteq> k" if q: "node_at fs q \<noteq> None" "q \<noteq> []" for q
  proof
    assume k: "butlast q = k"
    then have "node_at fs k = Some Dir" using q assms(1) tree_parent by blast
    then have "children fs k = []" using assms(2) by simp
    moreover obtain n where "(q, n) \<in> set fs" using q by (auto simp: node_at_def dest: map_of_SomeD)
    then have "last q \<in> set (children fs k)" using k q(2) by (force simp: children_def)
    ultimately show False by simp
  qed
  have "node_at (del_node k fs) (butlast q) = Some Dir" if q: "q \<noteq> []" "node_at (del_node k fs) q \<noteq> None" for q
  proof -
    have "node_at fs q \<noteq> None" using q(2) by (simp add: node_at_del [OF False] split: if_splits)
    with nc [OF this q(1)] assms(1) q(1) show ?thesis by (simp add: node_at_del [OF False] fs_tree_iff)
  qed
  moreover have "[] \<notin> fst ` set (del_node k fs)" using assms(1) by (auto simp: fs_tree_iff del_node_def AList.delete_eq)
  ultimately show ?thesis by (simp add: fs_tree_iff)
qed

text \<open>A walk that starts in a directory ends at a place in a directory.\<close>

lemma walk_in_dir:
  "\<lbrakk> fs_tree fs; node_at fs done = Some Dir; walk fs fuel follow done cs = Inr q \<rbrakk> \<Longrightarrow> node_at fs (butlast q) = Some Dir"
proof (induction fs fuel follow "done" cs rule: walk.induct)
  case (1 fs fuel follow "done")
  then show ?case by (simp add: tree_dir_parent)
next
  case (2 fs fuel follow "done" c cs)
  note pr = "2.prems"
  consider "c = [] \<or> c = ''.''" | "\<not> (c = [] \<or> c = ''.'')" "c = ''..''" | "\<not> (c = [] \<or> c = ''.'')" "c \<noteq> ''..''" by blast
  then show ?case
  proof cases
    case 1
    with "2.IH"(1) [OF 1 pr(1,2)] pr(3) show ?thesis by auto
  next
    case 2
    with "2.IH"(2) [OF 2 pr(1) tree_dir_parent [OF pr(1,2)]] pr(3) show ?thesis by auto
  next
    case 3
    show ?thesis
    proof (cases "node_at fs (done @ [c])")
      case None
      with 3 pr show ?thesis by (auto split: if_splits)
    next
      case (Some n)
      show ?thesis
      proof (cases n)
        case Dir
        with Some "2.IH"(3) [OF 3 Some Dir pr(1)] 3 pr(3) show ?thesis by simp
      next
        case (Sym t)
        show ?thesis
        proof (cases "cs = [] \<and> \<not> follow \<or> fuel = 0")
          case True
          with Some Sym 3 pr show ?thesis by (auto split: if_splits)
        next
          case False
          then have f: "\<not> (cs = [] \<and> \<not> follow)" "fuel \<noteq> 0" by auto
          have "node_at fs (if is_abs t then [] else done) = Some Dir" using pr(2) by simp
          with Some Sym 3 f "2.IH"(4) [OF 3 Some Sym f pr(1)] pr(3) show ?thesis by (simp split: if_split_asm)
        qed
      qed (use Some 3 pr in \<open>auto split: if_splits\<close>)
    qed
  qed
qed

lemma resolve_in_dir: "\<lbrakk> fs_tree fs; resolve fs follow p = Inr q \<rbrakk> \<Longrightarrow> node_at fs (butlast q) = Some Dir"
  unfolding resolve_def by (erule walk_in_dir) simp_all

lemma tree_put:
  "\<lbrakk> fs_tree fs; resolve fs follow p = Inr k; node_at fs k \<noteq> Some Dir \<rbrakk> \<Longrightarrow> fs_tree (set_node k n fs)"
  by (rule tree_set) (auto simp: resolve_in_dir)

lemma tree_put_existing: "\<lbrakk> fs_tree fs; node_at fs k = Some m; m \<noteq> Dir \<rbrakk> \<Longrightarrow> fs_tree (set_node k n fs)"
  by (rule tree_set) (auto intro: tree_parent)

subsection \<open>Every call keeps a tree\<close>

lemma tree_write: "fs_tree fs \<Longrightarrow> fs_tree (snd (fs_write p b m fs))"
  by (auto simp: fs_write_def intro: tree_put tree_put_existing split: sum.split option.split node.split)

lemma tree_remove: "fs_tree fs \<Longrightarrow> fs_tree (snd (fs_remove p fs))"
  by (auto simp: fs_remove_def intro: tree_del split: sum.split option.split node.split)

lemma tree_symlink: "fs_tree fs \<Longrightarrow> fs_tree (snd (fs_symlink t p fs))"
  by (auto simp: fs_symlink_def intro: tree_put split: sum.split option.split)

lemma tree_open_create: "fs_tree fs \<Longrightarrow> fs_tree (snd (fs_open_create p m fs))"
  by (auto simp: fs_open_create_def intro: tree_put split: sum.split option.split node.split)

lemma tree_open_trunc: "fs_tree fs \<Longrightarrow> fs_tree (snd (fs_open_trunc p m fs))"
  by (auto simp: fs_open_trunc_def intro: tree_put tree_put_existing split: sum.split option.split node.split)

lemma tree_fd: "fs_tree fs \<Longrightarrow> fs_tree (snd (fd_append k b fs))" "fs_tree fs \<Longrightarrow> fs_tree (snd (fd_chmod k m fs))"
  "fs_tree fs \<Longrightarrow> fs_tree (snd (fd_truncate k fs))"
  by (auto simp: fd_append_def fd_chmod_def fd_truncate_def intro: tree_put_existing split: option.split node.split)

lemma tree_rename: "fs_tree fs \<Longrightarrow> fs_tree (snd (fs_rename a b fs))"
proof -
  assume t: "fs_tree fs"
  have "fs_tree (set_node kb n (del_node ka fs))"
    if ka: "resolve fs False a = Inr ka" "node_at fs ka = Some n" "n \<noteq> Dir"
      and kb: "resolve fs False b = Inr kb" "node_at fs kb \<noteq> Some Dir" "ka \<noteq> kb" for ka kb n
  proof (rule tree_set)
    have ne: "ka \<noteq> []" using ka(2,3) by auto
    show "fs_tree (del_node ka fs)" using t ka(2,3) by (auto intro: tree_del)
    show "kb \<noteq> []" using kb(2) by auto
    have "node_at fs (butlast kb) = Some Dir" by (rule resolve_in_dir [OF t kb(1)])
    with ka(2,3) show "node_at (del_node ka fs) (butlast kb) = Some Dir" by (auto simp: node_at_del [OF ne])
    show "node_at (del_node ka fs) kb \<noteq> Some Dir" using kb(2) by (simp add: node_at_del [OF ne])
  qed
  with t show ?thesis by (auto simp: fs_rename_def split: sum.split option.split node.split)
qed

lemma tree_mkdir: "fs_tree fs \<Longrightarrow> fs_tree (snd (fs_mkdir_all p fs))"
proof -
  have "fs_tree fs \<Longrightarrow> fs_tree (snd (mkdir_each done cs fs))" for "done" cs
  proof (induction "done" cs fs rule: mkdir_each.induct)
    case (2 "done" c cs fs)
    have new: "fs_tree (set_node k Dir fs)" if "resolve fs False q = Inr k" "node_at fs k = None" for q k
      using tree_put [OF "2.prems" that(1)] that(2) by simp
    show ?case using 2 new by (auto simp: Let_def split: sum.splits node.splits errno.splits if_splits)
  qed simp
  then show "fs_tree fs \<Longrightarrow> fs_tree (snd (fs_mkdir_all p fs))" by (simp add: fs_mkdir_all_def)
qed

lemma tree_create_temp: "fs_tree fs \<Longrightarrow> fs_tree (snd (fs_create_temp d x sfxs fs))"
  by (induction sfxs) (auto simp: Let_def intro: tree_put split: sum.split option.split)

subsection \<open>Properties that every call keeps\<close>

text \<open>A property of the present file system and of every one a process could see since the history \<open>h\<close>.\<close>

definition always :: "(fs \<Rightarrow> bool) \<Rightarrow> fs list \<Rightarrow> os \<Rightarrow> bool" where
  "always P h s \<longleftrightarrow> P (nodes s) \<and> (\<exists>hs. history s = h @ hs \<and> list_all P hs)"

lemma always_start [simp]: "always P (history s) s \<longleftrightarrow> P (nodes s)"
  by (simp add: always_def)

lemma always_now: "always P h s \<Longrightarrow> P (nodes s)"
  by (simp add: always_def)

text \<open>The calls that change files but make no directory; \<open>os.MkdirAll\<close> has its own law.\<close>

locale file_invariant =
  fixes P :: "fs \<Rightarrow> bool"
  assumes on_write: "P fs \<Longrightarrow> P (snd (fs_write p b m fs))"
    and on_remove: "P fs \<Longrightarrow> P (snd (fs_remove p fs))"
    and on_rename: "P fs \<Longrightarrow> P (snd (fs_rename p q fs))"
    and on_symlink: "P fs \<Longrightarrow> P (snd (fs_symlink t p fs))"
    and on_create_temp: "P fs \<Longrightarrow> P (snd (fs_create_temp d x sfxs fs))"
    and on_open_create: "P fs \<Longrightarrow> P (snd (fs_open_create p m fs))"
    and on_open_trunc: "P fs \<Longrightarrow> P (snd (fs_open_trunc p m fs))"
    and on_append: "P fs \<Longrightarrow> P (snd (fd_append k b fs))"
    and on_chmod: "P fs \<Longrightarrow> P (snd (fd_chmod k m fs))"
    and on_truncate: "P fs \<Longrightarrow> P (snd (fd_truncate k fs))"
begin

text \<open>A query changes nothing, and a call may also fail, which changes nothing either.\<close>

lemma keeps_query: "\<lbrakk> query f s = (r, s'); always P h s \<rbrakk> \<Longrightarrow> always P h s'"
  using query_snd [of f s r s'] by (simp add: always_def)

lemma keeps_effect: "\<lbrakk> effect f s = (r, s'); always P h s; \<And>fs. P fs \<Longrightarrow> P (snd (f fs)) \<rbrakk> \<Longrightarrow> always P h s'"
proof (rule effect_cases [of f s])
  fix r' n' t
  assume e: "effect f s = (r', t)" "f (nodes s) = (r', n')" "nodes t = n'" "history t = history s @ [n']"
    and a: "effect f s = (r, s')" "always P h s" and f: "\<And>fs. P fs \<Longrightarrow> P (snd (f fs))"
  have "P n'" using f [of "nodes s"] e(2) a(2) by (simp add: always_def)
  then show "always P h s'" using e a by (auto simp: always_def)
qed (auto simp: always_def)

lemma keeps_files:
  "\<lbrakk> effect (fs_write p b m) s = (rw, s'); always P h s \<rbrakk> \<Longrightarrow> always P h s'"
  "\<lbrakk> effect (fs_remove p) s = (ru, s'); always P h s \<rbrakk> \<Longrightarrow> always P h s'"
  "\<lbrakk> effect (fs_rename p q) s = (ru, s'); always P h s \<rbrakk> \<Longrightarrow> always P h s'"
  "\<lbrakk> effect (fs_symlink t p) s = (ru, s'); always P h s \<rbrakk> \<Longrightarrow> always P h s'"
  "\<lbrakk> effect (fs_create_temp d x sfxs) s = (rt, s'); always P h s \<rbrakk> \<Longrightarrow> always P h s'"
  "\<lbrakk> effect (fs_open_create p m) s = (rk, s'); always P h s \<rbrakk> \<Longrightarrow> always P h s'"
  "\<lbrakk> effect (fs_open_trunc p m) s = (rk, s'); always P h s \<rbrakk> \<Longrightarrow> always P h s'"
  "\<lbrakk> effect (fd_append k b) s = (ru, s'); always P h s \<rbrakk> \<Longrightarrow> always P h s'"
  "\<lbrakk> effect (fd_chmod k m) s = (ru, s'); always P h s \<rbrakk> \<Longrightarrow> always P h s'"
  "\<lbrakk> effect (fd_truncate k) s = (ru, s'); always P h s \<rbrakk> \<Longrightarrow> always P h s'"
  by (erule keeps_effect; simp add: on_write on_remove on_rename on_symlink on_create_temp on_open_create on_open_trunc on_append on_chmod on_truncate)+

text \<open>A call whose result is dropped.\<close>

lemma keeps_removed: "always P h s \<Longrightarrow> always P h (snd (effect (fs_remove p) s))"
  using keeps_files(2) by (cases "effect (fs_remove p) s") auto

end

locale call_invariant = file_invariant +
  assumes on_mkdir: "P fs \<Longrightarrow> P (snd (fs_mkdir_all p fs))"
begin

lemma keeps_mkdir: "\<lbrakk> effect (fs_mkdir_all p) s = (r, s'); always P h s \<rbrakk> \<Longrightarrow> always P h s'"
  by (erule keeps_effect) (simp_all add: on_mkdir)

lemmas keeps_calls = keeps_mkdir keeps_files

lemmas keeps = keeps_query keeps_calls

end

interpretation tree: call_invariant fs_tree
  by unfold_locales (simp_all add: tree_write tree_remove tree_rename tree_symlink tree_mkdir tree_create_temp tree_open_create
      tree_open_trunc tree_fd)

subsection \<open>Names that are no directories\<close>

definition no_dirs :: "(string \<Rightarrow> bool) \<Rightarrow> fs \<Rightarrow> bool" where
  "no_dirs own fs \<longleftrightarrow> (\<forall>k. own_key own k \<longrightarrow> node_at fs k \<noteq> Some Dir)"

lemma no_dirs_set: "\<lbrakk> no_dirs own fs; own_key own k \<longrightarrow> n \<noteq> Dir \<rbrakk> \<Longrightarrow> no_dirs own (set_node k n fs)"
  by (cases "k = []") (auto simp: no_dirs_def node_at_set, auto simp: node_at_def own_key_def set_node_def update_conv')

lemma no_dirs_del: "no_dirs own fs \<Longrightarrow> no_dirs own (del_node k fs)"
  by (cases "k = []") (auto simp: no_dirs_def node_at_del, auto simp: node_at_def own_key_def del_node_def delete_conv')

lemma no_dirs_create_temp: "no_dirs own fs \<Longrightarrow> no_dirs own (snd (fs_create_temp d x sfxs fs))"
  by (induction sfxs) (auto simp: Let_def intro: no_dirs_set split: sum.split option.split)

interpretation nodirs: file_invariant "no_dirs own" for own
  by unfold_locales (auto simp: fs_write_def fs_remove_def fs_rename_def fs_symlink_def fs_open_create_def fs_open_trunc_def
      fd_append_def fd_chmod_def fd_truncate_def intro: no_dirs_set no_dirs_del no_dirs_create_temp
      split: sum.split option.split node.split)

text \<open>A directory is made only under the names in its path.\<close>

lemma set_norm_comps: "set (norm_comps True acc cs) \<subseteq> set acc \<union> set cs"
  by (induction "True" acc cs rule: norm_comps.induct) (auto split: list.splits if_splits)

lemma mkdir_each_no_dirs:
  "\<lbrakk> no_dirs own fs; list_all normal_comp (done @ cs); \<forall>c \<in> set cs. \<not> own c \<rbrakk> \<Longrightarrow> no_dirs own (snd (mkdir_each done cs fs))"
proof (induction "done" cs fs rule: mkdir_each.induct)
  case (2 "done" c cs fs)
  let ?q = "path_of True (done @ [c])"
  have q: "path_comps ?q = done @ [c]"
    using "2.prems"(2) normal_comps_ok [of "done @ [c]"] by (simp add: path_comps_path_of_True)
  have c: "c \<noteq> ''.''" "c \<noteq> ''..''" using "2.prems"(2) by (simp_all add: normal_comp_def)
  have new: "no_dirs own (set_node k Dir fs)" if "resolve fs False ?q = Inr k" for k
    using resolve_last [OF that q c] "2.prems"(1,3) by (auto simp: own_key_def intro!: no_dirs_set)
  have rest: "list_all normal_comp ((done @ [c]) @ cs)" "\<forall>c \<in> set cs. \<not> own c" using "2.prems" by simp_all
  show ?case
    using "2.IH" "2.prems"(1) rest new by (auto simp: Let_def split: sum.splits node.splits errno.splits if_splits)
qed simp

lemma mkdir_no_dirs:
  assumes "no_dirs own fs" "is_abs p" "\<forall>c \<in> set (path_comps p). \<not> own c"
  shows "no_dirs own (snd (fs_mkdir_all p fs))"
proof -
  obtain cs where cs: "list_all normal_comp cs" "clean p = path_of True cs" "cs = norm_comps True [] (path_comps p)"
    using assms(2) by (rule clean_abs_form)
  have "path_comps (clean p) = cs" using cs(1,2) normal_comps_ok by (simp add: path_comps_path_of_True)
  moreover have "\<forall>c \<in> set cs. \<not> own c" using set_norm_comps [of "[]" "path_comps p"] cs(3) assms(3) by auto
  ultimately show ?thesis using mkdir_each_no_dirs [of own fs "[]" cs] assms(1) cs(1) by (simp add: fs_mkdir_all_def)
qed

end
