(* ===== verification/Writer.thy ===== *)
theory Writer imports Cdi_Spec Fs_Tree begin

text \<open>
  The CDI writer of \<open>internal/cdi/writer.go\<close> over the state of calls with faults. The two
  marshallers are parameters. The kernel may take a buffer in pieces: \<open>pieces data\<close> are the parts
  the successive \<open>write\<close> calls accept, so the history holds every partially written file another
  process could see. The suffixes of \<open>os.CreateTemp\<close> are a parameter too.
\<close>

record marshallers =
  marshal_yaml :: "yaml_spec \<Rightarrow> gerr + string"
  marshal_json :: "cdi_spec \<Rightarrow> gerr + string"

definition unsupported_format :: "string \<Rightarrow> gerr" where
  "unsupported_format f = WrapW (''unsupported format: '' @ f @ '' (expected yaml or json)'') (Sentinel ErrWriteFailed)"

text \<open>\<open>WriteToWriter\<close>: the bytes handed to the \<open>io.Writer\<close>, or the error before it is called.\<close>

definition write_to_writer :: "marshallers \<Rightarrow> cdi_spec option \<Rightarrow> string \<Rightarrow> gerr + string" where
  "write_to_writer m so f = (case so of
      None \<Rightarrow> Inl (WrapW ''spec is nil'' (Sentinel ErrInvalidCDISpec))
    | Some s \<Rightarrow>
        (let r = (if f = ''yaml'' then Some (marshal_yaml m (to_yaml_spec s))
                  else if f = ''json'' then Some (marshal_json m s) else None)
         in case r of None \<Rightarrow> Inl (unsupported_format f)
            | Some (Inl e) \<Rightarrow> Inl (WrapW ''marshal spec'' e)
            | Some (Inr data) \<Rightarrow> Inr data))"

text \<open>\<open>buf.WriteTo (tmp)\<close>: one call for each piece, up to the first error.\<close>

fun write_pieces :: "string list \<Rightarrow> string list \<Rightarrow> os \<Rightarrow> unit res \<times> os" where
  "write_pieces k [] s = (Inr (), s)"
| "write_pieces k (b # bs) s = (case effect (fd_append k b) s of
      (Inl e, s1) \<Rightarrow> (Inl e, s1)
    | (Inr _, s1) \<Rightarrow> write_pieces k bs s1)"

text \<open>The deferred cleanup of a run that did not commit: its errors are ignored.\<close>

definition discard_temp :: "string \<Rightarrow> os \<Rightarrow> os" where
  "discard_temp tmp s = snd (effect (fs_remove tmp) (snd (query (\<lambda>_. Inr ()) s)))"

text \<open>A call on the open descriptor that changes nothing in the file system (sync, close, open).\<close>

definition noop_call :: "os \<Rightarrow> unit res \<times> os" where
  "noop_call s = query (\<lambda>_. Inr ()) s"

definition sync_dir :: "os \<Rightarrow> unit res \<times> os" where
  "sync_dir s = (case noop_call s of
      (Inl e, s1) \<Rightarrow> (Inl e, s1)
    | (Inr _, s1) \<Rightarrow> (case noop_call s1 of (sr, s2) \<Rightarrow> (case noop_call s2 of (cr, s3) \<Rightarrow>
        (case sr of Inl e \<Rightarrow> (Inl e, s3) | Inr _ \<Rightarrow> (cr, s3)))))"

text \<open>From the open temporary file to the commit.\<close>

definition commit_temp :: "string \<Rightarrow> string list \<Rightarrow> string \<Rightarrow> string list \<Rightarrow> os \<Rightarrow> gerr option \<times> os" where
  "commit_temp tmp k path bs s =
     (case write_pieces k bs s of
        (Inl e, s1) \<Rightarrow> (Some (WrapV (''write temp file '' @ tmp) (Sys e)), discard_temp tmp s1)
      | (Inr _, s1) \<Rightarrow> (case effect (fd_chmod k 0x1A4) s1 of
          (Inl e, s2) \<Rightarrow> (Some (WrapV (''chmod temp file '' @ tmp) (Sys e)), discard_temp tmp s2)
        | (Inr _, s2) \<Rightarrow> (case noop_call s2 of
            (Inl e, s3) \<Rightarrow> (Some (WrapV (''sync temp file '' @ tmp) (Sys e)), discard_temp tmp s3)
          | (Inr _, s3) \<Rightarrow> (case noop_call s3 of
              (Inl e, s4) \<Rightarrow> (Some (WrapV (''close temp file '' @ tmp) (Sys e)), discard_temp tmp s4)
            | (Inr _, s4) \<Rightarrow> (case effect (fs_rename tmp path) s4 of
                (Inl e, s5) \<Rightarrow> (Some (WrapV (''rename '' @ tmp @ '' to '' @ path) (Sys e)), discard_temp tmp s5)
              | (Inr _, s5) \<Rightarrow> (None, snd (sync_dir s5)))))))"

definition write_spec ::
  "marshallers \<Rightarrow> (string \<Rightarrow> string list) \<Rightarrow> string list \<Rightarrow> cdi_spec option \<Rightarrow> string \<Rightarrow> string \<Rightarrow> os \<Rightarrow> gerr option \<times> os" where
  "write_spec m pieces suffixes so path f s =
     (if so = None then (Some (WrapW ''spec is nil'' (Sentinel ErrInvalidCDISpec)), s)
      else if f \<noteq> ''yaml'' \<and> f \<noteq> ''json'' then (Some (unsupported_format f), s)
      else case write_to_writer m so f of
             Inl e \<Rightarrow> (Some e, s)
           | Inr data \<Rightarrow>
               (let dir = path_dir path
                in case effect (fs_mkdir_all dir) s of
                     (Inl e, s1) \<Rightarrow> (Some (WrapV (''create directory '' @ dir) (Sys e)), s1)
                   | (Inr _, s1) \<Rightarrow>
                       (case effect (fs_create_temp dir (''.'' @ path_base path @ ''.tmp-'') suffixes) s1 of
                          (Inl e, s2) \<Rightarrow> (Some (WrapV (''create temp file in '' @ dir) (Sys e)), s2)
                        | (Inr (tmp, k), s2) \<Rightarrow> commit_temp tmp k path (pieces data) s2)))"

subsection \<open>What a reader sees\<close>

text \<open>
  The invariant up to the rename: every file system so far, and the present one, still has all of
  the initial one.
\<close>

definition only_added :: "fs \<Rightarrow> fs list \<Rightarrow> os \<Rightarrow> bool" where
  "only_added base h s \<longleftrightarrow> extends base (nodes s) \<and> (\<exists>hs. history s = h @ hs \<and> (\<forall>fs \<in> set hs. extends base fs))"

lemma only_added_effect:
  assumes "only_added base h s" "effect f s = (r, s')" "\<And>fs. extends base fs \<Longrightarrow> extends base (snd (f fs))"
  shows "only_added base h s'"
proof (cases rule: effect_cases [of f s])
  case (fault e t)
  then show ?thesis using assms(1,2) by (simp add: only_added_def)
next
  case (run r' n' t)
  then have "s' = t" "extends base n'" using assms by (auto simp: only_added_def) (metis snd_conv)
  then show ?thesis using run assms(1) by (fastforce simp: only_added_def)
qed

lemma only_added_same: "\<lbrakk> nodes s' = nodes s; history s' = history s; only_added base h s \<rbrakk> \<Longrightarrow> only_added base h s'"
  by (simp add: only_added_def)

lemma sync_dir_same: "nodes (snd (sync_dir s)) = nodes s \<and> history (snd (sync_dir s)) = history s"
  by (auto simp: sync_dir_def noop_call_def dest!: query_snd split: prod.split sum.split)

lemma fd_append_extends: "\<lbrakk> k \<noteq> []; node_at base k = None; extends base fs \<rbrakk> \<Longrightarrow> extends base (snd (fd_append k b fs))"
  by (auto simp: fd_append_def extends_set split: option.split node.split)

lemma fd_chmod_extends: "\<lbrakk> k \<noteq> []; node_at base k = None; extends base fs \<rbrakk> \<Longrightarrow> extends base (snd (fd_chmod k m fs))"
  by (auto simp: fd_chmod_def extends_set split: option.split node.split)

text \<open>The open temporary file: a place the initial file system does not have.\<close>

definition temp_open :: "fs \<Rightarrow> fs list \<Rightarrow> string \<Rightarrow> string list \<Rightarrow> os \<Rightarrow> bool" where
  "temp_open base h tmp k s \<longleftrightarrow> only_added base h s \<and> k \<noteq> [] \<and> node_at base k = None
     \<and> resolve (nodes s) False tmp = Inr k \<and> (\<exists>c m. node_at (nodes s) k = Some (Reg c m))"

lemma temp_open_same: "\<lbrakk> nodes s' = nodes s; history s' = history s; temp_open base h tmp k s \<rbrakk> \<Longrightarrow> temp_open base h tmp k s'"
  by (simp add: temp_open_def only_added_def)

lemma temp_open_set:
  assumes "temp_open base h tmp k s" "effect f s = (r, s')" "\<And>fs. extends base fs \<Longrightarrow> extends base (snd (f fs))"
    and "snd (f (nodes s)) = nodes s \<or> (\<exists>c m. snd (f (nodes s)) = set_node k (Reg c m) (nodes s))"
  shows "temp_open base h tmp k s'"
proof -
  from assms(1) have t: "only_added base h s" "k \<noteq> []" "node_at base k = None" "resolve (nodes s) False tmp = Inr k"
    "plain_at (nodes s) k" "\<exists>c m. node_at (nodes s) k = Some (Reg c m)"
    by (auto simp: temp_open_def plain_at_def)
  have oa: "only_added base h s'" by (rule only_added_effect [OF t(1) assms(2,3)])
  have "nodes s' = nodes s \<or> (\<exists>c m. nodes s' = set_node k (Reg c m) (nodes s))"
    using assms(2,4) by (cases rule: effect_cases [of f s]) auto
  then show ?thesis
    using oa t by (auto simp: temp_open_def resolve_set_plain node_at_set)
qed

lemma fd_chmod_temp:
  assumes "temp_open base h tmp k s" "effect (fd_chmod k m) s = (r, s')" "node_at (nodes s) k = Some (Reg c m0)"
  shows "temp_open base h tmp k s' \<and> (r = Inr () \<longrightarrow> node_at (nodes s') k = Some (Reg c m))"
proof -
  from assms(1) have k: "k \<noteq> []" "node_at base k = None" by (simp_all add: temp_open_def)
  have "temp_open base h tmp k s'"
    by (rule temp_open_set [OF assms(1,2)]) (use fd_chmod_extends [OF k] assms(3) in \<open>auto simp: fd_chmod_def\<close>)
  moreover have "r = Inr () \<longrightarrow> node_at (nodes s') k = Some (Reg c m)"
    using assms(2,3) k by (cases rule: effect_cases [of "fd_chmod k m" s]) (auto simp: fd_chmod_def node_at_set)
  ultimately show ?thesis by blast
qed

lemma write_pieces_temp:
  "\<lbrakk> temp_open base h tmp k s; node_at (nodes s) k = Some (Reg c m); write_pieces k bs s = (r, s') \<rbrakk>
   \<Longrightarrow> temp_open base h tmp k s' \<and> (r = Inr () \<longrightarrow> node_at (nodes s') k = Some (Reg (c @ concat bs) m))"
proof (induction bs arbitrary: s c)
  case Nil
  then show ?case by simp
next
  case (Cons b bs)
  obtain r1 s1 where e: "effect (fd_append k b) s = (r1, s1)" by fastforce
  from Cons.prems(1) have k: "k \<noteq> []" "node_at base k = None" by (simp_all add: temp_open_def)
  have t1: "temp_open base h tmp k s1"
    by (rule temp_open_set [OF Cons.prems(1) e])
      (use fd_append_extends [OF k] Cons.prems(2) in \<open>auto simp: fd_append_def\<close>)
  show ?case
  proof (cases r1)
    case (Inl err)
    then show ?thesis using Cons.prems(3) e t1 by auto
  next
    case (Inr u)
    then have "node_at (nodes s1) k = Some (Reg (c @ b) m)"
      using e Cons.prems(2) k by (cases rule: effect_cases [of "fd_append k b" s]) (auto simp: fd_append_def node_at_set)
    from Cons.IH [OF t1 this] Cons.prems(3) e Inr show ?thesis by simp
  qed
qed

lemma discard_temp_only_added:
  assumes "temp_open base h tmp k s"
  shows "only_added base h (discard_temp tmp s)"
proof -
  obtain r0 s0 where q: "query (\<lambda>_. Inr ()) s = (r0 :: unit res, s0)" by fastforce
  then have t: "temp_open base h tmp k s0" using query_snd [OF q] assms temp_open_same by blast
  obtain r s1 where e: "effect (fs_remove tmp) s0 = (r, s1)" by fastforce
  have "only_added base h s1"
  proof (cases rule: effect_cases [of "fs_remove tmp" s0])
    case (fault er s')
    then show ?thesis using e t by (simp add: temp_open_def only_added_def)
  next
    case (run r' n' s')
    then have "n' = del_node k (nodes s0)"
      using t by (auto simp: temp_open_def fs_remove_def)
    moreover have "extends base (del_node k (nodes s0))"
      using t by (simp add: temp_open_def only_added_def extends_del)
    moreover obtain hs where "history s0 = h @ hs" "\<forall>fs \<in> set hs. extends base fs"
      using t by (auto simp: temp_open_def only_added_def)
    ultimately show ?thesis using run e by (auto simp: only_added_def)
  qed
  then show ?thesis using q e by (simp add: discard_temp_def)
qed

lemma rename_error: "fs_rename a b fs = (Inl e, fs') \<Longrightarrow> fs' = fs"
  by (auto simp: fs_rename_def split: sum.splits option.splits node.splits if_splits)

lemma temp_open_failed:
  assumes t: "temp_open base h tmp k s" and e: "effect f s = (Inl er, s')"
    and same: "\<And>n'. f (nodes s) = (Inl er, n') \<Longrightarrow> n' = nodes s"
  shows "temp_open base h tmp k s'"
proof (cases rule: effect_cases [of f s])
  case (fault e1 t1)
  then show ?thesis using e t temp_open_same [of s' s] by auto
next
  case (run r' n' t1)
  then have "nodes s' = nodes s" "history s' = history s @ [nodes s]" using e same by auto
  moreover obtain hs where "history s = h @ hs" "\<forall>fs \<in> set hs. extends base fs" "extends base (nodes s)"
    using t by (auto simp: temp_open_def only_added_def)
  ultimately show ?thesis using t by (auto simp: temp_open_def only_added_def)
qed

text \<open>The rename puts the finished temporary file in the place of the old one.\<close>

lemma rename_commits:
  assumes t: "temp_open base h tmp k s" "node_at (nodes s) k = Some (Reg data m)"
    and old: "resolve base False path = Inr kb" "node_at base kb = Some (Reg b0 m0)"
    and e: "effect (fs_rename tmp path) s = (Inr (), s')"
  shows "\<exists>hs. history s' = h @ hs @ [nodes s'] \<and> (\<forall>fs \<in> set hs. extends base fs)
    \<and> fs_read_file (nodes s') path = Inr data \<and> fs_lstat (nodes s') path = Inr (Reg data m)"
proof -
  from t have ex: "extends base (nodes s)" "k \<noteq> []" "node_at base k = None" "resolve (nodes s) False tmp = Inr k"
    by (simp_all add: temp_open_def only_added_def)
  have kb: "resolve (nodes s) False path = Inr kb" "node_at (nodes s) kb = Some (Reg b0 m0)"
    using resolve_extends [OF ex(1) old(1)] old(2) ex(1) by (simp_all add: extendsD)
  have ne: "kb \<noteq> k" "kb \<noteq> []" using ex(3) old(2) by (auto simp: node_at_def)
  let ?d = "del_node k (nodes s)"
  let ?n = "set_node kb (Reg data m) ?d"
  have n: "nodes s' = ?n" "history s' = history s @ [?n]"
    using effect_Inr [OF e] ex(4) t(2) kb ne by (auto simp: fs_rename_def)
  have p1: "plain_at (nodes s) k" using t(2) ex(2) by (simp add: plain_at_def)
  have p2: "plain_at ?d kb" using kb(2) ne ex(2) by (simp add: plain_at_def node_at_del)
  have r: "resolve ?n False path = Inr kb"
    using kb(1) by (simp add: resolve_set_plain [OF p2] resolve_del_plain [OF p1])
  have "node_at ?n kb = Some (Reg data m)" using ne by (simp add: node_at_set)
  moreover from this r have "resolve ?n True path = Inr kb" unfolding resolve_def by (intro walk_follow) auto
  ultimately have "fs_read_file ?n path = Inr data" "fs_lstat ?n path = Inr (Reg data m)"
    using r by (auto intro: read_file_at simp: fs_lstat_def node_res_def)
  moreover obtain hs where "history s = h @ hs" "\<forall>fs \<in> set hs. extends base fs"
    using t(1) by (auto simp: temp_open_def only_added_def)
  ultimately show ?thesis using n by auto
qed

text \<open>A run either only adds to the file system or gets as far as the rename.\<close>

lemma commit_temp_cases:
  assumes t: "temp_open base h tmp k s" "node_at (nodes s) k = Some (Reg [] m)"
    and r: "commit_temp tmp k path bs s = (r, s')"
  shows "(r \<noteq> None \<and> only_added base h s') \<or>
    (\<exists>s4 s5. r = None \<and> temp_open base h tmp k s4 \<and> node_at (nodes s4) k = Some (Reg (concat bs) 0x1A4)
       \<and> effect (fs_rename tmp path) s4 = (Inr (), s5) \<and> s' = snd (sync_dir s5))"
proof -
  obtain r1 s1 where e1: "write_pieces k bs s = (r1, s1)" by fastforce
  have t1: "temp_open base h tmp k s1" "r1 = Inr () \<longrightarrow> node_at (nodes s1) k = Some (Reg (concat bs) m)"
    using write_pieces_temp [OF t e1] by simp_all
  show ?thesis
  proof (cases r1)
    case (Inl e)
    then show ?thesis using r e1 discard_temp_only_added [OF t1(1)] by (auto simp: commit_temp_def)
  next
    case ok1: (Inr u)
    obtain r2 s2 where e2: "effect (fd_chmod k 0x1A4) s1 = (r2, s2)" by fastforce
    have t2: "temp_open base h tmp k s2" "r2 = Inr () \<longrightarrow> node_at (nodes s2) k = Some (Reg (concat bs) 0x1A4)"
      using fd_chmod_temp [OF t1(1) e2] t1(2) ok1 by simp_all
    obtain r3 s3 where e3: "noop_call s2 = (r3, s3)" by fastforce
    obtain r4 s4 where e4: "noop_call s3 = (r4, s4)" by fastforce
    obtain r5 s5 where e5: "effect (fs_rename tmp path) s4 = (r5, s5)" by fastforce
    note q = e3 [unfolded noop_call_def, THEN query_snd] e4 [unfolded noop_call_def, THEN query_snd]
    have t3: "temp_open base h tmp k s3" using temp_open_same t2(1) q(1) by blast
    have t4: "temp_open base h tmp k s4" using temp_open_same t3 q(2) by blast
    have t5: "temp_open base h tmp k s5" if "r5 = Inl e" for e
      by (rule temp_open_failed [OF t4 e5 [unfolded that] rename_error])
    have "node_at (nodes s4) k = Some (Reg (concat bs) 0x1A4)" if "r2 = Inr ()" using t2(2) that q by simp
    then show ?thesis
      using r e1 e2 e3 e4 e5 ok1 t4 discard_temp_only_added [OF t2(1)] discard_temp_only_added [OF t3]
        discard_temp_only_added [OF t4] discard_temp_only_added [OF t5]
      by (cases r2; cases r3; cases r4; cases r5) (auto simp: commit_temp_def)
  qed
qed

lemma create_temp_extends:
  assumes "extends base fs"
  shows "extends base (snd (fs_create_temp d prefix sfxs fs))"
proof (cases "fs_create_temp d prefix sfxs fs")
  case (Pair q fs')
  show ?thesis
  proof (cases q)
    case (Inl e)
    from create_temp_fails [OF Pair [unfolded this]] Pair assms show ?thesis by simp
  next
    case (Inr pk)
    then obtain p k where "q = Inr (p, k)" by (cases pk) auto
    from create_temp_fresh [OF Pair [unfolded this]] have "k \<noteq> []" "node_at fs k = None" "fs' = set_node k (Reg [] 0x180) fs"
      by auto
    moreover from this assms have "node_at base k = None" by (auto intro: extends_None)
    ultimately show ?thesis using Pair assms by (simp add: extends_set)
  qed
qed

lemma create_temp_opens:
  assumes oa: "only_added base h s" and e: "effect (fs_create_temp d prefix sfxs) s = (Inr (tmp, k), s')"
  shows "temp_open base h tmp k s' \<and> node_at (nodes s') k = Some (Reg [] 0x180)"
proof -
  from effect_Inr [OF e] obtain n' where "fs_create_temp d prefix sfxs (nodes s) = (Inr (tmp, k), n')" "nodes s' = n'" by auto
  from create_temp_fresh [OF this(1)] this(2) have k: "k \<noteq> []" "node_at (nodes s) k = None"
    "nodes s' = set_node k (Reg [] 0x180) (nodes s)" "resolve (nodes s) False tmp = Inr k" by auto
  have "node_at base k = None" using oa k(2) by (auto simp: only_added_def intro: extends_None)
  moreover have "resolve (nodes s') False tmp = Inr k" using k by (simp add: resolve_set_plain plain_at_def)
  moreover have "only_added base h s'" by (rule only_added_effect [OF oa e create_temp_extends])
  ultimately show ?thesis using k by (simp add: temp_open_def node_at_set)
qed

text \<open>Writing a specification only adds files, up to the rename of the finished temporary file.\<close>

lemma write_spec_cases:
  assumes "write_spec m pieces suffixes so path f s = (r, s')"
  obtains (added) "r \<noteq> None" "only_added (nodes s) (history s) s'"
  | (renamed) data tmp k s4 s5 where "r = None" "write_to_writer m so f = Inr data"
      "temp_open (nodes s) (history s) tmp k s4" "node_at (nodes s4) k = Some (Reg (concat (pieces data)) 0x1A4)"
      "effect (fs_rename tmp path) s4 = (Inr (), s5)" "s' = snd (sync_dir s5)"
proof -
  have start: "only_added (nodes s) (history s) s" by (simp add: only_added_def)
  show thesis
  proof (cases "so = None \<or> (f \<noteq> ''yaml'' \<and> f \<noteq> ''json'') \<or> (\<exists>e. write_to_writer m so f = Inl e)")
    case True
    with assms start have "r \<noteq> None" "only_added (nodes s) (history s) s'"
      by (elim disjE exE conjE; force simp: write_spec_def split: if_splits)+
    then show thesis by (rule added)
  next
    case False
    then obtain data where ok: "so \<noteq> None" "f = ''yaml'' \<or> f = ''json''" "write_to_writer m so f = Inr data"
      by (cases "write_to_writer m so f") auto
    obtain r1 s1 where e1: "effect (fs_mkdir_all (path_dir path)) s = (r1, s1)" by fastforce
    have oa1: "only_added (nodes s) (history s) s1"
      by (rule only_added_effect [OF start e1]) (simp add: fs_mkdir_all_def mkdir_each_extends)
    obtain r2 s2 where e2: "effect (fs_create_temp (path_dir path) (''.'' @ path_base path @ ''.tmp-'') suffixes) s1 = (r2, s2)"
      by fastforce
    have oa2: "only_added (nodes s) (history s) s2" by (rule only_added_effect [OF oa1 e2 create_temp_extends])
    show thesis
    proof (cases "(\<exists>u. r1 = Inr u) \<and> (\<exists>tk. r2 = Inr tk)")
      case False
      then have "r \<noteq> None" "s' = s1 \<or> s' = s2"
        using assms ok e1 e2 by (cases r1; cases r2; auto simp: write_spec_def Let_def)+
      with oa1 oa2 show thesis using added by blast
    next
      case True
      then obtain tmp k where r2: "r1 = Inr ()" "r2 = Inr (tmp, k)" by auto
      from create_temp_opens [OF oa1 e2 [unfolded r2(2)]]
      have t: "temp_open (nodes s) (history s) tmp k s2" "node_at (nodes s2) k = Some (Reg [] 0x180)" by simp_all
      have "commit_temp tmp k path (pieces data) s2 = (r, s')"
        using assms ok e1 e2 r2 by (auto simp: write_spec_def Let_def)
      from commit_temp_cases [OF t this] added renamed ok(3) show thesis by blast
    qed
  qed
qed

text \<open>Only places of the specification's own name are changed; every other node stays as it is.\<close>

lemma write_spec_keeps:
  assumes w: "write_spec m pieces suffixes so path f s = (r, s')" and keep: "keeps own base (nodes s)"
    and name: "path_comps path = cs @ [c]" "own c" "c \<noteq> ''.''" "c \<noteq> ''..''"
  shows "keeps own base (nodes s')"
  using w
proof (cases rule: write_spec_cases)
  case added
  then show ?thesis using keeps_extends [OF keep] by (simp add: only_added_def)
next
  case (renamed data tmp k s4 s5)
  let ?new = "Reg (concat (pieces data)) 0x1A4"
  from renamed(3) have t: "extends (nodes s) (nodes s4)" "k \<noteq> []" "node_at (nodes s) k = None" "resolve (nodes s4) False tmp = Inr k"
    by (simp_all add: temp_open_def only_added_def)
  from effect_Inr [OF renamed(5)] t(4) renamed(4) obtain kb where kb: "resolve (nodes s4) False path = Inr kb"
    "nodes s5 = nodes s4 \<or> nodes s5 = set_node kb ?new (del_node k (nodes s4))"
    by (auto simp: fs_rename_def split: sum.splits if_splits)
  have last: "own_key own kb" "kb \<noteq> []"
    using resolve_last [OF kb(1) name(1,3,4)] name(2) by (simp_all add: own_key_def)
  have k4: "keeps own base (nodes s4)" by (rule keeps_extends [OF keep t(1)])
  have "own_key own k \<or> node_at base k = None"
    using keeps_None [OF keep t(3)] .
  then have "keeps own base (set_node kb ?new (del_node k (nodes s4)))"
    using last t(2) by (intro keeps_set keeps_del [OF k4]) auto
  with kb(2) k4 show ?thesis using renamed(6) sync_dir_same [of s5] by auto
qed

lemma remove_keeps:
  assumes "effect (fs_remove path) s = (r, s')" "keeps own base (nodes s)"
    and name: "path_comps path = cs @ [c]" "own c" "c \<noteq> ''.''" "c \<noteq> ''..''"
  shows "keeps own base (nodes s')"
proof (cases rule: effect_cases [of "fs_remove path" s])
  case (fault e t)
  then show ?thesis using assms(1,2) by simp
next
  case (run r' n' t)
  have "n' = nodes s \<or> (\<exists>k. resolve (nodes s) False path = Inr k \<and> n' = del_node k (nodes s))"
    using run(2) by (auto simp: fs_remove_def split: sum.splits option.splits node.splits if_splits)
  then have "keeps own base n'"
    using resolve_last [OF _ name(1,3,4)] name(2) assms(2) by (auto simp: own_key_def intro!: keeps_del)
  then show ?thesis using run assms(1) by simp
qed

lemma write_spec_commits:
  assumes "write_spec m pieces suffixes so path f s = (None, s')"
    and "resolve (nodes s) False path = Inr kb" "node_at (nodes s) kb = Some (Reg old m0)"
    and "write_to_writer m so f = Inr data" "concat (pieces data) = data"
  shows "\<exists>hs. history s' = history s @ hs @ [nodes s'] \<and> (\<forall>fs \<in> set hs. extends (nodes s) fs)
    \<and> fs_read_file (nodes s') path = Inr data \<and> fs_lstat (nodes s') path = Inr (Reg data 0x1A4)"
  using assms(1)
proof (cases rule: write_spec_cases)
  case (renamed d tmp k s4 s5)
  then have t: "node_at (nodes s4) k = Some (Reg data 0x1A4)" using assms(4,5) by simp
  from rename_commits [OF renamed(3) t assms(2,3) renamed(5)] renamed(6) sync_dir_same [of s5] show ?thesis by auto
qed simp

text \<open>
  A successful run installs the text at the path whatever was there before, unless its last name is that
  of a symbolic link somewhere.
\<close>

lemma write_spec_installs:
  assumes w: "write_spec m pieces suffixes so path f s = (None, s')" and pieces: "\<And>d. concat (pieces d) = d"
    and name: "path_comps path = cs @ [c]" "c \<noteq> ''.''" "c \<noteq> ''..''"
    and links: "\<And>k t. own_key (\<lambda>n. n = c) k \<Longrightarrow> node_at (nodes s) k \<noteq> Some (Sym t)"
  shows "\<exists>data k. write_to_writer m so f = Inr data \<and> resolve (nodes s') False path = Inr k \<and> resolve (nodes s') True path = Inr k
    \<and> own_key (\<lambda>n. n = c) k \<and> node_at (nodes s') k = Some (Reg data 0x1A4)"
  using w
proof (cases rule: write_spec_cases)
  case (renamed data tmp k s4 s5)
  let ?new = "Reg data 0x1A4"
  from renamed(3) have t: "extends (nodes s) (nodes s4)" "k \<noteq> []" "resolve (nodes s4) False tmp = Inr k"
    by (simp_all add: temp_open_def only_added_def)
  have k: "node_at (nodes s4) k = Some ?new" "plain_at (nodes s4) k" using renamed(4) t(2) pieces by (simp_all add: plain_at_def)
  from effect_Inr [OF renamed(5)] t(3) k(1) obtain kb where kb: "resolve (nodes s4) False path = Inr kb"
    "node_at (nodes s4) kb \<noteq> Some Dir"
    "k = kb \<and> nodes s5 = nodes s4 \<or> k \<noteq> kb \<and> nodes s5 = set_node kb ?new (del_node k (nodes s4))"
    by (auto simp: fs_rename_def split: sum.splits if_splits)
  have last: "own_key (\<lambda>n. n = c) kb" "kb \<noteq> []" using resolve_last [OF kb(1) name] by (simp_all add: own_key_def)
  from t(1) have "no_new_links (nodes s) (nodes s4)" unfolding extends_def ..
  then have "node_at (nodes s4) kb = Some (Sym l) \<Longrightarrow> node_at (nodes s) kb = Some (Sym l)" for l
    unfolding no_new_links_def by blast
  then have "node_at (nodes s4) kb \<noteq> Some (Sym l)" for l using links [OF last(1)] by blast
  then have "plain_at (nodes s4) kb" using kb(2) last(2) by (simp add: plain_at_def)
  then have "resolve (nodes s5) False path = Inr kb \<and> node_at (nodes s5) kb = Some ?new"
    using kb(1,3) k t(2) last(2) by (auto simp: plain_at_def node_at_set node_at_del resolve_set_plain resolve_del_plain)
  then have r: "resolve (nodes s5) False path = Inr kb" "node_at (nodes s5) kb = Some ?new" by simp_all
  then have "resolve (nodes s5) True path = Inr kb" unfolding resolve_def by (intro walk_follow) auto
  then show ?thesis using r renamed(2,6) sync_dir_same [of s5] last(1) by auto
qed simp

subsection \<open>What every call keeps\<close>

context file_invariant begin

lemma keeps_pieces: "\<lbrakk> write_pieces k bs s = (r, s'); always P h s \<rbrakk> \<Longrightarrow> always P h s'"
  by (induction k bs s rule: write_pieces.induct) (auto split: prod.splits sum.splits dest: keeps_files)

lemma keeps_noop: "\<lbrakk> noop_call s = (r, s'); always P h s \<rbrakk> \<Longrightarrow> always P h s'"
  unfolding noop_call_def by (rule keeps_query)

lemma keeps_discard: "always P h s \<Longrightarrow> always P h (discard_temp tmp s)"
  unfolding discard_temp_def by (rule keeps_removed) (metis keeps_query prod.collapse)

lemma keeps_sync_dir: "always P h s \<Longrightarrow> always P h (snd (sync_dir s))"
  unfolding sync_dir_def by (auto split: prod.split sum.split dest: keeps_noop)

lemma keeps_commit: "\<lbrakk> commit_temp tmp k path bs s = (r, s'); always P h s \<rbrakk> \<Longrightarrow> always P h s'"
  by (auto simp: commit_temp_def split: prod.splits sum.splits
      intro!: keeps_discard keeps_sync_dir dest!: keeps_files keeps_pieces keeps_noop)

lemma keeps_write_spec:
  assumes "write_spec m pieces suffixes so path f s = (r, s')" "always P h s"
    and mkdir: "\<And>fs. P fs \<Longrightarrow> P (snd (fs_mkdir_all (path_dir path) fs))"
  shows "always P h s'"
proof -
  have m: "always P h t" if "effect (fs_mkdir_all (path_dir path)) s = (q, t)" for q t
    by (rule keeps_effect [OF that assms(2) mkdir])
  from assms(1,2) show ?thesis
    by (auto simp: write_spec_def Let_def split: prod.splits sum.splits if_splits dest!: m keeps_files(5) keeps_commit)
qed

end

subsection \<open>Atomicity\<close>

text \<open>
  C2: Writing a specification over an existing file is atomic under every fault script: whatever
  call fails, and however the kernel cuts the write, at no moment does a reader of the path see
  anything but the whole old or the whole new text; after success it is the new text with mode
  0644, and after an error the old file and every other file are as they were.
\<close>

theorem write_atomic:
  assumes "resolve (nodes s) False path = Inr kb" "node_at (nodes s) kb = Some (Reg old m0)"
    and "write_to_writer m so f = Inr data" "concat (pieces data) = data"
    and "write_spec m pieces suffixes so path f s = (r, s')"
  shows "\<exists>hs. history s' = history s @ hs
    \<and> (\<forall>fs \<in> set hs. fs_read_file fs path = Inr old \<or> fs_read_file fs path = Inr data)
    \<and> (if r = None then fs_lstat (nodes s') path = Inr (Reg data 0x1A4)
       else extends (nodes s) (nodes s') \<and> fs_read_file (nodes s') path = Inr old)"
proof -
  have "resolve (nodes s) True path = Inr kb"
    using assms(1,2) unfolding resolve_def by (intro walk_follow) auto
  then have rd: "fs_read_file (nodes s) path = Inr old" using assms(2) by (rule read_file_at)
  show ?thesis
    using assms(5)
  proof (cases rule: write_spec_cases)
    case added
    then show ?thesis using read_file_extends [OF _ rd] by (auto simp: only_added_def)
  next
    case (renamed d tmp k s4 s5)
    from write_spec_commits [OF assms(5) [unfolded renamed(1)] assms(1-4)] obtain hs where
      "history s' = history s @ hs @ [nodes s']" "\<forall>fs \<in> set hs. extends (nodes s) fs"
      "fs_read_file (nodes s') path = Inr data" "fs_lstat (nodes s') path = Inr (Reg data 0x1A4)" by blast
    then show ?thesis using renamed(1) read_file_extends [OF _ rd] by (intro exI [of _ "hs @ [nodes s']"]) auto
  qed
qed

text \<open>A run in which the third call on the temporary file fails after half of the text is written.\<close>

definition plain_marshallers :: marshallers where
  "plain_marshallers = \<lparr> marshal_yaml = (\<lambda>y. Inr (''new '' @ ys_kind y)), marshal_json = (\<lambda>_. Inl (Msg ''no'')) \<rparr>"

definition spec_host :: os where
  "spec_host = \<lparr> nodes = [([''cdi''], Dir), ([''cdi'', ''rbln.yaml''], Reg ''old'' 0x1A4)],
     faults = [None, None, None, Some ENOSPC], history = [] \<rparr>"

definition empty_cdi_spec :: cdi_spec where
  "empty_cdi_spec = \<lparr> sp_version = ''0.5.0'', sp_kind = ''a/b'', sp_annotations = [], sp_devices = [], sp_edits = no_edits \<rparr>"

theorem write_atomic_witness:
  "list_all (\<lambda>fs. fs_read_file fs ''/cdi/rbln.yaml'' \<in> {Inr ''old'', Inr ''new a/b''})
     (history (snd (write_spec plain_marshallers (\<lambda>d. [take 2 d, drop 2 d]) [''1''] (Some empty_cdi_spec)
       ''/cdi/rbln.yaml'' ''yaml'' spec_host)))"
proof -
  have r: "resolve (nodes spec_host) False ''/cdi/rbln.yaml'' = Inr [''cdi'', ''rbln.yaml'']"
    "node_at (nodes spec_host) [''cdi'', ''rbln.yaml''] = Some (Reg ''old'' 0x1A4)"
    "write_to_writer plain_marshallers (Some empty_cdi_spec) ''yaml'' = Inr ''new a/b''"
    by (simp_all add: spec_host_def fs_eval write_to_writer_def plain_marshallers_def to_yaml_spec_def empty_cdi_spec_def)
  have "concat [take 2 ''new a/b'', drop 2 ''new a/b''] = ''new a/b''" by simp
  from write_atomic [where pieces = "\<lambda>d. [take 2 d, drop 2 d]", OF r this prod.collapse [symmetric]]
  show ?thesis by (auto simp: spec_host_def list_all_iff)
qed

end
