(* ===== verification/Cdi_Setup.thy ===== *)
theory Cdi_Setup imports Generator Writer begin

text \<open>
  The pipeline of \<open>internal/cdi/setup\<close>: discover, generate, write, and the separate RDS class. The
  optional collaborators of \<open>Options\<close> are options here too; when they are absent the discoverers
  of this development run on the file system of the state. \<open>setup_env\<close> collects what lies outside
  the repository: the ELF readers, the outcome of loading librbln-ml, the marshallers and the way
  the kernel takes a write.
\<close>

subsection \<open>Options\<close>

datatype error_mode = ErrorModeStrict | ErrorModeLenient

record library_discoverer =
  ld_rbln :: "gerr + library list"
  ld_dependencies :: "library list \<Rightarrow> gerr + library list"
  ld_plugins :: "gerr + library list"
  ld_rdma :: "gerr + rdma_provider list"

record setup_options =
  so_config :: "config option"
  so_output_path :: string
  so_rds_output_path :: string
  so_format :: string
  so_error_mode :: error_mode
  so_library_discoverer :: "library_discoverer option"
  so_tool_discoverer :: "(gerr + tool list) option"
  so_device_discoverer :: "(gerr + device list) option"
  so_rds_device_discoverer :: "(gerr + device list) option"
  so_resolver :: "resolver option"
  so_logger :: bool

type_synonym setup_option = "setup_options \<Rightarrow> setup_options"

definition setup_with_config :: "config option \<Rightarrow> setup_option" where
  "setup_with_config c so = (if c \<noteq> None then so\<lparr>so_config := c\<rparr> else so)"

definition setup_with_output_path :: "string \<Rightarrow> setup_option" where
  "setup_with_output_path p so = (if p \<noteq> [] then so\<lparr>so_output_path := p\<rparr> else so)"

definition setup_with_format :: "string \<Rightarrow> setup_option" where
  "setup_with_format f so = (if f \<noteq> [] then so\<lparr>so_format := f\<rparr> else so)"

definition setup_with_error_mode :: "error_mode \<Rightarrow> setup_option" where
  "setup_with_error_mode m so = so\<lparr>so_error_mode := m\<rparr>"

definition setup_with_logger :: "bool \<Rightarrow> setup_option" where
  "setup_with_logger l so = (if l then so\<lparr>so_logger := True\<rparr> else so)"

text \<open>\<open>&config.Config{}\<close>: the zero value, which is not the default configuration.\<close>

definition zero_config :: config where
  "zero_config = \<lparr>
     cdi = \<lparr> cdi_output_path = [], cdi_format = [], cdi_vendor = [], cdi_class = [] \<rparr>,
     rds = \<lparr> rds_class = [], rds_output_path = [], rds_patterns = [] \<rparr>,
     libraries = \<lparr> lib_patterns = [], lib_dependencies = [], plugin_paths = [], container_path = [],
             rdma_providers = [], rdma_provider_dir = [] \<rparr>,
     tools = [], devices = \<lparr> dev_patterns = [], dev_disabled = False \<rparr>,
     search_paths = \<lparr> search_libraries = [], search_binaries = [] \<rparr>, glibc_exclude = [],
     selinux = \<lparr> selinux_enabled = False, mount_context = [] \<rparr>,
     hooks = \<lparr> hook_path = [], ldconfig_path = [] \<rparr>,
     debug = False, driver_root = [], search_root = [], host_root = [] \<rparr>"

definition setup_default_options :: setup_options where
  "setup_default_options = \<lparr> so_config = Some zero_config, so_output_path = ''/var/run/cdi/rbln.yaml'',
     so_rds_output_path = [], so_format = ''yaml'', so_error_mode = ErrorModeStrict,
     so_library_discoverer = None, so_tool_discoverer = None, so_device_discoverer = None,
     so_rds_device_discoverer = None, so_resolver = None, so_logger = True \<rparr>"

subsection \<open>Discovery\<close>

record setup_env =
  se_needed :: "string \<Rightarrow> string list option"
  se_soname :: "string \<Rightarrow> string list option"
  se_topology :: "resolver option \<times> load_err option"
  se_marshal :: marshallers
  se_pieces :: "string \<Rightarrow> string list"
  se_suffixes :: "string list"

datatype setup_log = LogTopology topo_warning | LogStats load_stats | LogDiscoveryFailed gerr
  | LogRDSFailed gerr | LogRemoveStale errno | LogWritten string | LogRDSWritten string

definition default_library_discoverer :: "setup_env \<Rightarrow> fs \<Rightarrow> config \<Rightarrow> library_discoverer" where
  "default_library_discoverer env fs cfg = \<lparr>
     ld_rbln = Inr (discover_rbln fs cfg),
     ld_dependencies = (\<lambda>libs. Inr (discover_dependencies
        (elf_runner (se_needed env) fs (root_or_driver cfg) (search_libraries (search_paths cfg))) cfg libs)),
     ld_plugins = Inr (discover_plugins fs cfg),
     ld_rdma = Inr (discover_rdma_providers fs cfg) \<rparr>"

definition discover_resources ::
  "library_discoverer \<Rightarrow> (gerr + tool list) option \<Rightarrow> (gerr + device list) option \<Rightarrow> gerr + discovery_result" where
  "discover_resources ld td dd =
     (case ld_rbln ld of Inl e \<Rightarrow> Inl (WrapW ''discover RBLN libraries'' e)
      | Inr rbln \<Rightarrow> (case ld_dependencies ld rbln of Inl e \<Rightarrow> Inl (WrapW ''discover dependencies'' e)
      | Inr deps \<Rightarrow> (case ld_plugins ld of Inl e \<Rightarrow> Inl (WrapW ''discover plugins'' e)
      | Inr plugins \<Rightarrow> (case ld_rdma ld of Inl e \<Rightarrow> Inl (WrapW ''discover RDMA providers'' e)
      | Inr providers \<Rightarrow> (case (case td of None \<Rightarrow> Inr [] | Some t \<Rightarrow> t) of Inl e \<Rightarrow> Inl (WrapW ''discover tools'' e)
      | Inr tls \<Rightarrow> (case (case dd of None \<Rightarrow> Inr [] | Some d \<Rightarrow> d) of Inl e \<Rightarrow> Inl (WrapW ''discover devices'' e)
      | Inr devs \<Rightarrow> Inr \<lparr> dr_libraries = rbln @ deps @ plugins, dr_rdma = providers, dr_tools = tls, dr_devices = devs \<rparr>))))))"

definition resolve_topology :: "setup_env \<Rightarrow> setup_options \<Rightarrow> resolver \<times> setup_log list" where
  "resolve_topology env so =
     (case so_resolver so of
        Some r \<Rightarrow> (r, [])
      | None \<Rightarrow>
          if (case so_config so of Some c \<Rightarrow> dev_disabled (devices c) | None \<Rightarrow> False) then (NoopResolver, [])
          else (case load_or_fallback_with_stats 0 (se_topology env) of
                  (r, st, ws) \<Rightarrow> (r, if so_logger so then map LogTopology ws @ [LogStats st] else [])))"

text \<open>The discovery both entry points start with: the devices are left out on the Kubernetes path.\<close>

definition run_discovery :: "setup_env \<Rightarrow> setup_options \<Rightarrow> config \<Rightarrow> fs \<Rightarrow> gerr + discovery_result" where
  "run_discovery env so cfg fs = discover_resources
     (case so_library_discoverer so of Some ld \<Rightarrow> ld | None \<Rightarrow> default_library_discoverer env fs cfg)
     (Some (case so_tool_discoverer so of Some td \<Rightarrow> td | None \<Rightarrow> Inr (tool_discover fs cfg)))
     (case so_device_discoverer so of Some dd \<Rightarrow> Some dd
      | None \<Rightarrow> if \<not> dev_disabled (devices cfg) then Some (device_discover fs cfg) else None)"

definition empty_result :: discovery_result where
  "empty_result = \<lparr> dr_libraries = [], dr_rdma = [], dr_tools = [], dr_devices = [] \<rparr>"

definition setup_generator :: "setup_env \<Rightarrow> config \<Rightarrow> resolver \<Rightarrow> fs \<Rightarrow> generator" where
  "setup_generator env cfg r fs = new_generator cfg (Some r) (read_soname (se_soname env)) (link_exists fs)"

subsection \<open>The RDS class\<close>

definition discover_rds_devices :: "setup_options \<Rightarrow> config \<Rightarrow> fs \<Rightarrow> gerr + device list" where
  "discover_rds_devices so cfg fs = (case so_rds_device_discoverer so of
      Some d \<Rightarrow> d
    | None \<Rightarrow> device_discover fs (cfg\<lparr>devices := \<lparr> dev_patterns = rds_patterns (rds cfg), dev_disabled = False \<rparr>\<rparr>))"

definition build_rds_spec :: "setup_options \<Rightarrow> generator \<Rightarrow> fs \<Rightarrow> gerr + cdi_spec option" where
  "build_rds_spec so g fs = (case so_config so of
      None \<Rightarrow> Inr None
    | Some cfg \<Rightarrow>
        if rds_patterns (rds cfg) = [] then Inr None
        else (case discover_rds_devices so cfg fs of
                Inl e \<Rightarrow> Inl (WrapW ''discover RDS devices'' e)
              | Inr ds \<Rightarrow> Inr (generate_rds g (Some (empty_result\<lparr>dr_devices := ds\<rparr>)))))"

definition or_yaml :: "string \<Rightarrow> string" where
  "or_yaml f = (if f = [] then ''yaml'' else f)"

definition emit_rds_spec ::
  "setup_env \<Rightarrow> setup_options \<Rightarrow> generator \<Rightarrow> os \<Rightarrow> gerr option \<times> os \<times> setup_log list" where
  "emit_rds_spec env so g s =
     (if so_rds_output_path so = [] then (None, s, [])
      else case build_rds_spec so g (nodes s) of
        Inl e \<Rightarrow> if so_error_mode so = ErrorModeStrict then (Some e, s, [])
                 else (None, s, if so_logger so then [LogRDSFailed e] else [])
      | Inr None \<Rightarrow> (case effect (fs_remove (so_rds_output_path so)) s of
            (Inl e, s1) \<Rightarrow> (None, s1, if \<not> is_not_exist e \<and> so_logger so then [LogRemoveStale e] else [])
          | (Inr _, s1) \<Rightarrow> (None, s1, []))
      | Inr (Some spec) \<Rightarrow>
          (case write_spec (se_marshal env) (se_pieces env) (se_suffixes env) (Some spec) (so_rds_output_path so)
                  (or_yaml (so_format so)) s of
             (Some e, s1) \<Rightarrow> (Some (WrapW ''write RDS CDI spec'' e), s1, [])
           | (None, s1) \<Rightarrow> (None, s1, if so_logger so then [LogRDSWritten (so_rds_output_path so)] else [])))"

subsection \<open>The entry points\<close>

definition emit_npu_spec ::
  "setup_env \<Rightarrow> setup_options \<Rightarrow> cdi_spec \<Rightarrow> os \<Rightarrow> gerr option \<times> os \<times> setup_log list" where
  "emit_npu_spec env so spec s =
     (if so_output_path so = [] then (None, s, [])
      else case write_spec (se_marshal env) (se_pieces env) (se_suffixes env) (Some spec)
                  (so_output_path so) (or_yaml (so_format so)) s of
             (Some e, s1) \<Rightarrow> (Some (WrapW ''write CDI spec'' e), s1, [])
           | (None, s1) \<Rightarrow> (None, s1, if so_logger so then [LogWritten (so_output_path so)] else []))"

text \<open>What follows the discovery.\<close>

definition emit_specs ::
  "setup_env \<Rightarrow> setup_options \<Rightarrow> config \<Rightarrow> discovery_result \<Rightarrow> os \<Rightarrow> gerr option \<times> os \<times> setup_log list" where
  "emit_specs env so cfg result s =
     (case resolve_topology env so of (res, l1) \<Rightarrow>
       (let g = setup_generator env cfg res (nodes s)
        in case emit_npu_spec env so (generate g (Some result)) s of
             (Some e, s1, l2) \<Rightarrow> (Some e, s1, l1 @ l2)
           | (None, s1, l2) \<Rightarrow> (case emit_rds_spec env so g s1 of (r, s2, l3) \<Rightarrow> (r, s2, l1 @ l2 @ l3))))"

definition generate_cdi_spec ::
  "setup_env \<Rightarrow> setup_options option \<Rightarrow> os \<Rightarrow> gerr option \<times> os \<times> setup_log list" where
  "generate_cdi_spec env opts s =
     (let so = (case opts of None \<Rightarrow> setup_default_options | Some o1 \<Rightarrow> o1)
      in case so_config so of
           None \<Rightarrow> (Some (Msg ''config is required''), s, [])
         | Some cfg \<Rightarrow>
             (case run_discovery env so cfg (nodes s) of
                Inr result \<Rightarrow> emit_specs env so cfg result s
              | Inl e \<Rightarrow>
                  if so_error_mode so = ErrorModeStrict then (Some (WrapW ''discover resources'' e), s, [])
                  else (case emit_specs env so cfg empty_result s of
                          (r, s1, l) \<Rightarrow> (r, s1, (if so_logger so then [LogDiscoveryFailed e] else []) @ l))))"

text \<open>Generation changes places of the names of its two outputs only.\<close>

lemma emit_npu_spec_keeps:
  assumes "emit_npu_spec env so spec s = (r, s', l)" "keeps own base (nodes s)"
    and "path_comps (so_output_path so) = cs @ [c]" "own c" "c \<noteq> ''.''" "c \<noteq> ''..''"
  shows "keeps own base (nodes s')"
  using assms(1,2) write_spec_keeps [where own = own and c = c, OF _ assms(2-6)]
  by (auto simp: emit_npu_spec_def split: if_splits prod.splits option.splits)

lemma emit_rds_spec_keeps:
  assumes "emit_rds_spec env so g s = (r, s', l)" "keeps own base (nodes s)"
    and "path_comps (so_rds_output_path so) = cs @ [c]" "own c" "c \<noteq> ''.''" "c \<noteq> ''..''"
  shows "keeps own base (nodes s')"
  using assms(1,2) write_spec_keeps [where own = own and c = c, OF _ assms(2-6)] remove_keeps [where own = own and c = c, OF _ assms(2-6)]
  by (auto simp: emit_rds_spec_def split: if_splits prod.splits option.splits sum.splits)

lemma generate_cdi_spec_keeps:
  assumes "generate_cdi_spec env (Some so) s = (r, s', l)" "keeps own base (nodes s)"
    and "path_comps (so_output_path so) = cs @ [c]" "own c" "c \<noteq> ''.''" "c \<noteq> ''..''"
    and "path_comps (so_rds_output_path so) = ds @ [d]" "own d" "d \<noteq> ''.''" "d \<noteq> ''..''"
  shows "keeps own base (nodes s')"
proof -
  have emit: "keeps own base (nodes s')" if "emit_specs env so cfg result s = (r, s', l)" for cfg result s' l
    using that emit_npu_spec_keeps [where own = own and c = c, OF _ assms(2-6)]
      emit_rds_spec_keeps [where own = own and c = d, OF _ _ assms(7-10)]
    by (fastforce simp: emit_specs_def Let_def split: prod.splits option.splits)
  show ?thesis
    using assms(1,2) emit by (auto simp: generate_cdi_spec_def Let_def split: option.splits sum.splits if_splits prod.splits)
qed

context file_invariant begin

lemma keeps_npu:
  "\<lbrakk> emit_npu_spec env so spec s = (r, s', l); always P h s; \<And>fs. P fs \<Longrightarrow> P (snd (fs_mkdir_all (path_dir (so_output_path so)) fs)) \<rbrakk>
   \<Longrightarrow> always P h s'"
  by (auto simp: emit_npu_spec_def split: prod.splits option.splits if_splits dest: keeps_write_spec)

lemma keeps_rds:
  "\<lbrakk> emit_rds_spec env so g s = (r, s', l); always P h s; \<And>fs. P fs \<Longrightarrow> P (snd (fs_mkdir_all (path_dir (so_rds_output_path so)) fs)) \<rbrakk>
   \<Longrightarrow> always P h s'"
  by (auto simp: emit_rds_spec_def split: prod.splits option.splits sum.splits if_splits dest: keeps_write_spec keeps_files)

lemma keeps_emit:
  assumes "emit_specs env so cfg result s = (r, s', l)" "always P h s"
    and mkdir: "\<And>q fs. \<lbrakk> q \<in> {so_output_path so, so_rds_output_path so}; P fs \<rbrakk> \<Longrightarrow> P (snd (fs_mkdir_all (path_dir q) fs))"
  shows "always P h s'"
proof -
  note k = keeps_npu [OF _ _ mkdir [of "so_output_path so"]] keeps_rds [OF _ _ mkdir [of "so_rds_output_path so"]]
  show ?thesis using assms(1,2) by (auto simp: emit_specs_def Let_def split: prod.splits option.splits dest: k)
qed

lemma keeps_generate:
  assumes "generate_cdi_spec env (Some so) s = (r, s', l)" "always P h s"
    and mkdir: "\<And>q fs. \<lbrakk> q \<in> {so_output_path so, so_rds_output_path so}; P fs \<rbrakk> \<Longrightarrow> P (snd (fs_mkdir_all (path_dir q) fs))"
  shows "always P h s'"
  using assms(1,2)
  by (auto simp: generate_cdi_spec_def split: prod.splits option.splits sum.splits if_splits dest: keeps_emit [OF _ _ mkdir])

end

text \<open>
  What a successful generation leaves at its first path, whatever was there before: the marshalled
  specification of what was discovered on the host when it began.
\<close>

definition discovered :: "setup_env \<Rightarrow> setup_options \<Rightarrow> config \<Rightarrow> fs \<Rightarrow> discovery_result" where
  "discovered env so cfg fs = (case run_discovery env so cfg fs of Inl e \<Rightarrow> empty_result | Inr r \<Rightarrow> r)"

definition generated_spec :: "setup_env \<Rightarrow> setup_options \<Rightarrow> config \<Rightarrow> fs \<Rightarrow> cdi_spec" where
  "generated_spec env so cfg fs =
     generate (setup_generator env cfg (fst (resolve_topology env so)) fs) (Some (discovered env so cfg fs))"

lemma generate_installs:
  assumes g: "generate_cdi_spec env (Some so) s = (None, s', l)" and cfg: "so_config so = Some cfg"
    and pieces: "\<And>d. concat (se_pieces env d) = d"
    and c: "path_comps (so_output_path so) = cs @ [c]" "c \<noteq> ''.''" "c \<noteq> ''..''"
    and d: "path_comps (so_rds_output_path so) = ds @ [d]" "d \<noteq> ''.''" "d \<noteq> ''..''" "c \<noteq> d"
    and plain: "own_plain (\<lambda>n. n \<in> {c, d}) (nodes s)"
    and mkdir: "\<And>fs. no_dirs (\<lambda>n. n = d) fs \<Longrightarrow> no_dirs (\<lambda>n. n = d) (snd (fs_mkdir_all (path_dir (so_output_path so)) fs))"
  shows "\<exists>data. write_to_writer (se_marshal env) (Some (generated_spec env so cfg (nodes s))) (or_yaml (so_format so)) = Inr data
    \<and> fs_read_file (nodes s') (so_output_path so) = Inr data"
proof -
  let ?g = "setup_generator env cfg (fst (resolve_topology env so)) (nodes s)"
  have ne: "so_output_path so \<noteq> []" using c(1) by (auto simp: path_comps_def)
  obtain l1 where e: "emit_specs env so cfg (discovered env so cfg (nodes s)) s = (None, s', l1)"
    using g cfg by (auto simp: generate_cdi_spec_def discovered_def split: sum.splits if_splits prod.splits)
  then obtain s1 l2 l3 where n: "emit_npu_spec env so (generated_spec env so cfg (nodes s)) s = (None, s1, l2)"
    and r: "emit_rds_spec env so ?g s1 = (None, s', l3)"
    by (auto simp: emit_specs_def generated_spec_def Let_def split: prod.splits option.splits)
  have w: "write_spec (se_marshal env) (se_pieces env) (se_suffixes env) (Some (generated_spec env so cfg (nodes s)))
      (so_output_path so) (or_yaml (so_format so)) s = (None, s1)"
    using n ne by (auto simp: emit_npu_spec_def split: prod.splits option.splits)
  have links: "node_at (nodes s) k \<noteq> Some (Sym t)" if "own_key (\<lambda>n. n = c) k \<or> own_key (\<lambda>n. n = d) k" for k t
    using plain that by (auto simp: own_plain_def own_key_def)
  obtain data k where k: "write_to_writer (se_marshal env) (Some (generated_spec env so cfg (nodes s))) (or_yaml (so_format so)) = Inr data"
    "resolve (nodes s1) True (so_output_path so) = Inr k" "own_key (\<lambda>n. n = c) k" "node_at (nodes s1) k = Some (Reg data 0x1A4)"
    using write_spec_installs [OF w pieces c links] by blast
  have "always (no_dirs (\<lambda>n. n = d)) (history s) s" using plain by (simp add: own_plain_def no_dirs_def own_key_def)
  from always_now [OF nodirs.keeps_npu [OF n this mkdir]] have dirs: "no_dirs (\<lambda>n. n = d) (nodes s1)" .
  have "keeps (\<lambda>n. n = c) (nodes s) (nodes s1)" by (rule write_spec_keeps [OF w keeps_refl c(1) refl c(2,3)])
  then have "no_new_links (nodes s) (nodes s1)" unfolding keeps_def ..
  then have "node_at (nodes s1) k \<noteq> Some (Sym t)" if "own_key (\<lambda>n. n = d) k" for k t
    using links that unfolding no_new_links_def by blast
  with dirs have plain1: "own_plain (\<lambda>n. n = d) (nodes s1)" by (simp add: own_plain_def no_dirs_def)
  have kp: "keeps (\<lambda>n. n = d) (nodes s1) (nodes s')" by (rule emit_rds_spec_keeps [OF r keeps_refl d(1) refl d(2,3)])
  have "\<not> own_key (\<lambda>n. n = d) k" using k(3) d(4) by (auto simp: own_key_def)
  from read_file_keeps [OF kp plain1 k(2) this read_file_at [OF k(2,4)]] k(1) show ?thesis by blast
qed

text \<open>
  The preview: \<open>out\<close> is the \<open>io.Writer\<close>, which may refuse a chunk; the result is the error and the
  chunks that were written.
\<close>

definition emit_text :: "(string \<Rightarrow> gerr option) \<Rightarrow> string \<Rightarrow> string list \<Rightarrow> gerr option \<times> string list" where
  "emit_text out d acc = (case out d of Some e \<Rightarrow> (Some e, acc) | None \<Rightarrow> (None, acc @ [d]))"

definition emit_spec ::
  "marshallers \<Rightarrow> (string \<Rightarrow> gerr option) \<Rightarrow> cdi_spec \<Rightarrow> string \<Rightarrow> string list \<Rightarrow> gerr option \<times> string list" where
  "emit_spec m out spec f acc = (case write_to_writer m (Some spec) f of
      Inl e \<Rightarrow> (Some e, acc)
    | Inr d \<Rightarrow> (case emit_text out d acc of (Some e, acc') \<Rightarrow> (Some (WrapW ''write spec'' e), acc') | r \<Rightarrow> r))"

definition generate_cdi_spec_to_writer ::
  "setup_env \<Rightarrow> (string \<Rightarrow> gerr option) \<Rightarrow> setup_options option \<Rightarrow> fs \<Rightarrow> gerr option \<times> string list" where
  "generate_cdi_spec_to_writer env out opts fs =
     (let so = (case opts of None \<Rightarrow> setup_default_options | Some o1 \<Rightarrow> o1)
      in case so_config so of
           None \<Rightarrow> (Some (Msg ''config is required''), [])
         | Some cfg \<Rightarrow>
             (let d = run_discovery env so cfg fs
              in if isl d \<and> so_error_mode so = ErrorModeStrict
                 then (Some (WrapW ''discover resources'' (projl d)), [])
                 else let result = (case d of Inl _ \<Rightarrow> empty_result | Inr r \<Rightarrow> r);
                          g = setup_generator env cfg (fst (resolve_topology env so)) fs;
                          f = or_yaml (so_format so)
                      in case emit_spec (se_marshal env) out (generate g (Some result)) f [] of
                           (Some e, acc) \<Rightarrow> (Some (WrapW ''write CDI spec'' e), acc)
                         | (None, acc) \<Rightarrow>
                             (case build_rds_spec so g fs of
                                Inl e \<Rightarrow> if so_error_mode so = ErrorModeStrict
                                         then (Some (WrapW ''build RDS CDI spec'' e), acc) else (None, acc)
                              | Inr None \<Rightarrow> (None, acc)
                              | Inr (Some rs) \<Rightarrow>
                                  (case emit_text out (''---'' @ [newline]) acc of
                                     (Some e, acc') \<Rightarrow> (Some (WrapW ''write RDS spec separator'' e), acc')
                                   | (None, acc') \<Rightarrow>
                                       (case emit_spec (se_marshal env) out rs f acc' of
                                          (Some e, acc'') \<Rightarrow> (Some (WrapW ''write RDS CDI spec'' e), acc'')
                                        | r \<Rightarrow> r)))))"

subsection \<open>Error modes\<close>

definition write_error :: "gerr option \<Rightarrow> bool" where
  "write_error r = (case r of None \<Rightarrow> True
     | Some (WrapW m _) \<Rightarrow> m = ''write CDI spec'' \<or> m = ''write RDS CDI spec'' | Some _ \<Rightarrow> False)"

lemma emit_rds_spec_error: "so_error_mode so = ErrorModeLenient \<Longrightarrow> write_error (fst (emit_rds_spec env so g s))"
  by (auto simp: emit_rds_spec_def write_error_def split: sum.splits option.splits prod.splits)

lemma emit_npu_spec_error: "write_error (fst (emit_npu_spec env so spec s))"
  by (auto simp: emit_npu_spec_def write_error_def split: option.splits prod.splits)

lemma emit_specs_error:
  assumes "so_error_mode so = ErrorModeLenient"
  shows "write_error (fst (emit_specs env so cfg result s))"
proof -
  obtain res l1 where t: "resolve_topology env so = (res, l1)" by fastforce
  let ?g = "setup_generator env cfg res (nodes s)"
  obtain w s1 l2 where w: "emit_npu_spec env so (generate ?g (Some result)) s = (w, s1, l2)" by (metis prod_cases3)
  obtain r s2 l3 where r: "emit_rds_spec env so ?g s1 = (r, s2, l3)" by (metis prod_cases3)
  have "write_error w" using emit_npu_spec_error [of env so "generate ?g (Some result)" s] w by simp
  moreover have "write_error r" using emit_rds_spec_error [OF assms, of env ?g s1] r by simp
  ultimately show ?thesis by (cases w) (simp_all add: emit_specs_def t w r)
qed

text \<open>
  Strict mode stops at a failed discovery before anything is written; lenient mode never stops
  there: with a configuration, the only errors it can return are those of the two writes.
\<close>

theorem error_modes:
  assumes "so_config so = Some cfg"
  shows "(so_error_mode so = ErrorModeStrict \<and> run_discovery env so cfg (nodes s) = Inl e \<longrightarrow>
      generate_cdi_spec env (Some so) s = (Some (WrapW ''discover resources'' e), s, []))
    \<and> (so_error_mode so = ErrorModeLenient \<longrightarrow> write_error (fst (generate_cdi_spec env (Some so) s)))"
proof (intro conjI impI)
  assume "so_error_mode so = ErrorModeStrict \<and> run_discovery env so cfg (nodes s) = Inl e"
  then show "generate_cdi_spec env (Some so) s = (Some (WrapW ''discover resources'' e), s, [])"
    using assms by (simp add: generate_cdi_spec_def)
next
  assume len: "so_error_mode so = ErrorModeLenient"
  obtain r s1 l where e: "emit_specs env so cfg empty_result s = (r, s1, l)" by (metis prod_cases3)
  have "write_error r" using emit_specs_error [OF len, of env cfg empty_result s] e by simp
  then show "write_error (fst (generate_cdi_spec env (Some so) s))"
    using assms len e emit_specs_error [OF len]
    by (cases "run_discovery env so cfg (nodes s)") (simp_all add: generate_cdi_spec_def)
qed

text \<open>The RDS class does not look at the Kubernetes switch.\<close>

lemma build_rds_spec_ignores_disabled:
  assumes "so_config so = Some cfg"
  shows "build_rds_spec (so\<lparr>so_config := Some (cfg\<lparr>devices := dc\<rparr>)\<rparr>) (setup_generator env (cfg\<lparr>devices := dc\<rparr>) r fs) fs
    = build_rds_spec so (setup_generator env cfg r' fs) fs"
  using assms
  by (simp add: build_rds_spec_def discover_rds_devices_def generate_rds_def setup_generator_def new_generator_def Let_def
      split: option.split sum.split)

text \<open>
  End to end: when generation without the RDS class succeeds over an existing specification
  file, the file holds exactly the marshalled specification the generator builds from what
  discovery found on the host before the write, with the resolved topology.
\<close>

lemma generated_file_current:
  assumes "so_config so = Some cfg" "so_output_path so \<noteq> []" "so_rds_output_path so = []"
    and "run_discovery env so cfg (nodes s) = Inr result"
    and "resolve (nodes s) False (so_output_path so) = Inr kb" "node_at (nodes s) kb = Some (Reg old m0)"
    and "\<And>d. concat (se_pieces env d) = d"
    and "generate_cdi_spec env (Some so) s = (None, s', l)"
  shows "\<exists>data. write_to_writer (se_marshal env)
           (Some (generate (setup_generator env cfg (fst (resolve_topology env so)) (nodes s)) (Some result)))
           (or_yaml (so_format so)) = Inr data
         \<and> fs_lstat (nodes s') (so_output_path so) = Inr (Reg data 0x1A4)"
proof -
  obtain res l1 where t: "resolve_topology env so = (res, l1)" by fastforce
  let ?g = "setup_generator env cfg res (nodes s)"
  let ?spec = "Some (generate ?g (Some result))"
  obtain w s1 where w: "write_spec (se_marshal env) (se_pieces env) (se_suffixes env) ?spec
      (so_output_path so) (or_yaml (so_format so)) s = (w, s1)" by fastforce
  have rds: "emit_rds_spec env so ?g s1 = (None, s1, [])" using assms(3) by (simp add: emit_rds_spec_def)
  from assms(8) have "w = None" "s' = s1"
    using assms(1,2,4) t w rds
    by (auto simp: generate_cdi_spec_def emit_specs_def emit_npu_spec_def split: option.splits)
  moreover obtain data where d: "write_to_writer (se_marshal env) ?spec (or_yaml (so_format so)) = Inr data"
    using w \<open>w = None\<close> by (auto simp: write_spec_def split: sum.splits if_splits)
  ultimately show ?thesis
    using write_spec_commits [OF w [unfolded \<open>w = None\<close>] assms(5,6) d assms(7)] t by auto
qed

text \<open>A host with one library and an old specification file.\<close>

definition demo_env :: setup_env where
  "demo_env = \<lparr> se_needed = (\<lambda>_. None), se_soname = (\<lambda>_. None), se_topology = load_rblnml_resolver_stub,
     se_marshal = plain_marshallers, se_pieces = (\<lambda>d. [d]), se_suffixes = [''1''] \<rparr>"

definition demo_options :: "error_mode \<Rightarrow> library_discoverer \<Rightarrow> setup_options" where
  "demo_options m ld = \<lparr> so_config = Some default_config, so_output_path = ''/cdi/rbln.yaml'', so_rds_output_path = [],
     so_format = [], so_error_mode = m, so_library_discoverer = Some ld, so_tool_discoverer = Some (Inr []),
     so_device_discoverer = Some (Inr []), so_rds_device_discoverer = None, so_resolver = Some NoopResolver, so_logger = True \<rparr>"

definition demo_discoverer :: library_discoverer where
  "demo_discoverer = \<lparr> ld_rbln = Inr (dr_libraries two_npus), ld_dependencies = (\<lambda>_. Inr []), ld_plugins = Inr [], ld_rdma = Inr [] \<rparr>"

definition demo_host :: os where
  "demo_host = \<lparr> nodes = [([''cdi''], Dir), ([''cdi'', ''rbln.yaml''], Reg ''old'' 0x1A4)], faults = [], history = [] \<rparr>"

theorem error_modes_witness:
  "generate_cdi_spec demo_env (Some (demo_options ErrorModeStrict (demo_discoverer\<lparr>ld_plugins := Inl (Sys EIO)\<rparr>))) demo_host
     = (Some (WrapW ''discover resources'' (WrapW ''discover plugins'' (Sys EIO))), demo_host, [])"
proof -
  let ?so = "demo_options ErrorModeStrict (demo_discoverer\<lparr>ld_plugins := Inl (Sys EIO)\<rparr>)"
  have "so_config ?so = Some default_config" "so_error_mode ?so = ErrorModeStrict"
    by (simp_all add: demo_options_def)
  moreover have "run_discovery demo_env ?so default_config (nodes demo_host) = Inl (WrapW ''discover plugins'' (Sys EIO))"
    by (simp add: run_discovery_def demo_options_def demo_discoverer_def discover_resources_def)
  ultimately show ?thesis using error_modes by blast
qed

lemma demo_run: "fst (generate_cdi_spec demo_env (Some (demo_options ErrorModeStrict demo_discoverer)) demo_host) = None"
  by code_simp

lemma generated_file_current_witness:
  "fs_lstat (nodes (fst (snd (generate_cdi_spec demo_env (Some (demo_options ErrorModeStrict demo_discoverer)) demo_host))))
     ''/cdi/rbln.yaml'' = Inr (Reg ''new rebellions.ai/npu'' 0x1A4)"
proof -
  let ?so = "demo_options ErrorModeStrict demo_discoverer"
  obtain s' l where g: "generate_cdi_spec demo_env (Some ?so) demo_host = (None, s', l)"
    using demo_run by (metis prod.collapse)
  have so: "so_config ?so = Some default_config" "so_output_path ?so = ''/cdi/rbln.yaml''" "so_rds_output_path ?so = []"
    "so_format ?so = []"
    by (simp_all add: demo_options_def)
  have d: "run_discovery demo_env ?so default_config (nodes demo_host) = Inr (two_npus\<lparr>dr_devices := []\<rparr>)"
    by (simp add: run_discovery_def demo_options_def demo_discoverer_def discover_resources_def two_npus_def)
  have h: "resolve (nodes demo_host) False ''/cdi/rbln.yaml'' = Inr [''cdi'', ''rbln.yaml'']"
    "node_at (nodes demo_host) [''cdi'', ''rbln.yaml''] = Some (Reg ''old'' 0x1A4)"
    by (simp_all add: demo_host_def fs_eval)
  have "so_output_path ?so \<noteq> []" "concat (se_pieces demo_env x) = x" for x by (simp_all add: so demo_env_def)
  from generated_file_current [OF so(1) this(1) so(3) d _ h(2) this(2) g] h(1) obtain data where
    "write_to_writer (se_marshal demo_env) (Some (generate (setup_generator demo_env default_config
        (fst (resolve_topology demo_env ?so)) (nodes demo_host)) (Some (two_npus\<lparr>dr_devices := []\<rparr>)))) (or_yaml []) = Inr data"
    and l: "fs_lstat (nodes s') ''/cdi/rbln.yaml'' = Inr (Reg data 0x1A4)"
    unfolding so by auto
  then have "data = ''new rebellions.ai/npu''"
    by (simp add: write_to_writer_def or_yaml_def demo_env_def plain_marshallers_def to_yaml_spec_def generate_def
        setup_generator_def new_generator_def Let_def split: prod.splits)
  with l show ?thesis by (simp add: g)
qed

end
