(* ===== verification/Trees.thy ===== *)
theory Trees imports Main "HOL-Library.AList" begin

text \<open>
  Parsed TOML and JSON documents, the values behind Go's \<open>interface{}\<close>: tables are association lists
  whose order means nothing to the code, and \<open>VOther\<close> is the text of a scalar the code never looks at
  (a date, a floating-point number, \<open>null\<close>).
\<close>

subsection \<open>Trees\<close>

datatype val = VStr string | VBool bool | VInt int | VOther string | VArr "val list" | VTab "(string \<times> val) list"

type_synonym table = "(string \<times> val) list"

definition get_tab :: "table \<Rightarrow> string \<Rightarrow> table option" where
  "get_tab t k = (case map_of t k of Some (VTab u) \<Rightarrow> Some u | _ \<Rightarrow> None)"

definition get_bool :: "table \<Rightarrow> string \<Rightarrow> bool option" where
  "get_bool t k = (case map_of t k of Some (VBool b) \<Rightarrow> Some b | _ \<Rightarrow> None)"

definition the_strings :: "val list \<Rightarrow> string list" where
  "the_strings vs = concat (map (\<lambda>v. case v of VStr s \<Rightarrow> [s] | _ \<Rightarrow> []) vs)"

definition get_strings :: "table \<Rightarrow> string \<Rightarrow> string list option" where
  "get_strings t k = (case map_of t k of Some (VArr vs) \<Rightarrow> Some (the_strings vs) | _ \<Rightarrow> None)"

subsection \<open>Documents that differ in the order of their keys\<close>

inductive same_val :: "val \<Rightarrow> val \<Rightarrow> bool" where
  Str: "same_val (VStr s) (VStr s)"
| Bool: "same_val (VBool b) (VBool b)"
| Int: "same_val (VInt i) (VInt i)"
| Other: "same_val (VOther s) (VOther s)"
| Arr: "list_all2 same_val vs ws \<Longrightarrow> same_val (VArr vs) (VArr ws)"
| Tab: "(\<And>k. rel_option same_val (map_of t k) (map_of u k)) \<Longrightarrow> same_val (VTab t) (VTab u)"

inductive_simps same_val_simps [simp]:
  "same_val (VStr s) w" "same_val (VBool b) w" "same_val (VInt i) w" "same_val (VOther s) w"
  "same_val (VArr vs) w" "same_val (VTab t) w"

definition same_table :: "table \<Rightarrow> table \<Rightarrow> bool" where
  "same_table t u \<longleftrightarrow> (\<forall>k. rel_option same_val (map_of t k) (map_of u k))"

lemma same_table_option: "same_table t u \<Longrightarrow> rel_option same_val (map_of t k) (map_of u k)"
  by (simp add: same_table_def)

lemma same_get_tab: "same_table t u \<Longrightarrow> rel_option same_table (get_tab t k) (get_tab u k)"
  using same_table_option [of t u k]
  by (cases "map_of t k" rule: option.exhaust; cases "map_of u k")
    (auto simp: get_tab_def same_table_def split: val.split)

lemma same_get_bool: "same_table t u \<Longrightarrow> get_bool u k = get_bool t k"
  using same_table_option [of t u k]
  by (cases "map_of t k"; cases "map_of u k") (auto simp: get_bool_def split: val.split)

lemma same_the_strings: "list_all2 same_val vs ws \<Longrightarrow> the_strings ws = the_strings vs"
proof (induction rule: list_all2_induct)
  case (Cons v vs w ws)
  then show ?case by (cases v) (auto simp: the_strings_def)
qed simp

lemma same_get_strings: "same_table t u \<Longrightarrow> get_strings u k = get_strings t k"
  using same_table_option [of t u k]
  by (cases "map_of t k"; cases "map_of u k") (auto simp: get_strings_def same_the_strings split: val.split)

end
