(* ===== verification/Json_String.thy ===== *)
theory Json_String imports Go_Strings begin

text \<open>
  String literals of JSON as Go's \<open>encoding/json\<close> writes and reads them, for the components that keep
  their state in JSON (the runtime configuration of Docker, the health endpoints, the PID file). Strings
  are byte lists: both directions work on the UTF-8 encodings at the front of a string and replace a
  byte that starts none by U+FFFD. Nothing here is code of the repository.
\<close>

abbreviation byte_of :: "char \<Rightarrow> nat" where "byte_of c \<equiv> of_char c"

abbreviation dquote :: char where "dquote \<equiv> CHR 0x22"

abbreviation backslash :: char where "backslash \<equiv> CHR 0x5C"

subsection \<open>UTF-8\<close>

definition continuation :: "char \<Rightarrow> bool" where
  "continuation c \<longleftrightarrow> 0x80 \<le> byte_of c \<and> byte_of c \<le> 0xBF"

text \<open>The second byte after a given first one: no overlong forms, no surrogates, nothing above U+10FFFF.\<close>

definition second_byte :: "nat \<Rightarrow> char \<Rightarrow> bool" where
  "second_byte n c \<longleftrightarrow> continuation c \<and> (n = 0xE0 \<longrightarrow> 0xA0 \<le> byte_of c) \<and> (n = 0xED \<longrightarrow> byte_of c \<le> 0x9F)
     \<and> (n = 0xF0 \<longrightarrow> 0x90 \<le> byte_of c) \<and> (n = 0xF4 \<longrightarrow> byte_of c \<le> 0x8F)"

text \<open>\<open>utf8.DecodeRuneInString\<close>: the length of the encoding at the front, 0 where there is none.\<close>

fun rune_len :: "string \<Rightarrow> nat" where
  "rune_len [] = 0"
| "rune_len (c # r) =
     (if byte_of c < 0x80 then 1
      else if byte_of c < 0xC2 then 0
      else if byte_of c \<le> 0xDF then (case r of a # _ \<Rightarrow> if continuation a then 2 else 0 | _ \<Rightarrow> 0)
      else if byte_of c \<le> 0xEF
        then (case r of a # b # _ \<Rightarrow> if second_byte (byte_of c) a \<and> continuation b then 3 else 0 | _ \<Rightarrow> 0)
      else if byte_of c \<le> 0xF4
        then (case r of a # b # d # _ \<Rightarrow>
                if second_byte (byte_of c) a \<and> continuation b \<and> continuation d then 4 else 0 | _ \<Rightarrow> 0)
      else 0)"

text \<open>\<open>utf8.EncodeRune\<close>; surrogates and values out of range become U+FFFD.\<close>

definition replacement :: string where "replacement = [CHR 0xEF, CHR 0xBF, CHR 0xBD]"

definition encode_rune :: "nat \<Rightarrow> string" where
  "encode_rune n =
     (if n < 0x80 then [char_of n]
      else if n < 0x800 then [char_of (0xC0 + n div 64), char_of (0x80 + n mod 64)]
      else if 0xD800 \<le> n \<and> n < 0xE000 \<or> 0x110000 \<le> n then replacement
      else if n < 0x10000
        then [char_of (0xE0 + n div 4096), char_of (0x80 + n div 64 mod 64), char_of (0x80 + n mod 64)]
      else [char_of (0xF0 + n div 262144), char_of (0x80 + n div 4096 mod 64), char_of (0x80 + n div 64 mod 64),
            char_of (0x80 + n mod 64)])"

lemma rune_len_le: "rune_len s \<le> length s"
  by (cases s) (auto split: list.split)

lemma rune_len_pos: "rune_len (c # s) = 0 \<Longrightarrow> 0x80 \<le> byte_of c"
  by (auto split: if_splits)

lemma rune_len_take: "rune_len s \<noteq> 0 \<Longrightarrow> rune_len (take (rune_len s) s @ x) = rune_len s"
  by (cases s) (auto split: list.splits if_splits)

lemma rune_len_one: "rune_len s = 1 \<Longrightarrow> \<exists>c r. s = c # r \<and> byte_of c < 0x80"
  by (cases s) (auto split: list.splits if_splits)

lemma rune_len_high: "\<lbrakk> rune_len (c # s) \<noteq> 1 \<rbrakk> \<Longrightarrow> 0x80 \<le> byte_of c"
  by (auto split: if_splits)

lemma rune_len_encode: "rune_len (encode_rune n @ x) = length (encode_rune n)"
proof -
  have m: "m mod 64 < 64" for m :: nat by simp
  consider "n < 0x80" | "0x80 \<le> n" "n < 0x800" | "0x800 \<le> n" "0xD800 \<le> n \<and> n < 0xE000 \<or> 0x110000 \<le> n"
    | "0x800 \<le> n" "n < 0x10000" "\<not> (0xD800 \<le> n \<and> n < 0xE000)" | "0x10000 \<le> n" "n < 0x110000" by linarith
  then show ?thesis
  proof cases
    case 1
    then show ?thesis by (simp add: encode_rune_def)
  next
    case 2
    then have "2 \<le> n div 64" "n div 64 < 32" by linarith+
    with 2 m [of n] show ?thesis by (simp add: encode_rune_def continuation_def)
  next
    case 3
    then have "encode_rune n = replacement" by (auto simp: encode_rune_def)
    then show ?thesis by (simp add: replacement_def continuation_def second_byte_def)
  next
    case 4
    then have b: "32 \<le> n div 64" "n div 64 < 1024" "n div 64 < 864 \<or> 896 \<le> n div 64" by linarith+
    have d: "n div 4096 = n div 64 div 64" by (simp add: div_mult2_eq [symmetric])
    note e = mult_div_mod_eq [of 64 "n div 64"]
    have "n div 4096 < 16" "n div 4096 = 0 \<longrightarrow> 32 \<le> n div 64 mod 64" "n div 4096 = 13 \<longrightarrow> n div 64 mod 64 < 32"
      using b e m [of "n div 64"] unfolding d by linarith+
    with 4 m [of n] m [of "n div 64"] show ?thesis
      by (auto simp: encode_rune_def continuation_def second_byte_def)
  next
    case 5
    then have b: "16 \<le> n div 4096" "n div 4096 < 272" by linarith+
    have d: "n div 262144 = n div 4096 div 64" by (simp add: div_mult2_eq [symmetric])
    note e = mult_div_mod_eq [of 64 "n div 4096"]
    have "n div 262144 < 5" "n div 262144 = 0 \<longrightarrow> 16 \<le> n div 4096 mod 64" "n div 262144 = 4 \<longrightarrow> n div 4096 mod 64 < 16"
      using b e m [of "n div 4096"] unfolding d by linarith+
    with 5 m [of n] m [of "n div 64"] m [of "n div 4096"] show ?thesis
      by (auto simp: encode_rune_def continuation_def second_byte_def)
  qed
qed

text \<open>\<open>strings.ToValidUTF8\<close> with one replacement per byte, which is what both directions do.\<close>

function to_valid :: "string \<Rightarrow> string" where
  "to_valid [] = []"
| "to_valid (c # s) =
     (if rune_len (c # s) = 0 then replacement @ to_valid s
      else take (rune_len (c # s)) (c # s) @ to_valid (drop (rune_len (c # s)) (c # s)))"
  by pat_completeness auto
termination
  by (relation "measure length") (auto simp del: rune_len.simps)

function valid_utf8 :: "string \<Rightarrow> bool" where
  "valid_utf8 [] = True"
| "valid_utf8 (c # s) =
     (if rune_len (c # s) = 0 then False else valid_utf8 (drop (rune_len (c # s)) (c # s)))"
  by pat_completeness auto
termination
  by (relation "measure length") (auto simp del: rune_len.simps)

declare rune_len.simps [simp del] to_valid.simps(2) [simp del] valid_utf8.simps(2) [simp del]

lemma valid_utf8_append: "\<lbrakk> rune_len (p @ s) = length p; p \<noteq> [] \<rbrakk> \<Longrightarrow> valid_utf8 (p @ s) = valid_utf8 s"
  by (cases p) (simp_all add: valid_utf8.simps(2))

lemma to_valid_id: "valid_utf8 s \<Longrightarrow> to_valid s = s"
proof (induction s rule: valid_utf8.induct)
  case (2 c s)
  then have "rune_len (c # s) \<noteq> 0" "valid_utf8 (drop (rune_len (c # s)) (c # s))"
    by (auto simp only: valid_utf8.simps(2) split: if_split_asm)
  moreover from this have "to_valid (drop (rune_len (c # s)) (c # s)) = drop (rune_len (c # s)) (c # s)" by (rule "2.IH")
  ultimately show ?case by (simp only: to_valid.simps(2) if_False append_take_drop_id)
qed simp

lemma encode_rune_nonempty [simp]: "encode_rune n \<noteq> []"
  by (simp add: encode_rune_def replacement_def)

lemma replacement_encode: "replacement = encode_rune 0xFFFD"
proof -
  have "char_of (0xEF :: nat) = CHR 0xEF" "char_of (0xBF :: nat) = CHR 0xBF" "char_of (0xBD :: nat) = CHR 0xBD"
    by (simp_all add: char_of_eq_iff)
  then show ?thesis by (simp add: encode_rune_def replacement_def)
qed

lemma valid_encode: "valid_utf8 (encode_rune n @ s) = valid_utf8 s"
  by (rule valid_utf8_append [OF rune_len_encode]) simp

lemma valid_take: "rune_len s \<noteq> 0 \<Longrightarrow> valid_utf8 (take (rune_len s) s @ x) = valid_utf8 x"
  using rune_len_take [of s x] rune_len_le [of s] by (intro valid_utf8_append) (auto simp: min_def)

lemma to_valid_valid: "valid_utf8 (to_valid s)"
proof (induction s rule: to_valid.induct)
  case (2 c s)
  show ?case
  proof (cases "rune_len (c # s) = 0")
    case True
    with "2.IH"(1) [OF True] show ?thesis by (simp only: to_valid.simps(2) replacement_encode valid_encode if_True simp_thms)
  next
    case False
    then have "valid_utf8 (to_valid (drop (rune_len (c # s)) (c # s)))" by (rule "2.IH"(2))
    with False show ?thesis by (simp only: to_valid.simps(2) valid_take not_False_eq_True if_False)
  qed
qed simp

subsection \<open>Writing a literal\<close>

text \<open>Characters with a short escape, and its letter.\<close>

definition short_escape :: "char \<Rightarrow> char option" where
  "short_escape c =
     (if c = dquote \<or> c = backslash then Some c
      else if byte_of c = 8 then Some CHR ''b'' else if byte_of c = 12 then Some CHR ''f''
      else if byte_of c = 10 then Some CHR ''n'' else if byte_of c = 13 then Some CHR ''r''
      else if byte_of c = 9 then Some CHR ''t'' else None)"

definition hex_char :: "nat \<Rightarrow> char" where
  "hex_char n = (if n < 10 then char_of (48 + n) else char_of (87 + n))"

text \<open>The characters that are dangerous in HTML are escaped as well, which is the package's default.\<close>

definition escape_char :: "char \<Rightarrow> string" where
  "escape_char c = (case short_escape c of
      Some e \<Rightarrow> [backslash, e]
    | None \<Rightarrow> if byte_of c < 0x20 \<or> c \<in> set ''<>&''
        then backslash # ''u00'' @ [hex_char (byte_of c div 16), hex_char (byte_of c mod 16)] else [c])"

definition escape_rune :: "string \<Rightarrow> string" where
  "escape_rune p =
     (if p = [CHR 0xE2, CHR 0x80, CHR 0xA8] then backslash # ''u2028''
      else if p = [CHR 0xE2, CHR 0x80, CHR 0xA9] then backslash # ''u2029''
      else case p of [c] \<Rightarrow> escape_char c | _ \<Rightarrow> p)"

function escape_string :: "string \<Rightarrow> string" where
  "escape_string [] = []"
| "escape_string (c # s) =
     (if rune_len (c # s) = 0 then backslash # ''ufffd'' @ escape_string s
      else escape_rune (take (rune_len (c # s)) (c # s)) @ escape_string (drop (rune_len (c # s)) (c # s)))"
  by pat_completeness auto
termination
  by (relation "measure length") auto

definition quote_string :: "string \<Rightarrow> string" where
  "quote_string s = dquote # escape_string s @ [dquote]"

subsection \<open>Reading a literal\<close>

definition long_escape :: "char \<Rightarrow> char option" where
  "long_escape e =
     (if e = dquote \<or> e = backslash \<or> e = CHR ''/'' then Some e
      else if e = CHR ''b'' then Some (char_of (8 :: nat)) else if e = CHR ''f'' then Some (char_of (12 :: nat))
      else if e = CHR ''n'' then Some (char_of (10 :: nat)) else if e = CHR ''r'' then Some (char_of (13 :: nat))
      else if e = CHR ''t'' then Some (char_of (9 :: nat)) else None)"

definition hex_value :: "char \<Rightarrow> nat option" where
  "hex_value c = (let n = byte_of c in
     if 48 \<le> n \<and> n \<le> 57 then Some (n - 48) else if 97 \<le> n \<and> n \<le> 102 then Some (n - 87)
     else if 65 \<le> n \<and> n \<le> 70 then Some (n - 55) else None)"

fun get_u4 :: "string \<Rightarrow> nat option" where
  "get_u4 (a # b # c # d # _) = (case (hex_value a, hex_value b, hex_value c, hex_value d) of
     (Some x, Some y, Some z, Some w) \<Rightarrow> Some (((x * 16 + y) * 16 + z) * 16 + w) | _ \<Rightarrow> None)"
| "get_u4 _ = None"

text \<open>
  What follows \<open>\u\<close>: the encoded rune and the number of characters read. Two escapes that make a
  surrogate pair are one rune; any other surrogate is replaced.
\<close>

definition read_u :: "string \<Rightarrow> (string \<times> nat) option" where
  "read_u r = (case get_u4 r of None \<Rightarrow> None
    | Some a \<Rightarrow>
        if 0xD800 \<le> a \<and> a < 0xE000
        then (case (if has_prefix (drop 4 r) (backslash # ''u'') then get_u4 (drop 6 r) else None) of
                Some b \<Rightarrow> if a < 0xDC00 \<and> 0xDC00 \<le> b \<and> b < 0xE000
                  then Some (encode_rune (0x10000 + (a - 0xD800) * 0x400 + (b - 0xDC00)), 10)
                  else Some (replacement, 4)
              | None \<Rightarrow> Some (replacement, 4))
        else Some (encode_rune a, 4))"

definition prepend :: "string \<Rightarrow> (string \<times> string) option \<Rightarrow> (string \<times> string) option" where
  "prepend p r = map_option (\<lambda>(s, rest). (p @ s, rest)) r"

text \<open>After the opening quote: the value and what follows the closing one.\<close>

function read_string :: "string \<Rightarrow> (string \<times> string) option" where
  "read_string [] = None"
| "read_string (c # s) =
     (if c = dquote then Some ([], s)
      else if c = backslash then (case s of [] \<Rightarrow> None
        | e # s' \<Rightarrow>
            if e = CHR ''u'' then (case read_u s' of None \<Rightarrow> None | Some (p, n) \<Rightarrow> prepend p (read_string (drop n s')))
            else (case long_escape e of None \<Rightarrow> None | Some x \<Rightarrow> prepend [x] (read_string s')))
      else if byte_of c < 0x20 then None
      else if rune_len (c # s) = 0 then prepend replacement (read_string s)
      else prepend (take (rune_len (c # s)) (c # s)) (read_string (drop (rune_len (c # s)) (c # s))))"
  by pat_completeness auto
termination
  by (relation "measure length") auto

declare escape_string.simps(2) [simp del] read_string.simps(2) [simp del]

lemma prepend_Some: "prepend p r = Some (s, rest) \<longleftrightarrow> (\<exists>t. r = Some (t, rest) \<and> s = p @ t)"
  by (auto simp: prepend_def)

lemma prepend_simps [simp]: "prepend p (Some (s, r)) = Some (p @ s, r)" "prepend p None = None"
  "prepend p (prepend q x) = prepend (p @ q) x"
  by (simp_all add: prepend_def) (cases x; auto)

subsection \<open>What is written is read back\<close>

lemma read_plain:
  assumes "rune_len (p @ x) = length p" "p \<noteq> []" "hd p \<noteq> dquote" "hd p \<noteq> backslash" "0x20 \<le> byte_of (hd p)"
  shows "read_string (p @ x) = prepend p (read_string x)"
  using assms by (cases p) (simp_all add: read_string.simps(2))

lemma hex_value_char: "n < 16 \<Longrightarrow> hex_value (hex_char n) = Some n"
  by (auto simp: hex_value_def hex_char_def)

lemma read_u_escape:
  assumes "n < 0x80"
  shows "read_u (''00'' @ hex_char (n div 16) # hex_char (n mod 16) # x) = Some ([char_of n], 4)"
proof -
  have "n div 16 < 16" "n mod 16 < 16" using assms by linarith+
  moreover have "hex_value CHR ''0'' = Some 0" by (simp add: hex_value_def)
  ultimately have "get_u4 (''00'' @ hex_char (n div 16) # hex_char (n mod 16) # x) = Some n"
    by (simp add: hex_value_char)
  with assms show ?thesis by (simp add: read_u_def encode_rune_def)
qed

lemma read_escape_char:
  assumes "byte_of c < 0x80"
  shows "read_string (escape_char c @ x) = prepend [c] (read_string x)"
proof (cases "short_escape c")
  case (Some e)
  then have "long_escape e = Some c" "e \<noteq> CHR ''u''"
    by (auto simp: short_escape_def long_escape_def char_of_eq_iff split: if_splits)
  with Some show ?thesis by (simp add: escape_char_def read_string.simps(2))
next
  case None
  then have c: "c \<noteq> dquote" "c \<noteq> backslash" by (auto simp: short_escape_def split: if_splits)
  show ?thesis
  proof (cases "byte_of c < 0x20 \<or> c \<in> set ''<>&''")
    case True
    then have "escape_char c = backslash # CHR ''u'' # ''00'' @ [hex_char (byte_of c div 16), hex_char (byte_of c mod 16)]"
      using None by (auto simp: escape_char_def)
    then show ?thesis using read_u_escape [OF assms] by (simp add: read_string.simps(2))
  next
    case False
    then have "escape_char c = [c]" "0x20 \<le> byte_of c" using None by (auto simp: escape_char_def)
    then show ?thesis using read_plain [of "[c]" x] c assms by (simp add: rune_len.simps)
  qed
qed

lemma rune_len_set: "rune_len (p @ x) = length p \<Longrightarrow> 1 < length p \<Longrightarrow> 0x80 \<le> byte_of (hd p)"
  using rune_len_high [of "hd p" "tl p @ x"] by (cases p) auto

lemma read_escape_rune:
  assumes "rune_len (p @ x) = length p" "p \<noteq> []"
  shows "read_string (escape_rune p @ x) = prepend p (read_string x)"
proof -
  consider c where "p = [c]" | "1 < length p" using assms(2) by (cases p) auto
  then show ?thesis
  proof cases
    case 1
    with assms rune_len_one [of "p @ x"] show ?thesis by (auto simp: escape_rune_def read_escape_char)
  next
    case 2
    then have h: "0x80 \<le> byte_of (hd p)" using rune_len_set [OF assms(1)] by simp
    have "\<lbrakk> p \<noteq> [CHR 0xE2, CHR 0x80, CHR 0xA8]; p \<noteq> [CHR 0xE2, CHR 0x80, CHR 0xA9] \<rbrakk> \<Longrightarrow> escape_rune p = p"
      using 2 by (auto simp: escape_rune_def split: list.split)
    then consider "p = [CHR 0xE2, CHR 0x80, CHR 0xA8]" | "p = [CHR 0xE2, CHR 0x80, CHR 0xA9]" | "escape_rune p = p" by blast
    then show ?thesis
    proof cases
      case 1
      have "read_u (''2028'' @ x) = Some (p, 4)" using 1 by (simp add: read_u_def hex_value_def encode_rune_def char_of_eq_iff)
      with 1 show ?thesis by (simp add: escape_rune_def read_string.simps(2))
    next
      case 2
      have "read_u (''2029'' @ x) = Some (p, 4)" using 2 by (simp add: read_u_def hex_value_def encode_rune_def char_of_eq_iff)
      with 2 show ?thesis by (simp add: escape_rune_def read_string.simps(2))
    next
      case 3
      from h have "hd p \<noteq> dquote" "hd p \<noteq> backslash" "0x20 \<le> byte_of (hd p)" by auto
      with 3 read_plain [OF assms] show ?thesis by simp
    qed
  qed
qed

lemma read_escape_string: "read_string (escape_string s @ dquote # r) = Some (to_valid s, r)"
proof (induction s rule: escape_string.induct)
  case 1
  show ?case by (simp add: read_string.simps(2))
next
  case (2 c s)
  show ?case
  proof (cases "rune_len (c # s) = 0")
    case True
    have "read_u (''fffd'' @ escape_string s @ dquote # r) = Some (replacement, 4)"
      by (simp add: read_u_def hex_value_def replacement_encode)
    with True "2.IH"(1) show ?thesis
      by (simp add: escape_string.simps(2) to_valid.simps(2) read_string.simps(2))
  next
    case False
    let ?p = "take (rune_len (c # s)) (c # s)" and ?x = "escape_string (drop (rune_len (c # s)) (c # s)) @ dquote # r"
    have "rune_len (?p @ ?x) = length ?p" "?p \<noteq> []"
      using rune_len_take [OF False, of ?x] rune_len_le [of "c # s"] False by (simp_all add: min_def)
    from read_escape_rune [OF this] "2.IH"(2) [OF False] False show ?thesis
      by (simp add: escape_string.simps(2) to_valid.simps(2) del: take_Cons' drop_Cons')
  qed
qed

text \<open>Reading uses up characters, and its result is valid whatever the literal holds.\<close>

lemma read_u_valid: "read_u s = Some (p, n) \<Longrightarrow> \<exists>m. p = encode_rune m"
  unfolding read_u_def replacement_encode by (auto split: option.splits if_splits)

lemma long_escape_ascii: "long_escape e = Some c \<Longrightarrow> byte_of c < 0x80"
  by (auto simp: long_escape_def split: if_splits)

definition whole_rune :: "string \<Rightarrow> bool" where
  "whole_rune p \<longleftrightarrow> p \<noteq> [] \<and> (\<forall>y. rune_len (p @ y) = length p)"

lemma whole_runes: "whole_rune (encode_rune n)" "byte_of c < 0x80 \<Longrightarrow> whole_rune [c]"
  "rune_len s \<noteq> 0 \<Longrightarrow> whole_rune (take (rune_len s) s)"
  using rune_len_take [of s] rune_len_le [of s]
  by (auto simp: whole_rune_def rune_len_encode rune_len.simps(2) min_def)

lemma read_string_step:
  assumes "read_string s = Some (x, r)"
  obtains c where "s = c # r" "x = []"
    | p y s' where "x = p @ y" "whole_rune p" "read_string s' = Some (y, r)" "length s' < length s"
proof -
  obtain c u where s: "s = c # u" using assms by (cases s) auto
  note a = assms [unfolded s read_string.simps(2)]
  consider "c = dquote" | "c = backslash" | "c \<noteq> dquote" "c \<noteq> backslash" by blast
  then show thesis
  proof cases
    case 1
    with a s that(1) show ?thesis by simp
  next
    case 2
    with a obtain e w where u: "u = e # w" by (cases u) simp_all
    show ?thesis
    proof (cases "e = CHR ''u''")
      case True
      with a 2 u obtain p n y where "read_u w = Some (p, n)" "x = p @ y" "read_string (drop n w) = Some (y, r)"
        by (auto simp: prepend_Some split: option.splits)
      then show ?thesis using that(2) [of p y "drop n w"] read_u_valid [of w p n] whole_runes(1) s u by auto
    next
      case False
      with a 2 u obtain v y where "long_escape e = Some v" "x = [v] @ y" "read_string w = Some (y, r)"
        by (auto simp: prepend_Some split: option.splits)
      then show ?thesis using that(2) [of "[v]" y w] whole_runes(2) [OF long_escape_ascii] s u by auto
    qed
  next
    case 3
    show ?thesis
    proof (cases "rune_len s = 0")
      case True
      with a s 3 obtain y where "x = encode_rune 0xFFFD @ y" "read_string u = Some (y, r)"
        by (auto simp: prepend_Some replacement_encode split: if_splits)
      then show ?thesis using that(2) [of "encode_rune 0xFFFD" y u] whole_runes(1) s by simp
    next
      case False
      with a s 3 obtain y where "x = take (rune_len s) s @ y" "read_string (drop (rune_len s) s) = Some (y, r)"
        by (auto simp: prepend_Some split: if_splits)
      then show ?thesis using that(2) [of "take (rune_len s) s" y "drop (rune_len s) s"] whole_runes(3) [OF False] False s by simp
    qed
  qed
qed

lemma read_string_shorter: "read_string s = Some (x, r) \<Longrightarrow> length r < length s"
  by (induction s arbitrary: x rule: length_induct) (erule read_string_step; fastforce)

lemma read_string_valid: "read_string s = Some (x, r) \<Longrightarrow> valid_utf8 x"
proof (induction s arbitrary: x rule: length_induct)
  case (1 s)
  from "1.prems" show ?case
    by (rule read_string_step) (use 1 valid_utf8_append in \<open>auto simp: whole_rune_def\<close>)
qed

end
