(* ===== verification/Json.thy ===== *)
theory Json imports Trees Json_String begin

text \<open>
  Documents of JSON as Go's \<open>encoding/json\<close> reads them into \<open>map[string]interface{}\<close> and writes them
  back. A number goes through a 64-bit float; \<open>num\<close> is that passage (\<open>strconv.ParseFloat\<close> and the shortest
  text of the result), \<open>None\<close> for a number out of range. Nothing here is code of the repository.
\<close>

subsection \<open>Writing\<close>

text \<open>
  The layout is the nesting level for \<open>MarshalIndent\<close> with two blanks, or \<open>None\<close> for one line. The
  members of an object are written in the order given, which is that of the fields for a struct; a map is
  sorted by its keys first.
\<close>

definition deeper :: "nat option \<Rightarrow> nat option" where "deeper i = map_option Suc i"

definition line_break :: "nat option \<Rightarrow> string" where
  "line_break i = (case i of None \<Rightarrow> [] | Some n \<Rightarrow> newline # replicate (2 * n) CHR '' '')"

definition colon :: "nat option \<Rightarrow> string" where
  "colon i = (case i of None \<Rightarrow> '':'' | Some _ \<Rightarrow> '': '')"

fun items :: "nat option \<Rightarrow> string list \<Rightarrow> string" where
  "items i [] = []"
| "items i [x] = x"
| "items i (x # xs) = x @ CHR '','' # line_break (deeper i) @ items i xs"

definition bracket :: "nat option \<Rightarrow> char \<Rightarrow> char \<Rightarrow> string list \<Rightarrow> string" where
  "bracket i a b xs = (if xs = [] then [a, b] else a # line_break (deeper i) @ items i xs @ line_break i @ [b])"

fun json_text :: "nat option \<Rightarrow> val \<Rightarrow> string" where
  "json_text i (VStr s) = quote_string s"
| "json_text i (VBool b) = (if b then ''true'' else ''false'')"
| "json_text i (VInt n) = show_int n"
| "json_text i (VOther x) = x"
| "json_text i (VArr vs) = bracket i CHR ''['' CHR '']'' (map (json_text (deeper i)) vs)"
| "json_text i (VTab t) = bracket i CHR ''{'' CHR ''}''
     (map (\<lambda>(k, v). quote_string k @ colon i @ json_text (deeper i) v) t)"

fun sort_tree :: "val \<Rightarrow> val" where
  "sort_tree (VArr vs) = VArr (map sort_tree vs)"
| "sort_tree (VTab t) = VTab (sort_key fst (AList.clearjunk (map (\<lambda>(k, v). (k, sort_tree v)) t)))"
| "sort_tree v = v"

text \<open>Marshalling a tree of maps, slices and scalars cannot fail.\<close>

definition json_marshal_indent :: "table \<Rightarrow> string" where
  "json_marshal_indent t = json_text (Some 0) (sort_tree (VTab t))"

subsection \<open>Reading\<close>

definition json_space :: "char \<Rightarrow> bool" where
  "json_space c \<longleftrightarrow> byte_of c \<in> {9, 10, 13, 32}"

definition skip_space :: "string \<Rightarrow> string" where
  "skip_space s = dropWhile json_space s"

text \<open>The grammar of numbers, on the longest run of characters that occur in one.\<close>

definition number_char :: "char \<Rightarrow> bool" where
  "number_char c \<longleftrightarrow> is_digit c \<or> c \<in> set ''+-.eE''"

definition json_exponent :: "string \<Rightarrow> bool" where
  "json_exponent s = (case s of [] \<Rightarrow> True
     | c # r \<Rightarrow> (c = CHR ''e'' \<or> c = CHR ''E'')
         \<and> (let d = (case r of x # r' \<Rightarrow> if x = CHR ''+'' \<or> x = CHR ''-'' then r' else r | [] \<Rightarrow> [])
            in d \<noteq> [] \<and> list_all is_digit d))"

definition json_fraction :: "string \<Rightarrow> bool" where
  "json_fraction s = (case s of [] \<Rightarrow> True
     | c # r \<Rightarrow> if c = CHR ''.'' then takeWhile is_digit r \<noteq> [] \<and> json_exponent (dropWhile is_digit r)
                else json_exponent s)"

definition json_number :: "string \<Rightarrow> bool" where
  "json_number s = (let r = trim_prefix s ''-''; d = takeWhile is_digit r
     in d \<noteq> [] \<and> (hd d = CHR ''0'' \<longrightarrow> length d = 1) \<and> json_fraction (dropWhile is_digit r))"

text \<open>
  The scanner on a value, on the rest of a non-empty array and on the rest of a non-empty object, whose
  members are kept as they stand. \<open>d\<close> is the nesting that is left.
\<close>

type_synonym 'a parsed = "('a \<times> string) option"

definition json_word :: "(string \<Rightarrow> string option) \<Rightarrow> string \<Rightarrow> val parsed" where
  "json_word num s =
     (case cut_prefix s ''true'' of Some r \<Rightarrow> Some (VBool True, r)
      | None \<Rightarrow> (case cut_prefix s ''false'' of Some r \<Rightarrow> Some (VBool False, r)
      | None \<Rightarrow> (case cut_prefix s ''null'' of Some r \<Rightarrow> Some (VOther ''null'', r)
      | None \<Rightarrow> (let x = takeWhile number_char s
                 in if json_number x
                    then map_option (\<lambda>y. (VOther y, dropWhile number_char s)) (num x) else None))))"

fun json_value :: "(string \<Rightarrow> string option) \<Rightarrow> nat \<Rightarrow> nat \<Rightarrow> string \<Rightarrow> val parsed"
  and json_elements :: "(string \<Rightarrow> string option) \<Rightarrow> nat \<Rightarrow> nat \<Rightarrow> string \<Rightarrow> val list parsed"
  and json_members :: "(string \<Rightarrow> string option) \<Rightarrow> nat \<Rightarrow> nat \<Rightarrow> string \<Rightarrow> table parsed" where
  "json_value num 0 d s = None"
| "json_value num (Suc n) d s = (case skip_space s of [] \<Rightarrow> None | c # r \<Rightarrow>
     if c = dquote then map_option (\<lambda>(x, r'). (VStr x, r')) (read_string r)
     else if c = CHR ''['' then
       if d = 0 then None
       else (case skip_space r of b # r' \<Rightarrow>
           if b = CHR '']'' then Some (VArr [], r')
           else map_option (\<lambda>(vs, q). (VArr vs, q)) (json_elements num n (d - 1) r) | [] \<Rightarrow> None)
     else if c = CHR ''{'' then
       if d = 0 then None
       else (case skip_space r of b # r' \<Rightarrow>
           if b = CHR ''}'' then Some (VTab [], r')
           else map_option (\<lambda>(t, q). (VTab t, q)) (json_members num n (d - 1) r) | [] \<Rightarrow> None)
     else json_word num (c # r))"
| "json_elements num 0 d s = None"
| "json_elements num (Suc n) d s = (case json_value num n d s of None \<Rightarrow> None | Some (v, r) \<Rightarrow>
     (case skip_space r of [] \<Rightarrow> None | c # r' \<Rightarrow>
        if c = CHR '','' then map_option (\<lambda>(vs, q). (v # vs, q)) (json_elements num n d r')
        else if c = CHR '']'' then Some ([v], r') else None))"
| "json_members num 0 d s = None"
| "json_members num (Suc n) d s = (case skip_space s of [] \<Rightarrow> None | c # r \<Rightarrow>
     if c \<noteq> dquote then None
     else (case read_string r of None \<Rightarrow> None | Some (k, r1) \<Rightarrow>
       (case skip_space r1 of [] \<Rightarrow> None | c1 # r2 \<Rightarrow>
          if c1 \<noteq> CHR '':'' then None
          else (case json_value num n d r2 of None \<Rightarrow> None | Some (v, r3) \<Rightarrow>
            (case skip_space r3 of [] \<Rightarrow> None | c2 # r4 \<Rightarrow>
               if c2 = CHR '','' then map_option (\<lambda>(t, q). ((k, v) # t, q)) (json_members num n d r4)
               else if c2 = CHR ''}'' then Some ([(k, v)], r4) else None)))))"

declare json_value.simps(2) [simp del] json_elements.simps(2) [simp del] json_members.simps(2) [simp del]

definition json_max_depth :: nat where "json_max_depth = 10000"

definition json_parse :: "(string \<Rightarrow> string option) \<Rightarrow> string \<Rightarrow> val option" where
  "json_parse num s = (case json_value num (2 * length s + 1) json_max_depth s of
      None \<Rightarrow> None | Some (v, r) \<Rightarrow> if skip_space r = [] then Some v else None)"

text \<open>In a map a later member overwrites an earlier one of the same name.\<close>

definition set_all :: "table \<Rightarrow> table \<Rightarrow> table" where
  "set_all acc t = foldl (\<lambda>u p. AList.update (fst p) (snd p) u) acc t"

fun last_wins :: "val \<Rightarrow> val" where
  "last_wins (VArr vs) = VArr (map last_wins vs)"
| "last_wins (VTab t) = VTab (set_all [] (map (\<lambda>(k, v). (k, last_wins v)) t))"
| "last_wins v = v"

text \<open>
  \<open>Unmarshal\<close> into a map: the outer option is an error (of the syntax, of a number out of range, of a
  document that is no object), the inner one the document \<open>null\<close>, which leaves the map nil.
\<close>

definition json_unmarshal :: "(string \<Rightarrow> string option) \<Rightarrow> string \<Rightarrow> table option option" where
  "json_unmarshal num s = (case map_option last_wins (json_parse num s) of
      Some (VTab t) \<Rightarrow> Some (Some t)
    | Some (VOther x) \<Rightarrow> if x = ''null'' then Some None else None
    | _ \<Rightarrow> None)"

text \<open>How a scan succeeds.\<close>

lemma json_value_cases:
  assumes "json_value num (Suc n) d s = Some (v, r)"
  obtains (str) q x where "skip_space s = dquote # q" "read_string q = Some (x, r)" "v = VStr x"
  | (no_elements) q where "skip_space s = CHR ''['' # q" "0 < d" "skip_space q = CHR '']'' # r" "v = VArr []"
  | (elements) q b q' vs where "skip_space s = CHR ''['' # q" "0 < d" "skip_space q = b # q'" "b \<noteq> CHR '']''"
      "json_elements num n (d - 1) q = Some (vs, r)" "v = VArr vs"
  | (no_members) q where "skip_space s = CHR ''{'' # q" "0 < d" "skip_space q = CHR ''}'' # r" "v = VTab []"
  | (members) q b q' t where "skip_space s = CHR ''{'' # q" "0 < d" "skip_space q = b # q'" "b \<noteq> CHR ''}''"
      "json_members num n (d - 1) q = Some (t, r)" "v = VTab t"
  | (word) c q where "skip_space s = c # q" "c \<notin> {dquote, CHR ''['', CHR ''{''}" "json_word num (c # q) = Some (v, r)"
proof -
  obtain c q where s: "skip_space s = c # q" using assms by (cases "skip_space s") (simp_all add: json_value.simps(2))
  consider "c = dquote" | "c = CHR ''[''" | "c = CHR ''{''" | "c \<notin> {dquote, CHR ''['', CHR ''{''}" by blast
  then show thesis
    by (cases; use assms s that in \<open>cases "skip_space q"\<close>; simp add: json_value.simps(2) split: if_split_asm prod.split_asm; fastforce)
qed

lemma json_elements_cases:
  assumes "json_elements num (Suc n) d s = Some (vs, r)"
  obtains (last) v q where "json_value num n d s = Some (v, q)" "skip_space q = CHR '']'' # r" "vs = [v]"
  | (more) v q q' ws where "json_value num n d s = Some (v, q)" "skip_space q = CHR '','' # q'"
      "json_elements num n d q' = Some (ws, r)" "vs = v # ws"
  using assms by (auto simp: json_elements.simps(2) split: option.splits list.splits if_splits)

lemma json_members_cases:
  assumes "json_members num (Suc n) d s = Some (u, r)"
  obtains (last) q k q1 q2 v q3 where "skip_space s = dquote # q" "read_string q = Some (k, q1)" "skip_space q1 = CHR '':'' # q2"
      "json_value num n d q2 = Some (v, q3)" "skip_space q3 = CHR ''}'' # r" "u = [(k, v)]"
  | (more) q k q1 q2 v q3 q4 t where "skip_space s = dquote # q" "read_string q = Some (k, q1)" "skip_space q1 = CHR '':'' # q2"
      "json_value num n d q2 = Some (v, q3)" "skip_space q3 = CHR '','' # q4"
      "json_members num n d q4 = Some (t, r)" "u = (k, v) # t"
  using assms by (auto simp: json_members.simps(2) split: option.splits list.splits if_splits)

subsection \<open>The fuel is enough\<close>

lemma skip_space_le: "length (skip_space s) \<le> length s"
  by (simp add: skip_space_def length_dropWhile_le)

lemma skip_space_Cons: "skip_space s = c # r \<Longrightarrow> length r < length s"
  using skip_space_le [of s] by simp

lemma json_word_cases:
  assumes "json_word num s = Some (v, r)"
  obtains "s = ''true'' @ r" "v = VBool True" | "s = ''false'' @ r" "v = VBool False" | "s = ''null'' @ r" "v = VOther ''null''"
    | x y where "json_number x" "num x = Some y" "v = VOther y" "s = x @ r"
  using assms
  by (auto simp: json_word_def Let_def cut_prefix_Some_iff split: option.splits if_splits)

lemma json_number_nonempty: "json_number x \<Longrightarrow> x \<noteq> []"
  by (auto simp: json_number_def trim_prefix_def)

lemma json_word_shorter: "json_word num s = Some (v, r) \<Longrightarrow> length r < length s"
  by (erule json_word_cases) (auto dest: json_number_nonempty)

lemma json_shorter:
  "json_value num n d s = Some (v, r) \<Longrightarrow> length r < length s"
  "json_elements num n d s = Some (vs, r) \<Longrightarrow> length r < length s"
  "json_members num n d s = Some (u, r) \<Longrightarrow> length r < length s"
proof (induction n arbitrary: d s v vs u r)
  case (Suc n)
  note sk = skip_space_Cons
  {
    case 1
    then show ?case
    proof (cases rule: json_value_cases)
      case (str q x)
      with sk [of s] read_string_shorter [of q] show ?thesis by fastforce
    next
      case (no_elements q)
      with sk [of s] sk [of q] show ?thesis by fastforce
    next
      case (elements q b q' ws)
      with sk [of s] Suc.IH(2) show ?thesis by fastforce
    next
      case (no_members q)
      with sk [of s] sk [of q] show ?thesis by fastforce
    next
      case (members q b q' u)
      with sk [of s] Suc.IH(3) show ?thesis by fastforce
    next
      case (word c q)
      then show ?thesis using skip_space_le [of s] json_word_shorter by fastforce
    qed
  next
    case 2
    then show ?case
    proof (cases rule: json_elements_cases)
      case (last v q)
      with sk [of q] Suc.IH(1) show ?thesis by fastforce
    next
      case (more v q q' ws)
      with sk [of q] Suc.IH(1) [of d s v q] Suc.IH(2) [of d q' ws r] show ?thesis by simp
    qed
  next
    case 3
    then show ?case
    proof (cases rule: json_members_cases)
      case (last q k q1 q2 v q3)
      with sk [of s] sk [of q1] sk [of q3] read_string_shorter [of q k q1] Suc.IH(1) [of d q2 v q3] show ?thesis by simp
    next
      case (more q k q1 q2 v q3 q4 t)
      with sk [of s] sk [of q1] sk [of q3] read_string_shorter [of q k q1] Suc.IH(1) [of d q2 v q3]
        Suc.IH(3) [of d q4 t r] show ?thesis by fastforce
    qed
  }
qed simp_all

text \<open>Any two fuels above the bound give the same result: the scanner never runs out of it.\<close>

lemma json_fuel:
  "2 * length s < n \<Longrightarrow> 2 * length s < m \<Longrightarrow> json_value num n d s = json_value num m d s"
  "2 * length s + 1 < n \<Longrightarrow> 2 * length s + 1 < m \<Longrightarrow> json_elements num n d s = json_elements num m d s"
  "2 * length s + 1 < n \<Longrightarrow> 2 * length s + 1 < m \<Longrightarrow> json_members num n d s = json_members num m d s"
proof (induction n arbitrary: m d s)
  case (Suc n)
  note sk = skip_space_Cons
  {
    case 1
    then obtain m' where m: "m = Suc m'" by (cases m) simp_all
    have "json_elements num n d' q = json_elements num m' d' q" "json_members num n d' q = json_members num m' d' q"
      if "skip_space s = c # q" for c q d'
      using sk [OF that] 1 m by (auto intro!: Suc.IH)
    then show ?case by (auto simp: m json_value.simps(2) split: list.split)
  next
    case 2
    then obtain m' where m: "m = Suc m'" by (cases m) simp_all
    have "json_value num n d s = json_value num m' d s" using 2 m by (intro Suc.IH) simp_all
    moreover have "json_elements num n d q' = json_elements num m' d q'"
      if "json_value num m' d s = Some (v, q)" "skip_space q = c # q'" for v q c q'
      using sk [OF that(2)] json_shorter(1) [OF that(1)] 2 m by (intro Suc.IH) simp_all
    ultimately show ?case by (auto simp: m json_elements.simps(2) split: option.split list.split)
  next
    case 3
    then obtain m' where m: "m = Suc m'" by (cases m) simp_all
    have v: "json_value num n d q2 = json_value num m' d q2"
      if "skip_space s = c # q" "read_string q = Some (k, q1)" "skip_space q1 = c' # q2" for c q k q1 c' q2
      using sk [OF that(1)] sk [OF that(3)] read_string_shorter [OF that(2)] 3 m by (intro Suc.IH) simp_all
    have "json_members num n d q4 = json_members num m' d q4"
      if "skip_space s = c # q" "read_string q = Some (k, q1)" "skip_space q1 = c' # q2"
        "json_value num m' d q2 = Some (x, q3)" "skip_space q3 = c'' # q4" for c q k q1 c' q2 x q3 c'' q4
      using sk [OF that(1)] sk [OF that(3)] sk [OF that(5)] read_string_shorter [OF that(2)] json_shorter(1) [OF that(4)] 3 m
      by (intro Suc.IH) simp_all
    with v show ?case by (auto simp: m json_members.simps(2) split: option.split list.split)
  }
qed simp_all

end
