(* ===== verification/Json_Laws.thy ===== *)
theory Json_Laws imports Json begin

text \<open>
  What the components rely on of JSON: a typing judgement for decoded documents, that reading yields
  typed documents only, and that a typed document is read back from its text in every layout.
\<close>

subsection \<open>Documents that JSON can hold\<close>

text \<open>
  Strings are valid UTF-8, numbers are texts that a float prints as, the keys of an object are
  distinct, and the nesting is bounded.
\<close>

inductive json_typed :: "(string \<Rightarrow> string option) \<Rightarrow> nat \<Rightarrow> val \<Rightarrow> bool" for num where
  String: "valid_utf8 s \<Longrightarrow> json_typed num d (VStr s)"
| Bool: "json_typed num d (VBool b)"
| Null: "json_typed num d (VOther ''null'')"
| Number: "\<lbrakk> json_number x; num x = Some x \<rbrakk> \<Longrightarrow> json_typed num d (VOther x)"
| Array: "list_all (json_typed num d) vs \<Longrightarrow> json_typed num (Suc d) (VArr vs)"
| Object: "\<lbrakk> distinct (map fst t); list_all (\<lambda>p. valid_utf8 (fst p) \<and> json_typed num d (snd p)) t \<rbrakk>
    \<Longrightarrow> json_typed num (Suc d) (VTab t)"

inductive_cases json_typed_cases [elim!]: "json_typed num d (VStr s)" "json_typed num d (VInt i)" "json_typed num d (VArr vs)"
  "json_typed num d (VTab t)"

lemmas json_typed_intros = json_typed.intros

text \<open>The passage through a float is a projection onto texts of numbers.\<close>

definition json_num_ok :: "(string \<Rightarrow> string option) \<Rightarrow> bool" where
  "json_num_ok num \<longleftrightarrow> (\<forall>x y. num x = Some y \<longrightarrow> json_number y \<and> num y = Some y)"

definition typed_table :: "(string \<Rightarrow> string option) \<Rightarrow> nat \<Rightarrow> table \<Rightarrow> bool" where
  "typed_table num d t \<longleftrightarrow> distinct (map fst t) \<and> list_all (\<lambda>p. valid_utf8 (fst p) \<and> json_typed num d (snd p)) t"

lemma json_typed_VTab: "json_typed num d (VTab t) \<longleftrightarrow> (\<exists>d'. d = Suc d' \<and> typed_table num d' t)"
  unfolding typed_table_def by (auto intro: json_typed.Object)

lemma json_typed_ArrI: "\<lbrakk> 0 < d; list_all (json_typed num (d - 1)) vs \<rbrakk> \<Longrightarrow> json_typed num d (VArr vs)"
  by (cases d) (simp_all add: json_typed.Array)

lemma json_typed_TabI: "\<lbrakk> 0 < d; typed_table num (d - 1) t \<rbrakk> \<Longrightarrow> json_typed num d (VTab t)"
  by (cases d) (simp_all add: json_typed_VTab)

lemma typed_table_Nil [simp]: "typed_table num d []"
  by (simp add: typed_table_def)

lemma list_all_update: "\<lbrakk> list_all P t; P (k, v) \<rbrakk> \<Longrightarrow> list_all P (AList.update k v t)"
  by (induction t) auto

lemma list_all_delete: "list_all P t \<Longrightarrow> list_all P (AList.delete k t)"
  by (auto simp: AList.delete_eq list_all_iff)

lemma typed_table_update:
  "\<lbrakk> typed_table num d t; valid_utf8 k; json_typed num d v \<rbrakk> \<Longrightarrow> typed_table num d (AList.update k v t)"
  unfolding typed_table_def by (simp add: list_all_update distinct_update)

lemma typed_table_delete: "typed_table num d t \<Longrightarrow> typed_table num d (AList.delete k t)"
  unfolding typed_table_def by (simp add: distinct_delete list_all_delete)

lemma typed_table_get: "\<lbrakk> typed_table num d t; map_of t k = Some v \<rbrakk> \<Longrightarrow> json_typed num d v"
  unfolding typed_table_def list_all_iff by (auto dest: map_of_SomeD)

lemma set_all_typed:
  "\<lbrakk> typed_table num d acc; list_all (\<lambda>p. valid_utf8 (fst p) \<and> json_typed num d (snd p)) t \<rbrakk> \<Longrightarrow> typed_table num d (set_all acc t)"
  by (induction t arbitrary: acc) (auto simp: set_all_def typed_table_update)

lemma set_all_distinct: "distinct (map fst (acc @ t)) \<Longrightarrow> set_all acc t = acc @ t"
proof (induction t arbitrary: acc)
  case (Cons p t)
  then have "fst p \<notin> fst ` set acc" by auto
  then have "AList.update (fst p) (snd p) acc = acc @ [p]" by (induction acc) auto
  with Cons.IH [of "acc @ [p]"] Cons.prems show ?case by (simp add: set_all_def)
qed (simp add: set_all_def)

lemma json_word_typed: "\<lbrakk> json_num_ok num; json_word num s = Some (v, r) \<rbrakk> \<Longrightarrow> json_typed num d (last_wins v)"
  unfolding json_num_ok_def by (erule json_word_cases) (auto intro: json_typed.intros)

lemma json_typed:
  assumes "json_num_ok num"
  shows "json_value num n d s = Some (v, r) \<Longrightarrow> json_typed num d (last_wins v)"
    and "json_elements num n d s = Some (vs, r) \<Longrightarrow> list_all (\<lambda>v. json_typed num d (last_wins v)) vs"
    and "json_members num n d s = Some (u, r) \<Longrightarrow> list_all (\<lambda>p. valid_utf8 (fst p) \<and> json_typed num d (last_wins (snd p))) u"
proof (induction n arbitrary: d s v vs u r)
  case (Suc n)
  {
    case 1
    then show ?case
    proof (cases rule: json_value_cases)
      case (str q x)
      then show ?thesis by (simp add: json_typed.String read_string_valid)
    next
      case (no_elements q)
      then show ?thesis by (simp add: json_typed_ArrI)
    next
      case (elements q b q' ws)
      with Suc.IH(2) show ?thesis by (fastforce simp: list_all_iff intro: json_typed_ArrI)
    next
      case (no_members q)
      then show ?thesis by (simp add: json_typed_TabI set_all_def)
    next
      case (members q b q' u)
      with Suc.IH(3) have "list_all (\<lambda>p. valid_utf8 (fst p) \<and> json_typed num (d - 1) (snd p)) (map (\<lambda>(k, v). (k, last_wins v)) u)"
        by (fastforce simp: list_all_iff)
      from set_all_typed [OF typed_table_Nil this] members show ?thesis by (simp add: json_typed_TabI)
    next
      case (word c q)
      then show ?thesis by (simp add: json_word_typed [OF assms])
    qed
  next
    case 2
    then show ?case by (cases rule: json_elements_cases) (auto dest: Suc.IH(1,2))
  next
    case 3
    then show ?case by (cases rule: json_members_cases) (auto dest: Suc.IH(1,3) read_string_valid)
  }
qed simp_all

lemma last_wins_typed: "json_typed num d v \<Longrightarrow> last_wins v = v"
proof (induction rule: json_typed.induct)
  case (Array d vs)
  then show ?case by (simp add: list_all_iff map_idI)
next
  case (Object t d)
  then have "map (\<lambda>(k, v). (k, last_wins v)) t = t" by (auto simp: list_all_iff intro!: map_idI)
  then show ?case using Object(1) by (simp add: set_all_distinct)
qed simp_all

subsection \<open>A text is read back\<close>

lemma json_space_line_break: "list_all json_space (line_break i)"
  by (cases i) (simp_all add: line_break_def json_space_def newline_def list_all_iff)

lemma skip_space_append: "list_all json_space w \<Longrightarrow> skip_space (w @ s) = skip_space s"
  by (induction w) (simp_all add: skip_space_def)

lemma skip_space_other: "\<not> json_space c \<Longrightarrow> skip_space (c # s) = c # s"
  by (simp add: skip_space_def)

text \<open>What may follow a value: nothing that could belong to a number.\<close>

definition follows :: "string \<Rightarrow> bool" where
  "follows r \<longleftrightarrow> (case r of [] \<Rightarrow> True | c # _ \<Rightarrow> \<not> number_char c)"

lemma no_number_char: "\<not> number_char CHR '',''" "\<not> number_char CHR '']''" "\<not> number_char CHR ''}''" "\<not> number_char newline"
  by (simp_all add: number_char_def is_digit_def newline_def)

lemma follows_marks: "follows (CHR '','' # r)" "follows (line_break i @ CHR '']'' # r)" "follows (line_break i @ CHR ''}'' # r)"
  using no_number_char by (simp_all add: follows_def line_break_def split: option.split)

lemma takeWhile_follows: "\<lbrakk> list_all number_char x; follows r \<rbrakk> \<Longrightarrow> takeWhile number_char (x @ r) = x \<and> dropWhile number_char (x @ r) = r"
  by (induction x) (auto simp: follows_def split: list.splits)

lemma list_all_takeWhile_drop: "\<lbrakk> list_all P (dropWhile Q s); \<forall>c. Q c \<longrightarrow> P c \<rbrakk> \<Longrightarrow> list_all P s"
  by (induction s) (auto split: if_splits)

lemma json_number_chars: "json_number x \<Longrightarrow> list_all number_char x"
proof -
  have dig: "is_digit c \<longrightarrow> number_char c" for c by (simp add: number_char_def)
  have all: "list_all is_digit s \<Longrightarrow> list_all number_char s" for s by (simp add: list_all_iff dig)
  have ex: "list_all number_char s" if "json_exponent s" for s
    using that all by (auto simp: json_exponent_def Let_def number_char_def split: list.splits if_splits)
  have fr: "list_all number_char s" if "json_fraction s" for s
  proof (cases s)
    case (Cons c r)
    show ?thesis
    proof (cases "c = CHR ''.''")
      case True
      with that Cons have "list_all number_char (dropWhile is_digit r)" by (simp add: json_fraction_def ex)
      from list_all_takeWhile_drop [OF this] True Cons dig show ?thesis by (simp add: number_char_def)
    next
      case False
      with that Cons have "json_exponent s" by (simp add: json_fraction_def)
      then show ?thesis by (rule ex)
    qed
  qed simp
  assume "json_number x"
  then have "list_all number_char (dropWhile is_digit (trim_prefix x ''-''))" by (simp add: json_number_def Let_def fr)
  then have "list_all number_char (trim_prefix x ''-'')" by (rule list_all_takeWhile_drop) (simp add: dig)
  then show ?thesis by (cases x) (auto simp: trim_prefix_def number_char_def split: if_splits)
qed

lemma json_number_hd: "json_number x \<Longrightarrow> is_digit (hd x) \<or> hd x = CHR ''-''"
proof -
  assume n: "json_number x"
  obtain c r where x: "x = c # r" using json_number_nonempty [OF n] by (cases x) auto
  show ?thesis using n by (auto simp: x json_number_def trim_prefix_def Let_def split: if_splits)
qed

lemma json_word_number:
  assumes "json_number x" "num x = Some x" "follows r"
  shows "json_word num (x @ r) = Some (VOther x, r)"
proof -
  from json_number_nonempty [OF assms(1)] json_number_hd [OF assms(1)] obtain c y where x: "x = c # y" "is_digit c \<or> c = CHR ''-''"
    by (cases x) auto
  then have "cut_prefix (x @ r) (d # p) = None" if "d \<in> set ''tfn''" for d p
    using that by (auto simp: cut_prefix_def is_digit_def)
  with takeWhile_follows [OF json_number_chars [OF assms(1)] assms(3)] assms(1,2) show ?thesis
    by (simp add: json_word_def Let_def)
qed

text \<open>A value is read back wherever its text stands, when the fuel covers what is read.\<close>

definition reads_back :: "(string \<Rightarrow> string option) \<Rightarrow> nat \<Rightarrow> val \<Rightarrow> bool" where
  "reads_back num d v \<longleftrightarrow> (\<forall>n i w r. 2 * length (w @ json_text i v @ r) < n \<longrightarrow> list_all json_space w \<longrightarrow> follows r \<longrightarrow>
     json_value num n d (w @ json_text i v @ r) = Some (v, r))"

lemma reads_backD:
  "\<lbrakk> reads_back num d v; 2 * length (w @ json_text i v @ r) < n; list_all json_space w; follows r \<rbrakk> \<Longrightarrow>
   json_value num n d (w @ json_text i v @ r) = Some (v, r)"
  unfolding reads_back_def by blast

lemma reads_backI:
  assumes "\<And>n i w r. \<lbrakk> 2 * length (w @ json_text i v @ r) < Suc n; list_all json_space w; follows r \<rbrakk> \<Longrightarrow>
    json_value num (Suc n) d (w @ json_text i v @ r) = Some (v, r)"
  shows "reads_back num d v"
  unfolding reads_back_def
proof (intro allI impI)
  fix n i w r
  assume "2 * length (w @ json_text i v @ r) < n" "list_all json_space w" "follows r"
  then show "json_value num n d (w @ json_text i v @ r) = Some (v, r)" using assms by (cases n) simp_all
qed

lemma read_elements:
  "\<lbrakk> list_all (reads_back num d) vs; vs \<noteq> []; list_all json_space w;
     2 * length (w @ items i (map (json_text (deeper i)) vs) @ line_break i @ CHR '']'' # r) + 1 < n \<rbrakk> \<Longrightarrow>
   json_elements num n d (w @ items i (map (json_text (deeper i)) vs) @ line_break i @ CHR '']'' # r) = Some (vs, r)"
proof (induction vs arbitrary: w n)
  case (Cons v vs)
  then obtain m where n: "n = Suc m" by (cases n) simp_all
  have rb: "reads_back num d v" and sp: "list_all json_space w" using Cons.prems by simp_all
  show ?case
  proof (cases vs)
    case Nil
    let ?r = "line_break i @ CHR '']'' # r"
    have "2 * length (w @ json_text (deeper i) v @ ?r) < m" using Cons.prems(4) n Nil by simp
    from reads_backD [OF rb this sp follows_marks(2)] show ?thesis
      by (simp add: n Nil json_elements.simps(2) skip_space_append [OF json_space_line_break] skip_space_other json_space_def)
  next
    case (Cons u us)
    let ?t = "line_break (deeper i) @ items i (map (json_text (deeper i)) vs) @ line_break i @ CHR '']'' # r"
    have "2 * length (w @ json_text (deeper i) v @ CHR '','' # ?t) < m" using Cons.prems(4) n Cons by simp
    note v = reads_backD [OF rb this sp follows_marks(1)]
    have "2 * length ?t + 1 < m" using Cons.prems(4) n Cons by simp
    from Cons.IH [OF _ _ json_space_line_break this] Cons.prems(1) Cons have "json_elements num m d ?t = Some (vs, r)" by auto
    with v Cons show ?thesis by (simp add: n json_elements.simps(2) skip_space_other json_space_def)
  qed
qed simp

definition member_text :: "nat option \<Rightarrow> string \<times> val \<Rightarrow> string" where
  "member_text i p = quote_string (fst p) @ colon i @ json_text (deeper i) (snd p)"

definition colon_space :: "nat option \<Rightarrow> string" where
  "colon_space i = (case i of None \<Rightarrow> [] | Some _ \<Rightarrow> '' '')"

lemma colon_split: "colon i = CHR '':'' # colon_space i" "list_all json_space (colon_space i)"
  by (cases i; simp add: colon_def colon_space_def json_space_def)+

lemma read_quote: "valid_utf8 k \<Longrightarrow> read_string (escape_string k @ dquote # r) = Some (k, r)"
  by (simp add: read_escape_string to_valid_id)

text \<open>One member, up to what decides whether another one comes.\<close>

lemma read_member:
  assumes "valid_utf8 k" "reads_back num d v" "list_all json_space w" "follows r"
    and "2 * length (w @ member_text i (k, v) @ r) < n"
  obtains q where "skip_space (w @ member_text i (k, v) @ r) = dquote # q"
    "read_string q = Some (k, colon i @ json_text (deeper i) v @ r)"
    "skip_space (colon i @ json_text (deeper i) v @ r) = CHR '':'' # colon_space i @ json_text (deeper i) v @ r"
    "json_value num n d (colon_space i @ json_text (deeper i) v @ r) = Some (v, r)"
proof -
  let ?t = "json_text (deeper i) v @ r"
  have "2 * length (colon_space i @ ?t) < n" using assms(5) by (simp add: member_text_def colon_split)
  note v = reads_backD [OF assms(2) this colon_split(2) assms(4)]
  have "skip_space (w @ member_text i (k, v) @ r) = dquote # escape_string k @ dquote # colon i @ ?t"
    by (simp add: skip_space_append [OF assms(3)] member_text_def quote_string_def skip_space_other json_space_def)
  moreover have "skip_space (colon i @ ?t) = CHR '':'' # colon_space i @ ?t"
    by (simp add: colon_split skip_space_other json_space_def)
  ultimately show thesis using that v read_quote [OF assms(1)] by blast
qed

lemma read_members:
  "\<lbrakk> list_all (\<lambda>p. valid_utf8 (fst p) \<and> reads_back num d (snd p)) ts; ts \<noteq> []; list_all json_space w;
     2 * length (w @ items i (map (member_text i) ts) @ line_break i @ CHR ''}'' # r) + 1 < n \<rbrakk> \<Longrightarrow>
   json_members num n d (w @ items i (map (member_text i) ts) @ line_break i @ CHR ''}'' # r) = Some (ts, r)"
proof (induction ts arbitrary: w n)
  case (Cons p ts)
  then obtain m where n: "n = Suc m" by (cases n) simp_all
  obtain k v where p: "p = (k, v)" by fastforce
  have kv: "valid_utf8 k" "reads_back num d v" and sp: "list_all json_space w" using Cons.prems p by simp_all
  show ?case
  proof (cases ts)
    case Nil
    let ?r = "line_break i @ CHR ''}'' # r"
    have "2 * length (w @ member_text i (k, v) @ ?r) < m" using Cons.prems(4) n Nil p by simp
    from read_member [OF kv sp follows_marks(3) this] obtain q where
      "skip_space (w @ member_text i (k, v) @ ?r) = dquote # q" "read_string q = Some (k, colon i @ json_text (deeper i) v @ ?r)"
      "skip_space (colon i @ json_text (deeper i) v @ ?r) = CHR '':'' # colon_space i @ json_text (deeper i) v @ ?r"
      "json_value num m d (colon_space i @ json_text (deeper i) v @ ?r) = Some (v, ?r)" .
    then show ?thesis
      by (simp add: n Nil p json_members.simps(2) skip_space_append [OF json_space_line_break] skip_space_other json_space_def)
  next
    case ts: (Cons u us)
    let ?t = "line_break (deeper i) @ items i (map (member_text i) ts) @ line_break i @ CHR ''}'' # r"
    have "2 * length (w @ member_text i (k, v) @ CHR '','' # ?t) < m" using Cons.prems(4) n ts p by simp
    from read_member [OF kv sp follows_marks(1) this] obtain q where m:
      "skip_space (w @ member_text i (k, v) @ CHR '','' # ?t) = dquote # q"
      "read_string q = Some (k, colon i @ json_text (deeper i) v @ CHR '','' # ?t)"
      "skip_space (colon i @ json_text (deeper i) v @ CHR '','' # ?t) = CHR '':'' # colon_space i @ json_text (deeper i) v @ CHR '','' # ?t"
      "json_value num m d (colon_space i @ json_text (deeper i) v @ CHR '','' # ?t) = Some (v, CHR '','' # ?t)" .
    have "2 * length ?t + 1 < m" using Cons.prems(4) n ts by simp
    from Cons.IH [OF _ _ json_space_line_break this] Cons.prems(1) ts have "json_members num m d ?t = Some (ts, r)" by auto
    with m ts p show ?thesis by (simp add: n json_members.simps(2) skip_space_other json_space_def)
  qed
qed simp

subsection \<open>Round trip\<close>

lemma elements_head:
  assumes "json_elements num n d s = Some (vs, r)"
  obtains c q where "skip_space s = c # q" "c \<noteq> CHR '']''"
proof -
  obtain m where n: "n = Suc m" using assms by (cases n) simp_all
  obtain v q where v: "json_value num m d s = Some (v, q)"
    using assms [unfolded n] by (cases rule: json_elements_cases) blast+
  then obtain l where m: "m = Suc l" by (cases m) simp_all
  from v [unfolded m] obtain c u where c: "skip_space s = c # u" by (cases rule: json_value_cases) blast+
  have "c \<noteq> CHR '']''"
  proof
    assume "c = CHR '']''"
    with v [unfolded m] c have "json_word num (CHR '']'' # u) = Some (v, q)" by (simp add: json_value.simps(2))
    then show False by (cases rule: json_word_cases) (auto simp: Cons_eq_append_conv is_digit_def dest: json_number_nonempty json_number_hd)
  qed
  with c that show thesis by blast
qed

lemma members_head:
  assumes "json_members num n d s = Some (u, r)"
  obtains q where "skip_space s = dquote # q"
proof -
  obtain m where n: "n = Suc m" using assms by (cases n) simp_all
  from assms [unfolded n] show thesis by (cases rule: json_members_cases) (use that in blast)+
qed

lemma typed_reads_back: "json_typed num d v \<Longrightarrow> reads_back num d v"
proof (induction rule: json_typed.induct)
  case (String s d)
  show ?case
    by (rule reads_backI)
      (simp add: quote_string_def json_value.simps(2) skip_space_append skip_space_other json_space_def read_quote String)
next
  case (Bool d b)
  show ?case
    by (rule reads_backI)
      (simp add: json_value.simps(2) skip_space_append skip_space_other json_space_def json_word_def cut_prefix_def)
next
  case (Null d)
  show ?case
    by (rule reads_backI)
      (simp add: json_value.simps(2) skip_space_append skip_space_other json_space_def json_word_def cut_prefix_def)
next
  case (Number x d)
  from json_number_nonempty [OF Number(1)] json_number_hd [OF Number(1)] obtain c y where x: "x = c # y" "is_digit c \<or> c = CHR ''-''"
    by (cases x) auto
  then have "\<not> json_space c" "c \<notin> {dquote, CHR ''['', CHR ''{''}" by (auto simp: is_digit_def json_space_def)
  then show ?case
    using json_word_number [of x num] Number x
    by (intro reads_backI) (simp add: json_value.simps(2) skip_space_append skip_space_other)
next
  case (Array d vs)
  show ?case
  proof (rule reads_backI)
    fix n i w r
    assume n: "2 * length (w @ json_text i (VArr vs) @ r) < Suc n" and w: "list_all json_space w"
    have rb: "list_all (reads_back num d) vs" using Array by (simp add: list_all_iff)
    show "json_value num (Suc n) (Suc d) (w @ json_text i (VArr vs) @ r) = Some (VArr vs, r)"
    proof (cases "vs = []")
      case True
      then show ?thesis by (simp add: bracket_def json_value.simps(2) skip_space_append [OF w] skip_space_other json_space_def)
    next
      case False
      let ?t = "items i (map (json_text (deeper i)) vs) @ line_break i @ CHR '']'' # r"
      have t: "json_text i (VArr vs) @ r = CHR ''['' # line_break (deeper i) @ ?t" using False by (simp add: bracket_def)
      have "2 * length (line_break (deeper i) @ ?t) + 1 < n" using n unfolding t by simp
      note e = read_elements [OF rb False json_space_line_break this]
      from elements_head [OF e] obtain c q where "skip_space (line_break (deeper i) @ ?t) = c # q" "c \<noteq> CHR '']''" .
      with e show ?thesis unfolding t
        by (simp add: json_value.simps(2) skip_space_append [OF w] skip_space_other json_space_def)
    qed
  qed
next
  case (Object t d)
  have rb: "list_all (\<lambda>p. valid_utf8 (fst p) \<and> reads_back num d (snd p)) t" using Object by (simp add: list_all_iff)
  show ?case
  proof (rule reads_backI)
    fix n i w r
    assume n: "2 * length (w @ json_text i (VTab t) @ r) < Suc n" and w: "list_all json_space w"
    have m: "json_text i (VTab t) = bracket i CHR ''{'' CHR ''}'' (map (member_text i) t)"
      by (simp add: member_text_def [abs_def] case_prod_unfold)
    show "json_value num (Suc n) (Suc d) (w @ json_text i (VTab t) @ r) = Some (VTab t, r)"
    proof (cases "t = []")
      case True
      with m show ?thesis by (simp add: bracket_def json_value.simps(2) skip_space_append [OF w] skip_space_other json_space_def)
    next
      case False
      let ?t = "items i (map (member_text i) t) @ line_break i @ CHR ''}'' # r"
      have t: "json_text i (VTab t) @ r = CHR ''{'' # line_break (deeper i) @ ?t" using False unfolding m by (simp add: bracket_def)
      have "2 * length (line_break (deeper i) @ ?t) + 1 < n" using n unfolding t by simp
      note e = read_members [OF rb False json_space_line_break this]
      from e obtain q where "skip_space (line_break (deeper i) @ ?t) = dquote # q" by (rule members_head)
      with e show ?thesis
        unfolding t by (simp add: json_value.simps(2) skip_space_append [OF w] skip_space_other json_space_def)
    qed
  qed
qed

subsection \<open>Sorting the members changes nothing\<close>

lemma sort_members: "sort_key fst (map (\<lambda>(k, v). (k, f v)) t) = map (\<lambda>(k, v). (k, f v)) (sort_key fst t)" for t :: "(string \<times> 'a) list"
proof (induction t)
  case (Cons p t)
  have ins: "insort_key fst (k, f v) (map (\<lambda>(k, v). (k, f v)) xs) = map (\<lambda>(k, v). (k, f v)) (insort_key fst (k, v) xs)"
    for k v and xs :: "(string \<times> 'a) list" by (induction xs) auto
  from Cons show ?case by (cases p) (simp add: ins)
qed simp

lemma map_of_sorted: "distinct (map fst t) \<Longrightarrow> map_of (sort_key fst t) = map_of t" for t :: "(string \<times> 'a) list"
proof (induction t)
  case (Cons p t)
  have "k \<notin> fst ` set xs \<Longrightarrow> map_of (insort_key fst (k, v) xs) = (map_of xs)(k \<mapsto> v)" for k v and xs :: "(string \<times> 'a) list"
    by (induction xs) (auto simp: fun_upd_twist)
  from this [of "fst p" "sort_key fst t" "snd p"] Cons show ?case by (cases p) simp
qed simp

lemma keys_sorted: "distinct (map fst t) \<Longrightarrow> distinct (map fst (sort_key fst t))" for t :: "(string \<times> 'a) list"
proof (induction t)
  case (Cons p t)
  have "distinct (map fst xs) \<Longrightarrow> fst p \<notin> fst ` set xs \<Longrightarrow> distinct (map fst (insort_key fst p xs))" for xs
    by (induction xs) (auto simp: set_insort_key)
  with Cons show ?case by simp
qed simp

lemma sort_tree_typed: "json_typed num d v \<Longrightarrow> json_typed num d (sort_tree v) \<and> same_val v (sort_tree v)"
proof (induction rule: json_typed.induct)
  case (Array d vs)
  then show ?case by (auto simp: list_all_iff list_all2_conv_all_nth intro: json_typed.Array)
next
  case (Object t d)
  let ?t = "map (\<lambda>(k, v). (k, sort_tree v)) t"
  have d: "distinct (map fst ?t)" using Object(1) by (simp add: o_def case_prod_beta)
  have s: "sort_tree (VTab t) = VTab (sort_key fst ?t)" using d by simp
  have "list_all (\<lambda>p. valid_utf8 (fst p) \<and> json_typed num d (snd p)) (sort_key fst ?t)"
    using Object(2) by (auto simp: list_all_iff)
  then have "json_typed num (Suc d) (sort_tree (VTab t))" unfolding s using keys_sorted [OF d] by (rule json_typed.Object [rotated])
  moreover have "rel_option same_val (map_of t k) (map_of ?t k)" for k
    using Object(2) by (induction t) auto
  ultimately show ?case unfolding s by (simp add: map_of_sorted [OF d])
qed (auto intro: json_typed.intros)

subsection \<open>Whole documents\<close>

lemma unmarshal_typed:
  "\<lbrakk> json_num_ok num; json_unmarshal num s = Some (Some t) \<rbrakk> \<Longrightarrow> typed_table num (json_max_depth - 1) t"
proof -
  assume num: "json_num_ok num" and u: "json_unmarshal num s = Some (Some t)"
  then obtain v r where v: "json_value num (2 * length s + 1) json_max_depth s = Some (v, r)" "last_wins v = VTab t"
    by (auto simp: json_unmarshal_def json_parse_def split: option.splits val.splits if_splits)
  from json_typed(1) [OF num v(1)] show ?thesis unfolding v(2) json_max_depth_def json_typed_VTab by auto
qed

lemma follows_space: "list_all json_space r \<Longrightarrow> follows r"
  by (cases r) (auto simp: follows_def json_space_def number_char_def is_digit_def)

text \<open>A document is read back as it is, with white space behind it; a map in the order of its keys.\<close>

lemma unmarshal_text:
  assumes "typed_table num (json_max_depth - 1) t" "list_all json_space r"
  shows "json_unmarshal num (json_text i (VTab t) @ r) = Some (Some t)"
proof -
  have ty: "json_typed num json_max_depth (VTab t)" using assms(1) by (simp add: json_typed_VTab json_max_depth_def)
  have f: "2 * length ([] @ json_text i (VTab t) @ r) < 2 * length (json_text i (VTab t) @ r) + 1" by simp
  from reads_backD [OF typed_reads_back [OF ty] f _ follows_space [OF assms(2)]] have
    "json_value num (2 * length (json_text i (VTab t) @ r) + 1) json_max_depth (json_text i (VTab t) @ r) = Some (VTab t, r)"
    by (auto simp del: json_text.simps)
  moreover have "skip_space r = []" using skip_space_append [OF assms(2), of "[]"] by (simp add: skip_space_def)
  ultimately show ?thesis
    using last_wins_typed [OF ty] by (simp add: json_unmarshal_def json_parse_def del: json_text.simps last_wins.simps)
qed

lemma unmarshal_marshal:
  assumes "typed_table num (json_max_depth - 1) t"
  shows "\<exists>u. json_unmarshal num (json_marshal_indent t) = Some (Some u) \<and> same_table t u"
proof -
  have "json_typed num json_max_depth (VTab t)" using assms by (simp add: json_typed_VTab json_max_depth_def)
  from sort_tree_typed [OF this] obtain s where s: "sort_tree (VTab t) = VTab s" "typed_table num (json_max_depth - 1) s"
    "same_val (VTab t) (VTab s)" by (auto simp: json_typed_VTab json_max_depth_def)
  from unmarshal_text [OF s(2), of "[]" "Some 0"] s(1,3) show ?thesis
    unfolding json_marshal_indent_def same_table_def by (auto simp del: sort_tree.simps json_text.simps)
qed

end
