(* ===== verification/Runtime_Config.thy ===== *)
theory Runtime_Config imports Discover Json_Laws begin

text \<open>
  Container runtime configuration (\<open>internal/runtime\<close>): detection, versions, readiness, and the
  configurators and reverters of containerd, CRI-O and Docker. Parsed TOML and JSON are trees
  \<open>val\<close>, with tables as association lists whose order means nothing to the code. The TOML library
  and the formatting of JSON numbers that are no integers are the record \<open>codecs\<close>, everything else of JSON is
  that of \<open>Json\<close>; the command that prints a version is a parameter.
\<close>

subsection \<open>The two libraries\<close>

text \<open>
  The TOML library, and the passage of a JSON number through a 64-bit float. Reading and writing JSON is
  \<open>Json\<close>; \<open>MarshalIndent\<close> fails only for values that no decoded tree holds.
\<close>

record codecs =
  toml_decode :: "string \<Rightarrow> table option"
  toml_encode :: "table \<Rightarrow> string option"
  json_float :: "string \<Rightarrow> string option"

definition json_decode :: "codecs \<Rightarrow> string \<Rightarrow> table option option" where
  "json_decode cd = json_unmarshal (json_float cd)"

definition json_encode :: "codecs \<Rightarrow> table \<Rightarrow> string option" where
  "json_encode cd t = Some (json_marshal_indent t)"

subsection \<open>Runtimes\<close>

datatype runtime_type = RuntimeContainerd | RuntimeCRIO | RuntimeDocker | OtherRuntime string

fun runtime_text :: "runtime_type \<Rightarrow> string" where
  "runtime_text RuntimeContainerd = ''containerd''"
| "runtime_text RuntimeCRIO = ''crio''"
| "runtime_text RuntimeDocker = ''docker''"
| "runtime_text (OtherRuntime s) = s"

definition runtime_type_of :: "string \<Rightarrow> runtime_type" where
  "runtime_type_of s = (if s = ''containerd'' then RuntimeContainerd else if s = ''crio'' then RuntimeCRIO
     else if s = ''docker'' then RuntimeDocker else OtherRuntime s)"

definition default_cdi_spec_dir :: string where "default_cdi_spec_dir = ''/var/run/cdi''"

fun default_config_path :: "runtime_type \<Rightarrow> string" where
  "default_config_path RuntimeContainerd = ''/etc/containerd/config.toml''"
| "default_config_path RuntimeCRIO = ''/etc/crio/crio.conf.d/99-rbln.conf''"
| "default_config_path RuntimeDocker = ''/etc/docker/daemon.json''"
| "default_config_path (OtherRuntime _) = ''''"

record sockets =
  containerd_socket :: string
  crio_socket :: string
  docker_socket :: string

definition default_sockets :: sockets where
  "default_sockets = \<lparr> containerd_socket = ''/run/containerd/containerd.sock'',
     crio_socket = ''/var/run/crio/crio.sock'', docker_socket = ''/var/run/docker.sock'' \<rparr>"

definition socket_present :: "fs \<Rightarrow> string \<Rightarrow> bool" where
  "socket_present fs p \<longleftrightarrow> p \<noteq> [] \<and> fs_exists fs p"

definition detect_runtime_with_options :: "fs \<Rightarrow> sockets option \<Rightarrow> gerr + runtime_type" where
  "detect_runtime_with_options fs opts =
     (let sk = (case opts of None \<Rightarrow> default_sockets | Some x \<Rightarrow> x)
      in if socket_present fs (containerd_socket sk) then Inr RuntimeContainerd
         else if socket_present fs (crio_socket sk) then Inr RuntimeCRIO
         else if socket_present fs (docker_socket sk) then Inr RuntimeDocker
         else Inl (Sentinel ErrRuntimeNotFound))"

definition detect_runtime :: "fs \<Rightarrow> gerr + runtime_type" where
  "detect_runtime fs = detect_runtime_with_options fs None"

definition detected_runtimes :: "fs \<Rightarrow> sockets \<Rightarrow> runtime_type list" where
  "detected_runtimes fs sk =
     (if socket_present fs (containerd_socket sk) then [RuntimeContainerd] else [])
     @ (if socket_present fs (crio_socket sk) then [RuntimeCRIO] else [])
     @ (if socket_present fs (docker_socket sk) then [RuntimeDocker] else [])"

text \<open>The explicit runtime is part of the options; the empty name stands for none.\<close>

definition detect_runtime_strict :: "fs \<Rightarrow> (sockets \<times> string) option \<Rightarrow> gerr + runtime_type" where
  "detect_runtime_strict fs opts =
     (let (sk, explicit) = (case opts of None \<Rightarrow> (default_sockets, []) | Some x \<Rightarrow> x)
      in if explicit \<noteq> [] then Inr (runtime_type_of explicit)
         else case detected_runtimes fs sk of
                [] \<Rightarrow> Inl (Msg ''no container runtime detected'')
              | [rt] \<Rightarrow> Inr rt
              | rts \<Rightarrow> Inl (Msg (''multiple runtimes detected: ['' @ join_strs '', '' (map runtime_text rts)
                           @ '']. Use --runtime flag to specify which one to use'')))"

subsection \<open>Versions\<close>

record version =
  v_major :: int
  v_minor :: int
  v_patch :: int

definition at_least :: "version \<Rightarrow> int \<Rightarrow> int \<Rightarrow> bool" where
  "at_least v major minor = (if v_major v \<noteq> major then v_major v > major else v_minor v \<ge> minor)"

text \<open>\<open>strconv.Atoi\<close> with its error ignored: a number out of range is the largest one.\<close>

definition atoi_sat :: "string \<Rightarrow> int" where
  "atoi_sat s = (case atoi s of Some i \<Rightarrow> i | None \<Rightarrow> 2 ^ 63 - 1)"

definition digits_of :: "string \<Rightarrow> string \<times> string" where
  "digits_of s = (takeWhile is_digit s, dropWhile is_digit s)"

text \<open>The version pattern at the start of a text: two groups of digits and an optional third.\<close>

definition match_version :: "string \<Rightarrow> version option" where
  "match_version s = (case digits_of s of (a, r1) \<Rightarrow>
     (case r1 of
        d1 # r1' \<Rightarrow>
          if a \<noteq> [] \<and> d1 = CHR ''.''
          then (case digits_of r1' of (b, r2) \<Rightarrow>
             if b = [] then None
             else let c = (case r2 of d2 # r2' \<Rightarrow> if d2 = CHR ''.'' then fst (digits_of r2') else [] | [] \<Rightarrow> [])
                  in Some \<lparr> v_major = atoi_sat a, v_minor = atoi_sat b,
                            v_patch = (if c = [] then 0 else atoi_sat c) \<rparr>)
          else None
      | [] \<Rightarrow> None))"

text \<open>The leftmost match.\<close>

fun parse_version :: "string \<Rightarrow> version option" where
  "parse_version [] = None"
| "parse_version (c # s) = (case match_version (c # s) of Some v \<Rightarrow> Some v | None \<Rightarrow> parse_version s)"

fun version_args :: "runtime_type \<Rightarrow> string list option" where
  "version_args RuntimeContainerd = Some [''containerd'', ''--version'']"
| "version_args RuntimeDocker = Some [''dockerd'', ''--version'']"
| "version_args _ = None"

type_synonym command_runner = "string list \<Rightarrow> gerr + string"

definition detect_version :: "command_runner \<Rightarrow> runtime_type \<Rightarrow> string \<Rightarrow> version option" where
  "detect_version run rt host =
     (case version_args rt of
        None \<Rightarrow> None
      | Some argv \<Rightarrow>
          (case run (if host \<noteq> [] \<and> host \<noteq> ''/'' then ''chroot'' # host # argv else argv) of
             Inl _ \<Rightarrow> None | Inr out \<Rightarrow> parse_version out))"

subsection \<open>The configuration of containerd\<close>

definition cri_plugin_key :: string where "cri_plugin_key = ''io.containerd.grpc.v1.cri''"

definition parse_containerd_config :: "codecs \<Rightarrow> string \<Rightarrow> gerr + table" where
  "parse_containerd_config cd content =
     (if trim_space content = [] then Inr []
      else case toml_decode cd content of None \<Rightarrow> Inl (WrapW ''parse containerd config'' (Msg ''toml''))
           | Some t \<Rightarrow> Inr t)"

definition cri_section :: "table \<Rightarrow> table option" where
  "cri_section root = (case get_tab root ''plugins'' of None \<Rightarrow> None | Some pl \<Rightarrow> get_tab pl cri_plugin_key)"

text \<open>\<open>criSection (true)\<close> and the writes through the table it returns.\<close>

definition update_cri :: "(table \<Rightarrow> table) \<Rightarrow> table \<Rightarrow> table" where
  "update_cri f root =
     (let pl = (case get_tab root ''plugins'' of None \<Rightarrow> [] | Some p \<Rightarrow> p);
          cri = (case get_tab pl cri_plugin_key of None \<Rightarrow> [] | Some c \<Rightarrow> c)
      in AList.update ''plugins'' (VTab (AList.update cri_plugin_key (VTab (f cri)) pl)) root)"

definition enable_cdi_setting :: "table \<Rightarrow> bool option" where
  "enable_cdi_setting root = (case cri_section root of None \<Rightarrow> None | Some cri \<Rightarrow> get_bool cri ''enable_cdi'')"

definition spec_dirs :: "table \<Rightarrow> string list option" where
  "spec_dirs root = (case cri_section root of None \<Rightarrow> None | Some cri \<Rightarrow> get_strings cri ''cdi_spec_dirs'')"

definition contains_clean_path :: "string list \<Rightarrow> string \<Rightarrow> bool" where
  "contains_clean_path dirs target \<longleftrightarrow> list_ex (\<lambda>d. clean d = target) dirs"

definition scans_default_spec_dir :: "table \<Rightarrow> bool" where
  "scans_default_spec_dir root = (case spec_dirs root of None \<Rightarrow> True
     | Some dirs \<Rightarrow> contains_clean_path dirs default_cdi_spec_dir)"

text \<open>The changes to the CRI table.\<close>

definition enable_cri :: "table \<Rightarrow> table" where
  "enable_cri cri0 =
     (let cri = AList.update ''enable_cdi'' (VBool True) cri0
      in case get_strings cri ''cdi_spec_dirs'' of
           Some dirs \<Rightarrow> if contains_clean_path dirs default_cdi_spec_dir then cri
                       else AList.update ''cdi_spec_dirs'' (VArr (map VStr (dirs @ [default_cdi_spec_dir]))) cri
         | None \<Rightarrow> AList.update ''cdi_spec_dirs'' (VArr [VStr ''/etc/cdi'', VStr default_cdi_spec_dir]) cri)"

definition enable_tree :: "bool \<Rightarrow> table \<Rightarrow> table" where
  "enable_tree blank root =
     (let r = update_cri enable_cri root in if blank then AList.update ''version'' (VInt 2) r else r)"

definition enable_cdi_in_containerd_config :: "codecs \<Rightarrow> string \<Rightarrow> gerr + string" where
  "enable_cdi_in_containerd_config cd content =
     (case parse_containerd_config cd content of
        Inl e \<Rightarrow> Inl e
      | Inr root \<Rightarrow> (case toml_encode cd (enable_tree (trim_space content = []) root) of
            None \<Rightarrow> Inl (WrapW ''render containerd config'' (Msg ''toml'')) | Some s \<Rightarrow> Inr s))"

definition cdi_line :: "string \<Rightarrow> bool" where
  "cdi_line l \<longleftrightarrow> has_prefix (trim_space l) ''enable_cdi'' \<or> has_prefix (trim_space l) ''cdi_spec_dirs''"

definition disable_cdi_in_containerd_config :: "string \<Rightarrow> string" where
  "disable_cdi_in_containerd_config content =
     join_strs [newline] (filter (\<lambda>l. \<not> cdi_line l) (split_char newline content))"

subsection \<open>The configuration of Docker\<close>

text \<open>Writing into the nil map that \<open>null\<close> decodes to panics.\<close>

definition docker_enable_cdi :: "table option \<Rightarrow> table option" where
  "docker_enable_cdi c = (case c of
      None \<Rightarrow> None
    | Some t \<Rightarrow> Some (AList.update ''features'' (VTab (AList.update ''cdi'' (VBool True)
        (case get_tab t ''features'' of None \<Rightarrow> [] | Some f \<Rightarrow> f))) t))"

definition docker_cdi_feature :: "table option \<Rightarrow> bool option" where
  "docker_cdi_feature c = (case c of None \<Rightarrow> None
    | Some t \<Rightarrow> (case get_tab t ''features'' of None \<Rightarrow> None | Some f \<Rightarrow> get_bool f ''cdi''))"

definition docker_disable_cdi :: "table \<Rightarrow> table" where
  "docker_disable_cdi t = (case get_tab t ''features'' of
      None \<Rightarrow> t
    | Some f \<Rightarrow> (let f' = AList.delete ''cdi-devices'' (AList.delete ''cdi'' f)
                in if f' = [] then AList.delete ''features'' t else AList.update ''features'' (VTab f') t))"

subsection \<open>What enabling does to a containerd configuration\<close>

lemma get_strings_update_other: "k \<noteq> k' \<Longrightarrow> get_strings (AList.update k' v t) k = get_strings t k"
  by (simp add: get_strings_def AList.update_conv')

lemma get_strings_update: "get_strings (AList.update k (VArr vs) t) k = Some (the_strings vs)"
  by (simp add: get_strings_def AList.update_conv')

lemma the_strings_simps [simp]:
  "the_strings [] = []" "the_strings (VStr x # vs) = x # the_strings vs" "the_strings (us @ vs) = the_strings us @ the_strings vs"
  by (simp_all add: the_strings_def)

lemma the_strings_map [simp]: "the_strings (map VStr xs) = xs"
  by (induction xs) simp_all

lemma get_tab_update [simp]: "get_tab (AList.update k (VTab u) t) k = Some u"
  by (simp add: get_tab_def AList.update_conv')

lemma get_tab_update_other [simp]: "k \<noteq> k' \<Longrightarrow> get_tab (AList.update k' v t) k = get_tab t k"
  by (simp add: get_tab_def AList.update_conv')

lemma get_bool_update [simp]: "get_bool (AList.update k (VBool b) t) k = Some b"
  by (simp add: get_bool_def AList.update_conv')

lemma get_bool_update_other [simp]: "k \<noteq> k' \<Longrightarrow> get_bool (AList.update k' v t) k = get_bool t k"
  by (simp add: get_bool_def AList.update_conv')

lemma alist_update_same: "map_of t k = Some v \<Longrightarrow> AList.update k v t = t"
  by (induction t) (auto split: if_splits)

lemma clean_default_dir: "clean default_cdi_spec_dir = default_cdi_spec_dir"
  by code_simp

lemma enable_cri_settings:
  "get_bool (enable_cri cri) ''enable_cdi'' = Some True"
  "\<exists>dirs. get_strings (enable_cri cri) ''cdi_spec_dirs'' = Some dirs \<and> contains_clean_path dirs default_cdi_spec_dir"
proof -
  show "get_bool (enable_cri cri) ''enable_cdi'' = Some True"
    by (simp add: enable_cri_def Let_def split: option.split)
  have d: "contains_clean_path [''/etc/cdi'', default_cdi_spec_dir] default_cdi_spec_dir"
    by (simp add: contains_clean_path_def clean_default_dir)
  have two: "VArr [VStr ''/etc/cdi'', VStr default_cdi_spec_dir] = VArr (map VStr [''/etc/cdi'', default_cdi_spec_dir])"
    by simp
  show "\<exists>dirs. get_strings (enable_cri cri) ''cdi_spec_dirs'' = Some dirs \<and> contains_clean_path dirs default_cdi_spec_dir"
  proof (cases "get_strings cri ''cdi_spec_dirs''")
    case None
    then show ?thesis
      using d by (simp add: enable_cri_def Let_def get_strings_update_other get_strings_update two del: list.map)
  next
    case (Some dirs)
    then show ?thesis
      by (cases "contains_clean_path dirs default_cdi_spec_dir")
        (simp_all add: enable_cri_def Let_def get_strings_update_other get_strings_update contains_clean_path_def clean_default_dir)
  qed
qed

lemma enable_cri_idem: "enable_cri (enable_cri cri) = enable_cri cri"
proof -
  obtain dirs where d: "get_strings (enable_cri cri) ''cdi_spec_dirs'' = Some dirs"
    "contains_clean_path dirs default_cdi_spec_dir" using enable_cri_settings(2) by blast
  have "map_of (enable_cri cri) ''enable_cdi'' = Some (VBool True)"
    using enable_cri_settings(1) [of cri] by (auto simp: get_bool_def split: option.splits val.splits)
  then have "AList.update ''enable_cdi'' (VBool True) (enable_cri cri) = enable_cri cri" by (rule alist_update_same)
  then show ?thesis using d by (simp add: enable_cri_def [of "enable_cri cri"] Let_def)
qed

lemma cri_section_update: "cri_section (update_cri f root) =
   Some (f (case cri_section root of None \<Rightarrow> [] | Some c \<Rightarrow> c))"
  by (auto simp: cri_section_def update_cri_def Let_def get_tab_def AList.update_conv' split: option.splits val.splits)

lemma cri_section_version: "cri_section (AList.update ''version'' v root) = cri_section root"
  by (simp add: cri_section_def)

lemma cri_section_enable: "cri_section (enable_tree b root) = Some (enable_cri (case cri_section root of None \<Rightarrow> [] | Some c \<Rightarrow> c))"
  by (simp add: enable_tree_def Let_def cri_section_version cri_section_update)

lemma enable_tree_ready: "enable_cdi_setting (enable_tree b root) = Some True" "scans_default_spec_dir (enable_tree b root)"
  using enable_cri_settings
  by (auto simp: enable_cdi_setting_def scans_default_spec_dir_def spec_dirs_def cri_section_enable split: option.splits)
    (metis option.inject)+



subsection \<open>Versions and detection\<close>

lemma at_least_lexicographic:
  "at_least v major minor \<longleftrightarrow> major < v_major v \<or> (major = v_major v \<and> minor \<le> v_minor v)"
  by (auto simp: at_least_def)

lemma digits_of_append:
  "\<lbrakk> list_all is_digit d; r = [] \<or> \<not> is_digit (hd r) \<rbrakk> \<Longrightarrow> digits_of (d @ r) = (d, r)"
  by (cases r) (auto simp: digits_of_def list_all_iff takeWhile_append2 dropWhile_append2)

lemma atoi_sat_show: "n < 2 ^ 63 \<Longrightarrow> atoi_sat (show_nat n) = int n"
  by (simp add: atoi_sat_def atoi_show_nat)

lemma dot_no_digit: "\<not> is_digit CHR ''.''"
  by code_simp

lemma match_version_show:
  assumes "a < 2 ^ 63" "b < 2 ^ 63" "c < 2 ^ 63" "rest = [] \<or> \<not> is_digit (hd rest)"
  shows "match_version (show_nat a @ ''.'' @ show_nat b @ ''.'' @ show_nat c @ rest) =
    Some \<lparr> v_major = int a, v_minor = int b, v_patch = int c \<rparr>"
proof -
  have 1: "digits_of (show_nat a @ CHR ''.'' # x) = (show_nat a, CHR ''.'' # x)" for a x
    using show_nat_digits [of a] dot_no_digit by (intro digits_of_append) simp_all
  have 2: "digits_of (show_nat c @ rest) = (show_nat c, rest)"
    using show_nat_digits [of c] assms(4) by (intro digits_of_append) simp_all
  show ?thesis
    using assms(1-3) by (simp add: match_version_def 1 2 atoi_sat_show)
qed

lemma parse_version_skip:
  "list_all (\<lambda>c. \<not> is_digit c) pre \<Longrightarrow> parse_version (pre @ s) = parse_version s"
  by (induction pre) (auto simp: match_version_def digits_of_def split: list.split)

text \<open>
  The version in a runtime's banner is read back: after any text without digits, the first
  dotted version is parsed into its three numbers, whatever follows that is no digit.
\<close>

theorem parse_version_banner:
  assumes "list_all (\<lambda>c. \<not> is_digit c) pre" "a < 2 ^ 63" "b < 2 ^ 63" "c < 2 ^ 63"
    and "rest = [] \<or> \<not> is_digit (hd rest)"
  shows "parse_version (pre @ show_nat a @ ''.'' @ show_nat b @ ''.'' @ show_nat c @ rest) =
    Some \<lparr> v_major = int a, v_minor = int b, v_patch = int c \<rparr>"
proof -
  obtain x xs where "show_nat a @ ''.'' @ show_nat b @ ''.'' @ show_nat c @ rest = x # xs"
    by (cases "show_nat a @ ''.'' @ show_nat b @ ''.'' @ show_nat c @ rest") auto
  with match_version_show [OF assms(2-5)] parse_version_skip [OF assms(1), of "x # xs"]
  show ?thesis by simp
qed

theorem parse_version_banner_witness:
  "parse_version ''containerd github.com v2.0.1 abc'' = Some \<lparr> v_major = 2, v_minor = 0, v_patch = 1 \<rparr>"
proof -
  have 1: "''containerd github.com v2.0.1 abc'' =
      ''containerd github.com v'' @ show_nat 2 @ ''.'' @ show_nat 0 @ ''.'' @ show_nat 1 @ '' abc''"
    by code_simp
  have 2: "list_all (\<lambda>c. \<not> is_digit c) ''containerd github.com v''"
    and 3: "'' abc'' = [] \<or> \<not> is_digit (hd '' abc'')" by code_simp+
  have "parse_version (''containerd github.com v'' @ show_nat 2 @ ''.'' @ show_nat 0 @ ''.'' @ show_nat 1 @ '' abc'')
      = Some \<lparr> v_major = int 2, v_minor = int 0, v_patch = int 1 \<rparr>"
    by (rule parse_version_banner [OF 2 _ _ _ 3]) simp_all
  then show ?thesis unfolding 1 by simp
qed

text \<open>
  Strict detection agrees with detection by priority and is stricter only where it must be:
  without an explicit choice it succeeds exactly when one socket exists, then with the runtime the
  priority order gives; with several sockets it refuses where the other picks.
\<close>

theorem detect_strict_agrees:
  "detect_runtime_strict fs (Some (sk, [])) = Inr rt \<longleftrightarrow>
     length (detected_runtimes fs sk) = 1 \<and> detect_runtime_with_options fs (Some sk) = Inr rt"
  by (auto simp: detect_runtime_strict_def detect_runtime_with_options_def detected_runtimes_def)

end
