(* ===== verification/Runtime_Configure.thy ===== *)
theory Runtime_Configure imports Runtime_Config begin

text \<open>
  The operations of \<open>internal/runtime\<close> on files: \<open>Configure\<close>, \<open>DryRun\<close>, \<open>Revert\<close> and \<open>CDIReady\<close>.
  Changes run on the state of calls with faults; the readiness checks read a file system.
\<close>

subsection \<open>Configure\<close>

definition backup_path :: "string \<Rightarrow> string" where "backup_path p = p @ ''.backup''"

definition backup_file :: "string \<Rightarrow> os \<Rightarrow> unit res \<times> os" where
  "backup_file p s = (case query (\<lambda>fs. fs_stat fs p) s of
      (Inl ENOENT, s1) \<Rightarrow> (Inr (), s1)
    | (_, s1) \<Rightarrow> (case query (\<lambda>fs. fs_read_file fs p) s1 of
          (Inl e, s2) \<Rightarrow> (Inl e, s2)
        | (Inr content, s2) \<Rightarrow> effect (fs_write (backup_path p) content 0x1A4) s2))"

text \<open>A missing file counts as the empty text.\<close>

definition read_or_empty :: "string \<Rightarrow> os \<Rightarrow> string res \<times> os" where
  "read_or_empty p s = (case query (\<lambda>fs. fs_read_file fs p) s of
      (Inl e, s1) \<Rightarrow> (if is_not_exist e then Inr [] else Inl e, s1)
    | r \<Rightarrow> r)"

definition write_config :: "string \<Rightarrow> string \<Rightarrow> os \<Rightarrow> gerr option \<times> os" where
  "write_config p content s =
     (case effect (fs_mkdir_all (path_dir p)) s of
        (Inl e, s1) \<Rightarrow> (Some (WrapV (''create config directory '' @ path_dir p) (Sys e)), s1)
      | (Inr _, s1) \<Rightarrow> (case effect (fs_write p content 0x1A4) s1 of
          (Inl e, s2) \<Rightarrow> (Some (WrapV (''write config '' @ p) (Sys e)), s2)
        | (Inr _, s2) \<Rightarrow> (None, s2)))"

definition containerd_configure :: "codecs \<Rightarrow> string \<Rightarrow> os \<Rightarrow> gerr option \<times> os" where
  "containerd_configure cd p s =
     (case backup_file p s of
        (Inl e, s1) \<Rightarrow> (Some (WrapV ''backup config'' (Sys e)), s1)
      | (Inr _, s1) \<Rightarrow> (case read_or_empty p s1 of
          (Inl e, s2) \<Rightarrow> (Some (WrapV (''read config '' @ p) (Sys e)), s2)
        | (Inr content, s2) \<Rightarrow> (case enable_cdi_in_containerd_config cd content of
            Inl e \<Rightarrow> (Some (WrapW (''enable CDI in config '' @ p) e), s2)
          | Inr new_content \<Rightarrow> write_config p new_content s2)))"

definition containerd_dry_run :: "codecs \<Rightarrow> string \<Rightarrow> fs \<Rightarrow> gerr + string" where
  "containerd_dry_run cd p fs =
     (case enable_cdi_in_containerd_config cd (case fs_read_file fs p of Inl _ \<Rightarrow> [] | Inr d \<Rightarrow> d) of
        Inl e \<Rightarrow> Inl (WrapW (''enable CDI in config '' @ p) e)
      | Inr c \<Rightarrow> Inr (''--- '' @ p @ '' (original)'' @ [newline] @ ''+++ '' @ p @ '' (modified)'' @ [newline, newline] @ c))"

definition crio_generate_config :: string where
  "crio_generate_config = join_strs [newline]
     [''# RBLN Container Toolkit CRI-O configuration drop-in.'',
      ''#'',
      ''# CRI-O has no enable_cdi toggle: CDI injection is always on and is driven'',
      ''# solely by cdi_spec_dirs. This drop-in only ensures /var/run/cdi (where the'',
      ''# toolkit writes RBLN CDI specs) is scanned. On a default CRI-O node that dir is'',
      ''# already a default spec dir, so this file is written only when the effective'',
      ''# configuration does not already cover it.'',
      '''',
      ''[crio.runtime]'',
      ''cdi_spec_dirs = ['',
      ''    '' @ [quote_char] @ ''/etc/cdi'' @ [quote_char] @ '','',
      ''    '' @ [quote_char] @ ''/var/run/cdi'' @ [quote_char],
      '']'',
      '''']"

definition crio_configure :: "string \<Rightarrow> os \<Rightarrow> gerr option \<times> os" where
  "crio_configure p s = write_config p crio_generate_config s"

definition crio_dry_run :: "string \<Rightarrow> gerr + string" where
  "crio_dry_run p = Inr (''--- '' @ p @ '' (new file)'' @ [newline, newline] @ crio_generate_config)"

definition nil_map_panic :: gerr where
  "nil_map_panic = Msg ''panic: assignment to entry in nil map''"

text \<open>The parsed file, an empty object where there is none.\<close>

definition parse_docker_config :: "codecs \<Rightarrow> string \<Rightarrow> table option option" where
  "parse_docker_config cd content = (if content = [] then Some (Some []) else json_decode cd content)"

definition docker_configure :: "codecs \<Rightarrow> string \<Rightarrow> os \<Rightarrow> gerr option \<times> os" where
  "docker_configure cd p s =
     (case backup_file p s of
        (Inl e, s1) \<Rightarrow> (Some (WrapV ''backup config'' (Sys e)), s1)
      | (Inr _, s1) \<Rightarrow> (case read_or_empty p s1 of
          (Inl e, s2) \<Rightarrow> (Some (WrapV (''read config '' @ p) (Sys e)), s2)
        | (Inr content, s2) \<Rightarrow> (case parse_docker_config cd content of
            None \<Rightarrow> (Some (WrapV (''parse config '' @ p) (Msg ''json'')), s2)
          | Some c \<Rightarrow> (case docker_enable_cdi c of
              None \<Rightarrow> (Some nil_map_panic, s2)
            | Some t \<Rightarrow> (case json_encode cd t of
                None \<Rightarrow> (Some (WrapV ''marshal config'' (Msg ''json'')), s2)
              | Some new_content \<Rightarrow> write_config p new_content s2)))))"

definition docker_dry_run :: "codecs \<Rightarrow> string \<Rightarrow> fs \<Rightarrow> gerr + string" where
  "docker_dry_run cd p fs =
     (case parse_docker_config cd (case fs_read_file fs p of Inl _ \<Rightarrow> [] | Inr d \<Rightarrow> d) of
        None \<Rightarrow> Inl (WrapW ''parse config'' (Msg ''json''))
      | Some c \<Rightarrow> (case docker_enable_cdi c of
          None \<Rightarrow> Inl nil_map_panic
        | Some t \<Rightarrow> (case json_encode cd t of
            None \<Rightarrow> Inl (WrapW ''marshal config'' (Msg ''json''))
          | Some out \<Rightarrow> Inr (''--- '' @ p @ [newline, newline] @ out))))"

text \<open>\<open>NewConfigurator\<close> and the method it dispatches to.\<close>

definition configure :: "codecs \<Rightarrow> runtime_type \<Rightarrow> string \<Rightarrow> os \<Rightarrow> gerr option \<times> os" where
  "configure cd rt p s = (case rt of
      RuntimeContainerd \<Rightarrow> containerd_configure cd p s
    | RuntimeCRIO \<Rightarrow> crio_configure p s
    | RuntimeDocker \<Rightarrow> docker_configure cd p s
    | OtherRuntime n \<Rightarrow> (Some (WrapW n (Sentinel ErrRuntimeNotFound)), s))"

definition dry_run :: "codecs \<Rightarrow> runtime_type \<Rightarrow> string \<Rightarrow> fs \<Rightarrow> gerr + string" where
  "dry_run cd rt p fs = (case rt of
      RuntimeContainerd \<Rightarrow> containerd_dry_run cd p fs
    | RuntimeCRIO \<Rightarrow> crio_dry_run p
    | RuntimeDocker \<Rightarrow> docker_dry_run cd p fs
    | OtherRuntime n \<Rightarrow> Inl (WrapW n (Sentinel ErrRuntimeNotFound)))"

subsection \<open>Revert\<close>

definition restore_backup :: "string \<Rightarrow> os \<Rightarrow> gerr option \<times> os" where
  "restore_backup p s =
     (case query (\<lambda>fs. fs_read_file fs (backup_path p)) s of
        (Inl e, s1) \<Rightarrow> (Some (WrapW ''read backup'' (Sys e)), s1)
      | (Inr content, s1) \<Rightarrow> (case effect (fs_write p content 0x1A4) s1 of
          (Inl e, s2) \<Rightarrow> (Some (WrapW ''restore backup'' (Sys e)), s2)
        | (Inr _, s2) \<Rightarrow> (None, snd (effect (fs_remove (backup_path p)) s2))))"

definition write_back :: "string \<Rightarrow> string \<Rightarrow> os \<Rightarrow> gerr option \<times> os" where
  "write_back p content s = (case effect (fs_write p content 0x1A4) s of
      (Inl e, s1) \<Rightarrow> (Some (Sys e), s1) | (Inr _, s1) \<Rightarrow> (None, s1))"

definition containerd_revert :: "string \<Rightarrow> os \<Rightarrow> gerr option \<times> os" where
  "containerd_revert p s =
     (case query (\<lambda>fs. fs_stat fs (backup_path p)) s of
        (Inr _, s1) \<Rightarrow> restore_backup p s1
      | (Inl _, s1) \<Rightarrow> (case query (\<lambda>fs. fs_read_file fs p) s1 of
          (Inl e, s2) \<Rightarrow> (if is_not_exist e then None else Some (WrapW ''read config'' (Sys e)), s2)
        | (Inr content, s2) \<Rightarrow>
            (let new_content = disable_cdi_in_containerd_config content
             in if new_content = content then (None, s2) else write_back p new_content s2)))"

definition crio_revert :: "string \<Rightarrow> os \<Rightarrow> gerr option \<times> os" where
  "crio_revert p s =
     (case effect (fs_remove p) s of
        (r1, s1) \<Rightarrow>
          if (case r1 of Inl e \<Rightarrow> \<not> is_not_exist e | Inr _ \<Rightarrow> False) then (Some (Sys (projl r1)), s1)
          else (case effect (fs_remove (backup_path p)) s1 of
                  (r2, s2) \<Rightarrow>
                    if (case r2 of Inl e \<Rightarrow> \<not> is_not_exist e | Inr _ \<Rightarrow> False) then (Some (Sys (projl r2)), s2)
                    else (None, s2)))"

text \<open>The JSON text of the nil map is \<open>null\<close>.\<close>

definition docker_revert :: "codecs \<Rightarrow> string \<Rightarrow> os \<Rightarrow> gerr option \<times> os" where
  "docker_revert cd p s =
     (case query (\<lambda>fs. fs_stat fs (backup_path p)) s of
        (Inr _, s1) \<Rightarrow> restore_backup p s1
      | (Inl _, s1) \<Rightarrow> (case query (\<lambda>fs. fs_read_file fs p) s1 of
          (Inl e, s2) \<Rightarrow> (if is_not_exist e then None else Some (WrapW ''read config'' (Sys e)), s2)
        | (Inr content, s2) \<Rightarrow> (case json_decode cd content of
            None \<Rightarrow> (Some (WrapW ''parse config'' (Msg ''json'')), s2)
          | Some c \<Rightarrow> (case (case c of None \<Rightarrow> Some ''null'' | Some t \<Rightarrow> json_encode cd (docker_disable_cdi t)) of
              None \<Rightarrow> (Some (WrapW ''marshal config'' (Msg ''json'')), s2)
            | Some new_content \<Rightarrow> write_back p new_content s2))))"

definition revert :: "codecs \<Rightarrow> runtime_type \<Rightarrow> string \<Rightarrow> os \<Rightarrow> gerr option \<times> os" where
  "revert cd rt p0 s =
     (let p = (if p0 = [] then default_config_path rt else p0)
      in case rt of
           RuntimeContainerd \<Rightarrow> containerd_revert p s
         | RuntimeCRIO \<Rightarrow> crio_revert p s
         | RuntimeDocker \<Rightarrow> docker_revert cd p s
         | OtherRuntime n \<Rightarrow> (Some (WrapW n (Sentinel ErrRuntimeNotFound)), s))"

subsection \<open>Readiness\<close>

definition read_config :: "fs \<Rightarrow> string \<Rightarrow> gerr + string" where
  "read_config fs p = (case fs_read_file fs p of
      Inl e \<Rightarrow> if is_not_exist e then Inr [] else Inl (WrapW (''read config '' @ p) (Sys e))
    | Inr d \<Rightarrow> Inr d)"

definition containerd_cdi_ready :: "codecs \<Rightarrow> command_runner \<Rightarrow> fs \<Rightarrow> string \<Rightarrow> string \<Rightarrow> gerr + bool" where
  "containerd_cdi_ready cd run fs p host =
     (case read_config fs p of
        Inl e \<Rightarrow> Inl e
      | Inr data \<Rightarrow> (case parse_containerd_config cd data of
          Inl e \<Rightarrow> Inl (WrapW (''check CDI readiness for '' @ p) e)
        | Inr root \<Rightarrow>
            if \<not> scans_default_spec_dir root then Inr False
            else case enable_cdi_setting root of
                   Some b \<Rightarrow> Inr b
                 | None \<Rightarrow> Inr (case detect_version run RuntimeContainerd host of
                       Some v \<Rightarrow> at_least v 2 0 | None \<Rightarrow> False)))"

definition docker_cdi_ready :: "codecs \<Rightarrow> command_runner \<Rightarrow> fs \<Rightarrow> string \<Rightarrow> string \<Rightarrow> gerr + bool" where
  "docker_cdi_ready cd run fs p host =
     (case read_config fs p of
        Inl e \<Rightarrow> Inl e
      | Inr data \<Rightarrow> (case parse_docker_config cd data of
          None \<Rightarrow> Inl (WrapW (''parse config '' @ p) (Msg ''json''))
        | Some c \<Rightarrow>
            (let f = docker_cdi_feature c
             in if (case detect_version run RuntimeDocker host of Some v \<Rightarrow> at_least v 28 2 | None \<Rightarrow> False)
                then Inr (f = None \<or> f = Some True) else Inr (f = Some True))))"

definition crio_config_files :: "fs \<Rightarrow> string \<Rightarrow> string \<Rightarrow> gerr + string list" where
  "crio_config_files fs main_conf dir =
     (case (case fs_stat fs main_conf of
              Inr n \<Rightarrow> Inr (if is_dir_node n then [] else [main_conf])
            | Inl e \<Rightarrow> if is_not_exist e then Inr [] else Inl (WrapW (''stat '' @ main_conf) (Sys e))) of
        Inl e \<Rightarrow> Inl e
      | Inr files \<Rightarrow> (case fs_read_dir fs dir of
          Inl e \<Rightarrow> if is_not_exist e then Inr files else Inl (WrapW (''read CRI-O drop-in dir '' @ dir) (Sys e))
        | Inr es \<Rightarrow> Inr (files @ sort (map (\<lambda>(n, d). path_join [dir, n]) (filter (\<lambda>(n, d). \<not> d) es)))))"

definition crio_spec_dirs :: "codecs \<Rightarrow> string \<Rightarrow> string list option option" where
  "crio_spec_dirs cd data = (case toml_decode cd data of
      None \<Rightarrow> None
    | Some root \<Rightarrow> Some (case get_tab root ''crio'' of None \<Rightarrow> None
        | Some c \<Rightarrow> (case get_tab c ''runtime'' of None \<Rightarrow> None | Some r \<Rightarrow> get_strings r ''cdi_spec_dirs'')))"

text \<open>What one file contributes; unreadable and unparseable files are skipped.\<close>

definition crio_file_dirs :: "codecs \<Rightarrow> fs \<Rightarrow> string \<Rightarrow> string list option" where
  "crio_file_dirs cd fs f = (case fs_read_file fs f of Inl _ \<Rightarrow> None
     | Inr data \<Rightarrow> (case crio_spec_dirs cd data of None \<Rightarrow> None | Some d \<Rightarrow> d))"

definition crio_effective_spec_dirs :: "codecs \<Rightarrow> fs \<Rightarrow> string list \<Rightarrow> string list option" where
  "crio_effective_spec_dirs cd fs files =
     foldl (\<lambda>acc f. case crio_file_dirs cd fs f of Some d \<Rightarrow> Some d | None \<Rightarrow> acc) None files"

definition crio_scans_spec_dir :: "codecs \<Rightarrow> fs \<Rightarrow> string \<Rightarrow> gerr + bool" where
  "crio_scans_spec_dir cd fs drop_in =
     (let dir = path_dir drop_in; main_conf = path_join [path_dir dir, ''crio.conf'']
      in case crio_config_files fs main_conf dir of
           Inl e \<Rightarrow> Inl e
         | Inr files \<Rightarrow> (case crio_effective_spec_dirs cd fs files of
               None \<Rightarrow> Inr True
             | Some dirs \<Rightarrow> Inr (contains_clean_path dirs default_cdi_spec_dir)))"

definition crio_cdi_ready :: "codecs \<Rightarrow> fs \<Rightarrow> string \<Rightarrow> gerr + bool" where
  "crio_cdi_ready cd fs p = crio_scans_spec_dir cd fs p"

definition cdi_ready :: "codecs \<Rightarrow> command_runner \<Rightarrow> fs \<Rightarrow> runtime_type \<Rightarrow> string \<Rightarrow> string \<Rightarrow> gerr + bool" where
  "cdi_ready cd run fs rt p host = (case rt of
      RuntimeContainerd \<Rightarrow> containerd_cdi_ready cd run fs p host
    | RuntimeCRIO \<Rightarrow> crio_cdi_ready cd fs p
    | RuntimeDocker \<Rightarrow> docker_cdi_ready cd run fs p host
    | OtherRuntime n \<Rightarrow> Inl (WrapW n (Sentinel ErrRuntimeNotFound)))"

subsection \<open>What readiness looks at\<close>

lemma same_cri_section: "same_table t u \<Longrightarrow> rel_option same_table (cri_section t) (cri_section u)"
  using same_get_tab [of t u "''plugins''"]
  by (cases "get_tab t ''plugins''"; cases "get_tab u ''plugins''") (auto simp: cri_section_def same_get_tab)

lemma same_settings:
  assumes "same_table t u"
  shows "enable_cdi_setting u = enable_cdi_setting t" "scans_default_spec_dir u = scans_default_spec_dir t"
proof -
  consider "cri_section t = None" "cri_section u = None"
    | c d where "cri_section t = Some c" "cri_section u = Some d" "same_table c d"
    using same_cri_section [OF assms] by (auto elim: option.rel_cases)
  then show "enable_cdi_setting u = enable_cdi_setting t" "scans_default_spec_dir u = scans_default_spec_dir t"
    by (cases; simp add: enable_cdi_setting_def scans_default_spec_dir_def spec_dirs_def same_get_bool same_get_strings)+
qed

lemma same_docker_feature: "same_table t u \<Longrightarrow> docker_cdi_feature (Some u) = docker_cdi_feature (Some t)"
  using same_get_tab [of t u "''features''"]
  by (cases "get_tab t ''features''"; cases "get_tab u ''features''") (auto simp: docker_cdi_feature_def same_get_bool)

text \<open>
  What the code relies on of the TOML library: the text of a document that has an entry is not blank,
  and decoding it gives the same document, in whatever order of the keys. For JSON the round trip is
  proved; it rests on the float conversion alone.
\<close>

definition codecs_ok :: "codecs \<Rightarrow> bool" where
  "codecs_ok cd \<longleftrightarrow>
     (\<forall>t x. t \<noteq> [] \<longrightarrow> toml_encode cd t = Some x \<longrightarrow>
        trim_space x \<noteq> [] \<and> (\<exists>u. toml_decode cd x = Some u \<and> same_table t u))
     \<and> json_num_ok (json_float cd)"

definition docker_typed :: "codecs \<Rightarrow> table \<Rightarrow> bool" where
  "docker_typed cd = typed_table (json_float cd) (json_max_depth - 1)"

lemma json_decode_typed: "\<lbrakk> codecs_ok cd; json_decode cd content = Some (Some t) \<rbrakk> \<Longrightarrow> docker_typed cd t"
  unfolding codecs_ok_def json_decode_def docker_typed_def using unmarshal_typed by blast

lemma json_round_trip:
  assumes "docker_typed cd t" "json_encode cd t = Some x"
  obtains u where "x \<noteq> []" "json_decode cd x = Some (Some u)" "same_table t u"
proof -
  obtain u where "json_decode cd x = Some (Some u)" "same_table t u"
    using unmarshal_marshal assms unfolding docker_typed_def json_decode_def json_encode_def by blast
  moreover have "x \<noteq> []" using assms(2) by (auto simp: json_encode_def json_marshal_indent_def bracket_def split: if_splits)
  ultimately show thesis using that by blast
qed

lemma parse_docker_typed: "\<lbrakk> codecs_ok cd; parse_docker_config cd content = Some (Some t) \<rbrakk> \<Longrightarrow> docker_typed cd t"
  by (cases content) (auto simp: parse_docker_config_def json_decode_typed, simp add: docker_typed_def)

subsection \<open>Readiness after configuring\<close>

lemma write_config_None:
  assumes "write_config p c s = (None, s')"
  obtains s1 s2 where "effect (fs_mkdir_all (path_dir p)) s = (Inr (), s1)" "effect (fs_write p c 0x1A4) s1 = (Inr (), s')"
  using assms by (auto simp: write_config_def split: prod.splits sum.splits)

lemma write_config_reads: "write_config p c s = (None, s') \<Longrightarrow> fs_read_file (nodes s') p = Inr c"
  by (erule write_config_None) (auto dest!: effect_Inr read_after_write)

lemma containerd_configure_None:
  assumes "containerd_configure cd p s = (None, s')"
  obtains s1 s2 content c where "backup_file p s = (Inr (), s1)" "read_or_empty p s1 = (Inr content, s2)"
    "enable_cdi_in_containerd_config cd content = Inr c" "write_config p c s2 = (None, s')"
  using assms by (auto simp: containerd_configure_def split: prod.splits sum.splits)

lemma docker_configure_None:
  assumes "docker_configure cd p s = (None, s')"
  obtains s1 s2 content d t c where "backup_file p s = (Inr (), s1)" "read_or_empty p s1 = (Inr content, s2)"
    "parse_docker_config cd content = Some d" "docker_enable_cdi d = Some t" "json_encode cd t = Some c"
    "write_config p c s2 = (None, s')"
  using assms by (auto simp: docker_configure_def split: prod.splits sum.splits option.splits)

lemma enable_tree_nonempty: "enable_tree b root \<noteq> []"
  using cri_section_enable [of b root] by (auto simp: cri_section_def get_tab_def)

lemma containerd_ready:
  assumes "codecs_ok cd" "fs_read_file fs p = Inr c" "enable_cdi_in_containerd_config cd content = Inr c"
  shows "containerd_cdi_ready cd run fs p host = Inr True"
proof -
  from assms(3) obtain b root where "toml_encode cd (enable_tree b root) = Some c"
    by (auto simp: enable_cdi_in_containerd_config_def split: sum.splits option.splits)
  with assms(1) obtain u where "trim_space c \<noteq> []" "toml_decode cd c = Some u" "same_table (enable_tree b root) u"
    using enable_tree_nonempty unfolding codecs_ok_def by blast
  with assms(2) show ?thesis
    by (simp add: containerd_cdi_ready_def read_config_def parse_containerd_config_def same_settings enable_tree_ready)
qed

lemma get_bool_single: "get_bool [(k, VBool b)] k = Some b"
  by (simp add: get_bool_def)

lemma docker_enable_ready: "docker_enable_cdi c = Some t \<Longrightarrow> t \<noteq> [] \<and> docker_cdi_feature (Some t) = Some True"
  by (auto simp: docker_enable_cdi_def docker_cdi_feature_def update_nonempty get_bool_single split: option.splits)

lemma docker_enable_typed:
  assumes "docker_typed cd t" "docker_enable_cdi (Some t) = Some u"
  shows "docker_typed cd u"
proof -
  let ?n = "json_float cd"
  define d :: nat where "d = json_max_depth - 3"
  have t: "typed_table ?n (Suc (Suc d)) t" using assms(1) by (simp add: docker_typed_def json_max_depth_def d_def)
  have "typed_table ?n (Suc d) (case get_tab t ''features'' of None \<Rightarrow> [] | Some f \<Rightarrow> f)"
    using typed_table_get [OF t, of "''features''"] by (auto simp: get_tab_def json_typed_VTab split: option.split val.split)
  moreover have "valid_utf8 ''cdi''" "valid_utf8 ''features''" by code_simp+
  ultimately have "typed_table ?n (Suc (Suc d)) u"
    using assms(2) t by (auto simp: docker_enable_cdi_def json_typed_VTab intro!: typed_table_update json_typed.Bool)
  then show ?thesis by (simp add: docker_typed_def json_max_depth_def d_def)
qed

lemma docker_ready:
  assumes "codecs_ok cd" "fs_read_file fs p = Inr c" "parse_docker_config cd content = Some d"
    and "docker_enable_cdi d = Some t" "json_encode cd t = Some c"
  shows "docker_cdi_ready cd run fs p host = Inr True"
proof -
  obtain a where d: "d = Some a" using assms(4) by (cases d) (simp_all add: docker_enable_cdi_def)
  have "docker_typed cd t" using docker_enable_typed [OF parse_docker_typed [OF assms(1)]] assms(3,4) unfolding d by blast
  from json_round_trip [OF this assms(5)] obtain u where "c \<noteq> []" "json_decode cd c = Some (Some u)" "same_table t u" .
  with assms(2) docker_enable_ready [OF assms(4)] show ?thesis
    by (simp add: docker_cdi_ready_def read_config_def parse_docker_config_def same_docker_feature Let_def)
qed

text \<open>The text that \<open>Configure\<close> leaves is one that every later readiness check accepts.\<close>

lemma configured_text:
  assumes "codecs_ok cd" "rt = RuntimeContainerd \<or> rt = RuntimeDocker" "configure cd rt p s = (None, s')"
  obtains c where "fs_read_file (nodes s') p = Inr c"
    "\<And>fs run host. fs_read_file fs p = Inr c \<Longrightarrow> cdi_ready cd run fs rt p host = Inr True"
  using assms(2)
proof
  assume rt: "rt = RuntimeContainerd"
  with assms(3) obtain c content s2 where c: "enable_cdi_in_containerd_config cd content = Inr c" "write_config p c s2 = (None, s')"
    by (auto simp: configure_def elim: containerd_configure_None)
  show thesis
    by (rule that [OF write_config_reads [OF c(2)]]) (simp add: rt cdi_ready_def containerd_ready [OF assms(1) _ c(1)])
next
  assume rt: "rt = RuntimeDocker"
  with assms(3) obtain content d t c s2 where c: "parse_docker_config cd content = Some d"
    "docker_enable_cdi d = Some t" "json_encode cd t = Some c" "write_config p c s2 = (None, s')"
    by (auto simp: configure_def elim: docker_configure_None)
  show thesis
    by (rule that [OF write_config_reads [OF c(4)]]) (simp add: rt cdi_ready_def docker_ready [OF assms(1) _ c(1,2,3)])
qed

text \<open>
  C27: Configuring does its job: after a \<open>Configure\<close> of containerd or Docker that reports no error,
  \<open>CDIReady\<close> answers yes on the file it left, for every version the runtime may report (even none),
  whatever the file held before.
\<close>

theorem configure_ready:
  assumes "codecs_ok cd" "rt = RuntimeContainerd \<or> rt = RuntimeDocker" "configure cd rt p s = (None, s')"
  shows "cdi_ready cd run (nodes s') rt p host = Inr True"
proof (rule configured_text [OF assms])
  fix c
  assume "fs_read_file (nodes s') p = Inr c" "\<And>fs run host. fs_read_file fs p = Inr c \<Longrightarrow> cdi_ready cd run fs rt p host = Inr True"
  then show ?thesis by blast
qed

definition demo_codecs :: codecs where
  "demo_codecs = \<lparr> toml_decode = \<lambda>x. None, toml_encode = \<lambda>t. None, json_float = \<lambda>x. if json_number x then Some x else None \<rparr>"

lemma demo_codecs_ok: "codecs_ok demo_codecs"
  by (auto simp: codecs_ok_def demo_codecs_def json_num_ok_def)

definition demo_os :: os where
  "demo_os = \<lparr> nodes = [([''etc''], Dir)], faults = [], history = [] \<rparr>"

lemma demo_docker_configure: "\<exists>s'. configure demo_codecs RuntimeDocker ''/etc/daemon.json'' demo_os = (None, s')"
proof -
  have "fst (configure demo_codecs RuntimeDocker ''/etc/daemon.json'' demo_os) = None" by code_simp
  then show ?thesis by (metis prod.collapse)
qed

theorem configure_ready_witness:
  "\<exists>s'. configure demo_codecs RuntimeDocker ''/etc/daemon.json'' demo_os = (None, s')
     \<and> cdi_ready demo_codecs (\<lambda>_. Inl (Msg ''no such command'')) (nodes s') RuntimeDocker ''/etc/daemon.json'' '''' = Inr True"
  using demo_docker_configure configure_ready [OF demo_codecs_ok, of RuntimeDocker] by blast

subsection \<open>Backup and restore\<close>

text \<open>
  A store of texts by name, where several names may denote one place: what a write promises, and
  that a step that only adds places keeps what is there.
\<close>

locale text_store =
  fixes place :: "'s \<Rightarrow> string \<Rightarrow> 'k option"
    and rd :: "'s \<Rightarrow> string \<Rightarrow> string option"
    and wr :: "string \<Rightarrow> string \<Rightarrow> 's \<Rightarrow> 's option"
    and grows :: "'s \<Rightarrow> 's \<Rightarrow> bool"
  assumes rd_place: "rd s p = Some c \<Longrightarrow> place s p \<noteq> None"
    and wr_place: "wr p b s = Some s' \<Longrightarrow> place s' q = place s q"
    and wr_rd: "wr p b s = Some s' \<Longrightarrow> rd s' p = Some b"
    and wr_frame: "\<lbrakk> wr p b s = Some s'; place s q \<noteq> place s p; rd s q = Some c \<rbrakk> \<Longrightarrow> rd s' q = Some c"
    and wr_over: "rd s p = Some c \<Longrightarrow> \<exists>s'. wr p b s = Some s'"
    and grows_rd: "\<lbrakk> grows s s'; rd s p = Some c \<rbrakk> \<Longrightarrow> rd s' p = Some c \<and> place s' p = place s p"
begin

lemma backup_kept:
  assumes "rd s p = Some c" "place s q \<noteq> place s p" "wr q c s = Some s1" "grows s1 s2" "wr p new s2 = Some s3"
  shows "rd s1 p = Some c" "rd s3 q = Some c" "place s3 q \<noteq> place s3 p" "rd s3 p = Some new"
proof -
  show 1: "rd s1 p = Some c" using wr_frame assms(1-3) by metis
  have 2: "rd s1 q = Some c" by (rule wr_rd [OF assms(3)])
  have 3: "rd s2 q = Some c" "place s2 q \<noteq> place s2 p"
    using grows_rd [OF assms(4) 1] grows_rd [OF assms(4) 2] wr_place [OF assms(3)] assms(2) by simp_all
  then show "rd s3 q = Some c" using wr_frame [OF assms(5)] by blast
  show "place s3 q \<noteq> place s3 p" using 3(2) wr_place [OF assms(5)] by simp
  show "rd s3 p = Some new" by (rule wr_rd [OF assms(5)])
qed

lemma restore:
  assumes "rd s q = Some c" "place s q \<noteq> place s p" "rd s p = Some d"
  shows "\<exists>s'. wr p c s = Some s' \<and> rd s' p = Some c \<and> place s' q \<noteq> place s' p"
  using wr_over [OF assms(3), of c] wr_rd wr_place assms(2) by metis

end

definition place_of :: "fs \<Rightarrow> string \<Rightarrow> string list option" where
  "place_of fs p = (case resolve fs True p of Inl _ \<Rightarrow> None | Inr k \<Rightarrow> Some k)"

definition text_of :: "fs \<Rightarrow> string \<Rightarrow> string option" where
  "text_of fs p = (case fs_read_file fs p of Inl _ \<Rightarrow> None | Inr b \<Rightarrow> Some b)"

definition write_text :: "string \<Rightarrow> string \<Rightarrow> fs \<Rightarrow> fs option" where
  "write_text p b fs = (case fs_write p b 0x1A4 fs of (Inl _, _) \<Rightarrow> None | (Inr _, fs') \<Rightarrow> Some fs')"

lemma text_of_Some: "text_of fs p = Some b \<longleftrightarrow> fs_read_file fs p = Inr b"
  by (simp add: text_of_def split: sum.split)

lemma place_of_Some: "place_of fs p = Some k \<longleftrightarrow> resolve fs True p = Inr k"
  by (simp add: place_of_def split: sum.split)

lemma write_text_Some: "write_text p b fs = Some fs' \<longleftrightarrow> fs_write p b 0x1A4 fs = (Inr (), fs')"
  by (simp add: write_text_def split: prod.split sum.split)

lemma place_of_eqI: "(\<And>k. resolve a True p = Inr k \<longleftrightarrow> resolve b True p = Inr k) \<Longrightarrow> place_of a p = place_of b p"
  unfolding place_of_Some [symmetric] by (metis not_Some_eq)

interpretation conf: text_store place_of text_of write_text extends
proof unfold_locales
  fix s s' :: fs and p q b c :: string
  show "text_of s p = Some c \<Longrightarrow> place_of s p \<noteq> None"
    by (auto simp: text_of_Some place_of_def elim!: read_file_Inr)
  show "write_text p b s = Some s' \<Longrightarrow> place_of s' q = place_of s q"
    by (auto simp: write_text_Some resolve_set_plain elim!: fs_write_Inr intro!: place_of_eqI)
  show "write_text p b s = Some s' \<Longrightarrow> text_of s' p = Some b"
    by (simp add: write_text_Some text_of_Some read_after_write)
  show "\<lbrakk> write_text p b s = Some s'; place_of s q \<noteq> place_of s p; text_of s q = Some c \<rbrakk> \<Longrightarrow> text_of s' q = Some c"
    by (auto simp: write_text_Some text_of_Some place_of_def read_file_set_other elim!: fs_write_Inr split: sum.splits)
  show "text_of s p = Some c \<Longrightarrow> \<exists>s'. write_text p b s = Some s'"
    by (auto simp: write_text_Some text_of_Some fs_write_def elim!: read_file_Inr)
  show "\<lbrakk> extends s s'; text_of s p = Some c \<rbrakk> \<Longrightarrow> text_of s' p = Some c \<and> place_of s' p = place_of s p"
    using read_file_extends [of s s' p c] resolve_extends [of s s' True p]
    by (auto simp: text_of_Some place_of_def elim!: read_file_Inr)
qed

lemma query_calm: "faults s = [] \<Longrightarrow> query f s = (f (nodes s), s)"
  by (simp add: query_def next_fault_def)

lemma effect_calm:
  "faults s = [] \<Longrightarrow> f (nodes s) = (r, n) \<Longrightarrow>
   \<exists>s'. effect f s = (r, s') \<and> nodes s' = n \<and> faults s' = []"
  by (simp add: effect_def next_fault_def)

lemma effect_calm_Inr: "\<lbrakk> effect f s = (Inr x, s'); faults s = [] \<rbrakk> \<Longrightarrow> f (nodes s) = (Inr x, nodes s') \<and> faults s' = []"
  by (auto simp: effect_def next_fault_def split: prod.splits)

lemma stat_of_text: "fs_read_file fs p = Inr c \<Longrightarrow> \<exists>n. fs_stat fs p = Inr n"
  by (auto simp: fs_read_file_def split: sum.splits)

lemma backup_file_calm:
  assumes "backup_file p s = (Inr (), s1)" "faults s = []" "fs_read_file (nodes s) p = Inr c"
  shows "write_text (backup_path p) c (nodes s) = Some (nodes s1) \<and> faults s1 = []"
  using assms stat_of_text [OF assms(3)]
  by (auto simp: backup_file_def query_calm write_text_Some split: prod.splits sum.splits dest: effect_calm_Inr)

lemma read_or_empty_calm:
  "\<lbrakk> faults s = []; fs_read_file (nodes s) p = Inr c \<rbrakk> \<Longrightarrow> read_or_empty p s = (Inr c, s)"
  by (simp add: read_or_empty_def query_calm)

lemma write_config_calm:
  assumes "write_config p new s = (None, s')" "faults s = []"
  shows "\<exists>n. extends (nodes s) n \<and> write_text p new n = Some (nodes s') \<and> faults s' = []"
  using assms(1)
proof (rule write_config_None)
  fix s1
  assume m: "effect (fs_mkdir_all (path_dir p)) s = (Inr (), s1)" and w: "effect (fs_write p new 0x1A4) s1 = (Inr (), s')"
  from effect_calm_Inr [OF m assms(2)] have d: "fs_mkdir_all (path_dir p) (nodes s) = (Inr (), nodes s1)" "faults s1 = []" by auto
  have "extends (nodes s) (snd (fs_mkdir_all (path_dir p) (nodes s)))"
    unfolding fs_mkdir_all_def by (rule mkdir_each_extends) simp
  with d effect_calm_Inr [OF w d(2)] show ?thesis by (auto simp: write_text_Some)
qed

text \<open>The common shape of the two configurators: back up, then write.\<close>

lemma configure_shape:
  assumes "configure cd rt p s = (None, s')" "rt = RuntimeContainerd \<or> rt = RuntimeDocker" "faults s = []"
    and "fs_read_file (nodes s) p = Inr c" "place_of (nodes s) (backup_path p) \<noteq> place_of (nodes s) p"
  obtains n1 n2 new where "write_text (backup_path p) c (nodes s) = Some n1" "extends n1 n2"
    "write_text p new n2 = Some (nodes s')" "faults s' = []"
proof -
  have "\<exists>s1 s2 content new. backup_file p s = (Inr (), s1) \<and> read_or_empty p s1 = (Inr content, s2)
      \<and> write_config p new s2 = (None, s')"
    using assms(2)
  proof
    assume "rt = RuntimeContainerd"
    with assms(1) show ?thesis by (simp add: configure_def) (erule containerd_configure_None, blast)
  next
    assume "rt = RuntimeDocker"
    with assms(1) show ?thesis by (simp add: configure_def) (erule docker_configure_None, blast)
  qed
  then obtain s1 s2 content new where b: "backup_file p s = (Inr (), s1)" "read_or_empty p s1 = (Inr content, s2)"
    "write_config p new s2 = (None, s')" by blast
  from backup_file_calm [OF b(1) assms(3,4)] have w: "write_text (backup_path p) c (nodes s) = Some (nodes s1)" "faults s1 = []"
    by auto
  have "text_of (nodes s1) p = Some c"
    using conf.wr_frame [OF w(1)] assms(4,5) by (metis text_of_Some)
  then have "s2 = s1" using read_or_empty_calm [OF w(2)] b(2) by (simp add: text_of_Some)
  with write_config_calm [OF b(3)] w that show thesis by blast
qed

lemma restore_backup_calm:
  assumes "faults s = []" "fs_read_file (nodes s) (backup_path p) = Inr c" "write_text p c (nodes s) = Some n1"
    and "fs_remove (backup_path p) n1 = (Inr (), n2)"
  shows "\<exists>s'. restore_backup p s = (None, s') \<and> nodes s' = n2"
proof -
  obtain s1 where s1: "effect (fs_write p c 0x1A4) s = (Inr (), s1)" "nodes s1 = n1" "faults s1 = []"
    using effect_calm [OF assms(1), of "fs_write p c 0x1A4" "Inr ()" n1] assms(3) by (auto simp: write_text_Some)
  obtain s2 where "effect (fs_remove (backup_path p)) s1 = (Inr (), s2)" "nodes s2 = n2"
    using effect_calm [OF s1(3)] assms(4) s1(2) by blast
  with s1 assms(1,2) show ?thesis by (simp add: restore_backup_def query_calm)
qed

lemma revert_with_backup:
  assumes "rt = RuntimeContainerd \<or> rt = RuntimeDocker" "p \<noteq> []" "faults s = []"
    and "fs_read_file (nodes s) (backup_path p) = Inr c"
  shows "revert cd rt p s = restore_backup p s"
  using stat_of_text [OF assms(4)] assms(1-3)
  by (auto simp: revert_def containerd_revert_def docker_revert_def query_calm)

lemma write_text_place:
  assumes "write_text p b fs = Some fs'" "\<forall>t. fs_lstat fs p \<noteq> Inr (Sym t)"
  shows "\<exists>k m. resolve fs' False p = Inr k \<and> resolve fs' True p = Inr k \<and> node_at fs' k = Some (Reg b m)"
proof -
  from assms(1) obtain k m where k: "resolve fs True p = Inr k" "plain_at fs k" "fs' = set_node k (Reg b m) fs"
    by (auto simp: write_text_Some elim: fs_write_Inr)
  with resolve_nofollow [OF k(1) assms(2)] show ?thesis
    by (simp add: resolve_set_plain node_at_set plain_at_def)
qed

lemma write_text_keeps:
  assumes "write_text p b fs = Some fs'" "place_of fs q \<noteq> place_of fs p"
    and "resolve fs False q = Inr k" "resolve fs True q = Inr k" "node_at fs k = Some n"
  shows "resolve fs' False q = Inr k \<and> resolve fs' True q = Inr k \<and> node_at fs' k = Some n"
proof -
  from assms(1) obtain j m where "resolve fs True p = Inr j" "plain_at fs j" "fs' = set_node j (Reg b m) fs"
    by (auto simp: write_text_Some elim: fs_write_Inr)
  with assms(2-5) show ?thesis
    by (auto simp: resolve_set_plain node_at_set plain_at_def place_of_def)
qed

text \<open>
  C29: Reverting undoes configuring: when the configuration file of containerd or Docker held a text
  and its backup name denotes another place that is no link, then after a successful \<open>Configure\<close> a
  \<open>Revert\<close> succeeds, the file holds exactly that text again and no backup is left, with every call
  of the two runs answered by the file system.
\<close>

theorem revert_restores:
  assumes "rt = RuntimeContainerd \<or> rt = RuntimeDocker" "p \<noteq> []" "faults s = []"
    and "fs_read_file (nodes s) p = Inr c" "place_of (nodes s) (backup_path p) \<noteq> place_of (nodes s) p"
    and "\<forall>t. fs_lstat (nodes s) (backup_path p) \<noteq> Inr (Sym t)"
    and "configure cd rt p s = (None, s')"
  shows "\<exists>s''. revert cd rt p s' = (None, s'') \<and> fs_read_file (nodes s'') p = Inr c
    \<and> fs_stat (nodes s'') (backup_path p) = Inl ENOENT"
proof -
  obtain n1 n2 new where w: "write_text (backup_path p) c (nodes s) = Some n1" "extends n1 n2"
    "write_text p new n2 = Some (nodes s')" "faults s' = []"
    using configure_shape [OF assms(7,1,3,4,5)] .
  have t: "text_of (nodes s) p = Some c" using assms(4) by (simp add: text_of_Some)
  note b = conf.backup_kept [OF t assms(5) w(1-3)]
  obtain n4 where n4: "write_text p c (nodes s') = Some n4" "text_of n4 p = Some c"
    "place_of n4 (backup_path p) \<noteq> place_of n4 p"
    using conf.restore [OF b(2,3,4)] by blast
  obtain k m where k: "resolve n1 False (backup_path p) = Inr k" "resolve n1 True (backup_path p) = Inr k"
    "node_at n1 k = Some (Reg c m)" using write_text_place [OF w(1) assms(6)] by blast
  then have k2: "resolve n2 False (backup_path p) = Inr k" "resolve n2 True (backup_path p) = Inr k"
    "node_at n2 k = Some (Reg c m)"
    using resolve_extends [OF w(2)] w(2) by (auto simp: extendsD)
  have "place_of n2 (backup_path p) \<noteq> place_of n2 p" using b(3) conf.wr_place [OF w(3)] by simp
  from write_text_keeps [OF w(3) this k2] write_text_keeps [OF n4(1) b(3)]
  have k4: "resolve n4 False (backup_path p) = Inr k" "resolve n4 True (backup_path p) = Inr k"
    "node_at n4 k = Some (Reg c m)" by blast+
  have "resolve n4 True p \<noteq> Inr k" using n4(3) k4(2) by (auto simp: place_of_def split: sum.splits)
  from remove_own [OF k4 this] n4(2) obtain n5
    where n5: "fs_remove (backup_path p) n4 = (Inr (), n5)" "fs_read_file n5 p = Inr c" "fs_stat n5 (backup_path p) = Inl ENOENT"
    by (auto simp: text_of_Some)
  from restore_backup_calm [OF w(4) _ n4(1) n5(1)] b(2) obtain s''
    where "restore_backup p s' = (None, s'')" "nodes s'' = n5" by (auto simp: text_of_Some)
  with n5 revert_with_backup [OF assms(1,2) w(4)] b(2) show ?thesis by (auto simp: text_of_Some)
qed

definition demo_config_os :: os where
  "demo_config_os = \<lparr> nodes = [([''etc''], Dir), ([''etc'', ''daemon.json''], Reg ''{}'' 0x1A4)], faults = [], history = [] \<rparr>"

lemma demo_docker_reconfigure: "\<exists>s'. configure demo_codecs RuntimeDocker ''/etc/daemon.json'' demo_config_os = (None, s')"
proof -
  have "fst (configure demo_codecs RuntimeDocker ''/etc/daemon.json'' demo_config_os) = None" by code_simp
  then show ?thesis by (metis prod.collapse)
qed

theorem revert_restores_witness:
  "\<exists>s' s''. configure demo_codecs RuntimeDocker ''/etc/daemon.json'' demo_config_os = (None, s')
     \<and> revert demo_codecs RuntimeDocker ''/etc/daemon.json'' s' = (None, s'')
     \<and> fs_read_file (nodes s'') ''/etc/daemon.json'' = Inr ''{}''"
proof -
  have "faults demo_config_os = []" by code_simp
  moreover have "fs_read_file (nodes demo_config_os) ''/etc/daemon.json'' = Inr ''{}''" by code_simp
  moreover have "place_of (nodes demo_config_os) (backup_path ''/etc/daemon.json'')
      \<noteq> place_of (nodes demo_config_os) ''/etc/daemon.json''" by code_simp
  moreover have "fs_lstat (nodes demo_config_os) (backup_path ''/etc/daemon.json'') = Inl ENOENT" by code_simp
  ultimately show ?thesis
    using demo_docker_reconfigure revert_restores [of RuntimeDocker "''/etc/daemon.json''" demo_config_os "''{}''" demo_codecs]
    by fastforce
qed

subsection \<open>What configuring Docker leaves of the file\<close>

lemma same_table_refl_update:
  assumes "same_table (AList.update k v t) u" "j \<noteq> k"
  shows "rel_option same_val (map_of t j) (map_of u j)"
  using same_table_option [OF assms(1), of j] assms(2) by (simp add: update_conv')

lemma docker_enabled_features:
  assumes "docker_enable_cdi (Some t) = Some u" "get_tab t ''features'' = Some f" "k \<noteq> ''cdi''"
  obtains f' where "get_tab u ''features'' = Some f'" "map_of f' k = map_of f k"
  using assms by (auto simp: docker_enable_cdi_def update_conv')

lemma docker_text:
  assumes "configure cd RuntimeDocker p s = (None, s')" "faults s = []" "fs_read_file (nodes s) p = Inr c"
    and "place_of (nodes s) (backup_path p) \<noteq> place_of (nodes s) p"
  obtains d t c' where "parse_docker_config cd c = Some d" "docker_enable_cdi d = Some t" "json_encode cd t = Some c'"
    "fs_read_file (nodes s') p = Inr c'"
proof -
  from assms(1) obtain s1 s2 content d t c' where b: "backup_file p s = (Inr (), s1)" "read_or_empty p s1 = (Inr content, s2)"
    and d: "parse_docker_config cd content = Some d" "docker_enable_cdi d = Some t" "json_encode cd t = Some c'"
    and w: "write_config p c' s2 = (None, s')"
    by (auto simp: configure_def elim: docker_configure_None)
  from backup_file_calm [OF b(1) assms(2,3)] have k: "write_text (backup_path p) c (nodes s) = Some (nodes s1)" "faults s1 = []"
    by auto
  have "text_of (nodes s1) p = Some c" using conf.wr_frame [OF k(1)] assms(3,4) by (metis text_of_Some)
  then have "content = c" using read_or_empty_calm [OF k(2)] b(2) by (simp add: text_of_Some)
  with d write_config_reads [OF w] that show thesis by blast
qed

text \<open>
  C28: Configuring Docker keeps what the operator wrote, from text to text: when the file held the JSON
  document \<open>t\<close>, the file it leaves is JSON again, in it every setting but \<open>features\<close> has its value, so
  has every feature but \<open>cdi\<close>, which is on. Only the order of keys, white space and escapes may differ.
\<close>

theorem docker_text_preserved:
  assumes "codecs_ok cd" "configure cd RuntimeDocker p s = (None, s')" "faults s = []"
    and "fs_read_file (nodes s) p = Inr c" "c \<noteq> []" "json_decode cd c = Some (Some t)"
    and "place_of (nodes s) (backup_path p) \<noteq> place_of (nodes s) p"
  shows "\<exists>c' u. fs_read_file (nodes s') p = Inr c' \<and> json_decode cd c' = Some (Some u) \<and> docker_cdi_feature (Some u) = Some True
    \<and> (\<forall>k. k \<noteq> ''features'' \<longrightarrow> rel_option same_val (map_of t k) (map_of u k))
    \<and> (\<forall>f k. get_tab t ''features'' = Some f \<longrightarrow> k \<noteq> ''cdi'' \<longrightarrow>
         (\<exists>f'. get_tab u ''features'' = Some f' \<and> rel_option same_val (map_of f k) (map_of f' k)))"
proof -
  obtain d e c' where "parse_docker_config cd c = Some d" and de: "docker_enable_cdi d = Some e" "json_encode cd e = Some c'"
    and c': "fs_read_file (nodes s') p = Inr c'" by (rule docker_text [OF assms(2,3,4,7)])
  then have e: "docker_enable_cdi (Some t) = Some e" "json_encode cd e = Some c'"
    using assms(5,6) by (simp_all add: parse_docker_config_def)
  from json_round_trip [OF docker_enable_typed [OF json_decode_typed [OF assms(1,6)] e(1)] e(2)] obtain u where
    u: "json_decode cd c' = Some (Some u)" "same_table e u" .
  have other: "rel_option same_val (map_of t k) (map_of u k)" if "k \<noteq> ''features''" for k
    using e(1) u(2) that by (auto simp: docker_enable_cdi_def intro: same_table_refl_update)
  have features: "\<exists>f'. get_tab u ''features'' = Some f' \<and> rel_option same_val (map_of f k) (map_of f' k)"
    if f: "get_tab t ''features'' = Some f" "k \<noteq> ''cdi''" for f k
  proof -
    from docker_enabled_features [OF e(1) f] obtain g where g: "get_tab e ''features'' = Some g" "map_of g k = map_of f k" .
    with same_get_tab [OF u(2), of "''features''"] obtain h where "get_tab u ''features'' = Some h" "same_table g h"
      by (auto simp: rel_option_iff split: option.splits)
    with g(2) show ?thesis using same_table_option by metis
  qed
  have "docker_cdi_feature (Some u) = Some True" using same_docker_feature [OF u(2)] docker_enable_ready [OF e(1)] by simp
  with c' u(1) other features show ?thesis by blast
qed

definition demo_daemon_text :: string where
  "demo_daemon_text = json_text None (VTab [(''dns'', VArr [VStr ''1.1.1.1'']), (''features'', VTab [(''buildkit'', VBool True)])])"

definition demo_docker_os :: os where
  "demo_docker_os = \<lparr> nodes = [([''etc''], Dir), ([''etc'', ''daemon.json''], Reg demo_daemon_text 0x1A4)], faults = [], history = [] \<rparr>"

theorem docker_text_preserved_witness:
  "\<exists>s' c' u. configure demo_codecs RuntimeDocker ''/etc/daemon.json'' demo_docker_os = (None, s')
     \<and> fs_read_file (nodes s') ''/etc/daemon.json'' = Inr c' \<and> json_decode demo_codecs c' = Some (Some u)
     \<and> get_strings u ''dns'' = Some [''1.1.1.1''] \<and> docker_cdi_feature (Some u) = Some True"
proof -
  have "fst (configure demo_codecs RuntimeDocker ''/etc/daemon.json'' demo_docker_os) = None" by code_simp
  then obtain s' where s': "configure demo_codecs RuntimeDocker ''/etc/daemon.json'' demo_docker_os = (None, s')"
    by (metis prod.collapse)
  have t: "fs_read_file (nodes demo_docker_os) ''/etc/daemon.json'' = Inr demo_daemon_text" "demo_daemon_text \<noteq> []" by code_simp+
  have d: "json_decode demo_codecs demo_daemon_text
      = Some (Some [(''dns'', VArr [VStr ''1.1.1.1'']), (''features'', VTab [(''buildkit'', VBool True)])])" by code_simp
  have p: "place_of (nodes demo_docker_os) (backup_path ''/etc/daemon.json'') \<noteq> place_of (nodes demo_docker_os) ''/etc/daemon.json''"
    by code_simp
  have "faults demo_docker_os = []" by (simp add: demo_docker_os_def)
  from docker_text_preserved [OF demo_codecs_ok s' this t d p] obtain c' u where
    u: "fs_read_file (nodes s') ''/etc/daemon.json'' = Inr c'" "json_decode demo_codecs c' = Some (Some u)"
      "docker_cdi_feature (Some u) = Some True"
    and all: "\<forall>k. k \<noteq> ''features'' \<longrightarrow> rel_option same_val
      (map_of [(''dns'', VArr [VStr ''1.1.1.1'']), (''features'', VTab [(''buildkit'', VBool True)])] k) (map_of u k)" by blast
  from all [rule_format, of "''dns''"] have k: "rel_option same_val (Some (VArr [VStr ''1.1.1.1''])) (map_of u ''dns'')" by simp
  from k have "get_strings u ''dns'' = Some [''1.1.1.1'']"
    by (auto simp: get_strings_def the_strings_def list_all2_Cons1 option_rel_Some1)
  with s' u show ?thesis by blast
qed

text \<open>
  What reverting does not do: a second \<open>Configure\<close> saves the file the first one wrote over the
  original backup, so reverting afterwards gives the configured file; and without a backup the lines
  of a directory list that spans several lines stay behind.
\<close>

lemma second_configure_loses_original:
  "(case configure demo_codecs RuntimeDocker ''/etc/daemon.json'' demo_config_os of (_, s1) \<Rightarrow>
     case configure demo_codecs RuntimeDocker ''/etc/daemon.json'' s1 of (r2, s2) \<Rightarrow>
     case revert demo_codecs RuntimeDocker ''/etc/daemon.json'' s2 of (r3, s3) \<Rightarrow>
       (r2, r3, fs_read_file (nodes s3) ''/etc/daemon.json'')) = (None, None, Inr (json_marshal_indent [(''features'', VTab [(''cdi'', VBool True)])]))"
  by code_simp

lemma disable_leaves_list:
  "disable_cdi_in_containerd_config (''  cdi_spec_dirs = ['' @ [newline] @ ''    /etc/cdi'' @ [newline] @ ''  ]'')
     = ''    /etc/cdi'' @ [newline] @ ''  ]''"
  by code_simp

lemma docker_null_panics: "docker_enable_cdi None = None" "json_decode cd content = Some None \<Longrightarrow> content \<noteq> [] \<Longrightarrow>
    (case parse_docker_config cd content of Some c \<Rightarrow> docker_enable_cdi c = None | None \<Rightarrow> False)"
  by (simp_all add: docker_enable_cdi_def parse_docker_config_def)

subsection \<open>CRI-O\<close>

lemma effective_append:
  "crio_effective_spec_dirs cd fs (xs @ [f]) =
     (case crio_file_dirs cd fs f of Some d \<Rightarrow> Some d | None \<Rightarrow> crio_effective_spec_dirs cd fs xs)"
  by (cases "crio_file_dirs cd fs f") (simp_all add: crio_effective_spec_dirs_def)

lemma effective_skip:
  "list_all (\<lambda>f. crio_file_dirs cd fs f = None) ys \<Longrightarrow>
   crio_effective_spec_dirs cd fs (xs @ ys) = crio_effective_spec_dirs cd fs xs"
proof (induction ys rule: rev_induct)
  case (snoc y ys)
  then show ?case using effective_append [of cd fs "xs @ ys" y] by simp
qed simp

text \<open>The last file that sets the directories decides.\<close>

lemma effective_last:
  assumes "crio_file_dirs cd fs f = Some d" "list_all (\<lambda>f. crio_file_dirs cd fs f = None) ys"
  shows "crio_effective_spec_dirs cd fs (xs @ f # ys) = Some d"
  using effective_skip [OF assms(2), of "xs @ [f]"] assms(1) by (simp add: effective_append)


definition demo_crio_codecs :: codecs where
  "demo_crio_codecs = demo_codecs\<lparr> toml_decode := \<lambda>x. if x = crio_generate_config
     then Some [(''crio'', VTab [(''runtime'', VTab [(''cdi_spec_dirs'', VArr [VStr ''/etc/cdi'', VStr ''/var/run/cdi''])])])]
     else None \<rparr>"

definition demo_crio_os :: os where
  "demo_crio_os = \<lparr> nodes = [([''etc''], Dir), ([''etc'', ''crio''], Dir), ([''etc'', ''crio'', ''crio.conf.d''], Dir)],
     faults = [], history = [] \<rparr>"

definition demo_drop_in :: string where "demo_drop_in = ''/etc/crio/crio.conf.d/99-rbln.conf''"


end
