(* ===== verification/Daemon_State.thy ===== *)
theory Daemon_State imports Errors begin

text \<open>
  The parts of the daemon without concurrency: its life-cycle states
  (\<open>internal/daemon/state.go\<close>), its configuration (\<open>config.go\<close>) and the health server's state and
  handlers (\<open>health.go\<close>). The order on states is the order in time: a daemon can be in the greater
  one after it was in the smaller one.
\<close>

subsection \<open>Life-cycle states\<close>

text \<open>\<open>State\<close> is an integer in the source; \<open>OtherState\<close> are the values without a name.\<close>

datatype daemon_state = StateStarting | StateRunning | StateShuttingDown | StateStopped | StateFailed | OtherState int

fun state_name :: "daemon_state \<Rightarrow> string" where
  "state_name StateStarting = ''starting''"
| "state_name StateRunning = ''running''"
| "state_name StateShuttingDown = ''shutting_down''"
| "state_name StateStopped = ''stopped''"
| "state_name StateFailed = ''failed''"
| "state_name (OtherState n) = ''unknown('' @ show_int n @ '')''"

fun valid_transitions :: "daemon_state \<Rightarrow> daemon_state list" where
  "valid_transitions StateStarting = [StateRunning, StateFailed]"
| "valid_transitions StateRunning = [StateShuttingDown]"
| "valid_transitions StateShuttingDown = [StateStopped]"
| "valid_transitions StateFailed = [StateStopped]"
| "valid_transitions StateStopped = []"
| "valid_transitions (OtherState _) = []"

definition can_transition_to :: "daemon_state \<Rightarrow> daemon_state \<Rightarrow> bool" where
  "can_transition_to s t \<longleftrightarrow> list_ex (\<lambda>x. x = t) (valid_transitions s)"

definition is_terminal :: "daemon_state \<Rightarrow> bool" where
  "is_terminal s \<longleftrightarrow> s = StateStopped"

record state_machine =
  current :: daemon_state

definition new_state_machine :: state_machine where
  "new_state_machine = \<lparr> current = StateStarting \<rparr>"

definition transition_to :: "state_machine \<Rightarrow> daemon_state \<Rightarrow> gerr option \<times> state_machine" where
  "transition_to sm t =
     (if \<not> can_transition_to (current sm) t
      then (Some (Msg (''invalid state transition: '' @ state_name (current sm) @ '' -> '' @ state_name t)), sm)
      else (None, sm\<lparr> current := t \<rparr>))"

lemma can_transition_simps [simp]:
  "can_transition_to StateStarting t \<longleftrightarrow> t = StateRunning \<or> t = StateFailed"
  "can_transition_to StateRunning t \<longleftrightarrow> t = StateShuttingDown"
  "can_transition_to StateShuttingDown t \<longleftrightarrow> t = StateStopped"
  "can_transition_to StateFailed t \<longleftrightarrow> t = StateStopped"
  "\<not> can_transition_to StateStopped t"
  "\<not> can_transition_to (OtherState n) t"
  by (auto simp: can_transition_to_def)

text \<open>The states that may follow, at once or later.\<close>

fun later_states :: "daemon_state \<Rightarrow> daemon_state list" where
  "later_states StateStarting = [StateRunning, StateFailed, StateShuttingDown, StateStopped]"
| "later_states StateRunning = [StateShuttingDown, StateStopped]"
| "later_states StateShuttingDown = [StateStopped]"
| "later_states StateFailed = [StateStopped]"
| "later_states _ = []"

lemma later_states_trancl: "t \<in> set (later_states s) \<longleftrightarrow> can_transition_to\<^sup>+\<^sup>+ s t"
proof
  have "can_transition_to\<^sup>+\<^sup>+ StateRunning StateStopped"
    by (rule tranclp.trancl_into_trancl [of _ _ StateShuttingDown]) (auto intro: tranclp.r_into_trancl)
  moreover have "can_transition_to\<^sup>+\<^sup>+ StateStarting StateShuttingDown"
    by (rule tranclp.trancl_into_trancl [of _ _ StateRunning]) (auto intro: tranclp.r_into_trancl)
  moreover from this have "can_transition_to\<^sup>+\<^sup>+ StateStarting StateStopped"
    by (rule tranclp.trancl_into_trancl) simp
  ultimately show "t \<in> set (later_states s) \<Longrightarrow> can_transition_to\<^sup>+\<^sup>+ s t"
    by (cases s) auto
  show "can_transition_to\<^sup>+\<^sup>+ s t \<Longrightarrow> t \<in> set (later_states s)"
  proof (induction rule: tranclp_induct)
    case (base y)
    then show ?case by (cases s) auto
  next
    case (step y z)
    then show ?case by (cases s) auto
  qed
qed

instantiation daemon_state :: order
begin

definition less_eq_daemon_state :: "daemon_state \<Rightarrow> daemon_state \<Rightarrow> bool" where
  "less_eq_daemon_state s t \<longleftrightarrow> s = t \<or> t \<in> set (later_states s)"

definition less_daemon_state :: "daemon_state \<Rightarrow> daemon_state \<Rightarrow> bool" where
  "less_daemon_state s t \<longleftrightarrow> t \<in> set (later_states s)"

instance
proof
  fix x y z :: daemon_state
  show "x < y \<longleftrightarrow> x \<le> y \<and> \<not> y \<le> x"
    by (cases x; cases y) (auto simp: less_eq_daemon_state_def less_daemon_state_def)
  show "x \<le> x" by (simp add: less_eq_daemon_state_def)
  show "x \<le> y \<Longrightarrow> y \<le> z \<Longrightarrow> x \<le> z"
    by (cases x) (auto simp: less_eq_daemon_state_def)
  show "x \<le> y \<Longrightarrow> y \<le> x \<Longrightarrow> x = y"
    by (cases x) (auto simp: less_eq_daemon_state_def)
qed

end

lemma transition_less: "can_transition_to s t \<Longrightarrow> s < t"
  by (cases s) (auto simp: less_daemon_state_def)

lemma terminal_iff_no_transition: "is_terminal s \<or> (\<exists>n. s = OtherState n) \<longleftrightarrow> valid_transitions s = []"
  by (cases s) (auto simp: is_terminal_def)

subsection \<open>Configuration\<close>

record daemon_config =
  dcfg_runtime :: string
  dcfg_shutdown_timeout :: int
  dcfg_pid_file :: string
  dcfg_health_port :: int
  dcfg_no_cleanup_on_exit :: bool
  dcfg_host_root_mount :: string
  dcfg_driver_root :: string
  dcfg_cdi_spec_dir :: string
  dcfg_container_library_path :: string
  dcfg_socket :: string
  dcfg_debug :: bool
  dcfg_force :: bool
  dcfg_refresh_interval :: int

text \<open>\<open>time.Duration\<close> counts nanoseconds.\<close>

definition second :: int where "second = 1000000000"

definition new_daemon_config :: daemon_config where
  "new_daemon_config = \<lparr> dcfg_runtime = [], dcfg_shutdown_timeout = 30 * second,
     dcfg_pid_file = ''/run/rbln/toolkit.pid'', dcfg_health_port = 8080, dcfg_no_cleanup_on_exit = False,
     dcfg_host_root_mount = ''/host'', dcfg_driver_root = ''/'', dcfg_cdi_spec_dir = ''/var/run/cdi'',
     dcfg_container_library_path = [], dcfg_socket = [], dcfg_debug = False, dcfg_force = False,
     dcfg_refresh_interval = 60 * second \<rparr>"

definition runtime_socket_path :: "string \<Rightarrow> string" where
  "runtime_socket_path r =
     (if r = ''containerd'' then ''/run/containerd/containerd.sock''
      else if r = ''crio'' then ''/var/run/crio/crio.sock''
      else if r = ''docker'' then ''/var/run/docker.sock'' else [])"

definition runtime_is_valid :: "string \<Rightarrow> bool" where
  "runtime_is_valid r \<longleftrightarrow> r \<in> {''containerd'', ''crio'', ''docker'', []}"

definition validate_config :: "daemon_config \<Rightarrow> gerr option" where
  "validate_config c =
     (if dcfg_shutdown_timeout c \<le> 0 then Some (Msg ''shutdown timeout must be greater than 0'')
      else if dcfg_shutdown_timeout c > 300 * second then Some (Msg ''shutdown timeout must be <= 300s'')
      else if dcfg_health_port c < 1 \<or> dcfg_health_port c > 65535 then Some (Msg ''health port must be between 1 and 65535'')
      else if \<not> runtime_is_valid (dcfg_runtime c) then Some (Msg (''invalid runtime: '' @ dcfg_runtime c))
      else if dcfg_pid_file c = [] then Some (Msg ''pid file path is required'')
      else if dcfg_refresh_interval c < 0 then Some (Msg ''refresh interval must be >= 0 (0 disables the watcher)'')
      else None)"

lemma new_daemon_config_valid: "validate_config new_daemon_config = None"
  by (simp add: validate_config_def new_daemon_config_def second_def runtime_is_valid_def)

subsection \<open>Health\<close>

record check_result =
  chk_status :: string
  chk_message :: string

record health_server =
  hs_started :: bool
  hs_ready :: bool
  hs_checks :: "(string \<times> check_result) list"

definition new_health_server :: health_server where
  "new_health_server = \<lparr> hs_started = False, hs_ready = False, hs_checks = [] \<rparr>"

definition set_started :: "bool \<Rightarrow> health_server \<Rightarrow> health_server" where
  "set_started b hs = hs\<lparr> hs_started := b \<rparr>"

definition set_ready :: "bool \<Rightarrow> health_server \<Rightarrow> health_server" where
  "set_ready b hs = hs\<lparr> hs_ready := b \<rparr>"

definition add_check :: "string \<Rightarrow> check_result \<Rightarrow> health_server \<Rightarrow> health_server" where
  "add_check n r hs = hs\<lparr> hs_checks := AList.update n r (hs_checks hs) \<rparr>"

definition remove_check :: "string \<Rightarrow> health_server \<Rightarrow> health_server" where
  "remove_check n hs = hs\<lparr> hs_checks := AList.delete n (hs_checks hs) \<rparr>"

text \<open>A response with its HTTP status code; the time stamp is not kept.\<close>

record health_response =
  resp_status :: string
  resp_reason :: string
  resp_checks :: "(string \<times> check_result) list"

definition live_handler :: "health_server \<Rightarrow> nat \<times> health_response" where
  "live_handler hs = (200, \<lparr> resp_status = ''alive'', resp_reason = [], resp_checks = [] \<rparr>)"

definition ready_handler :: "health_server \<Rightarrow> nat \<times> health_response" where
  "ready_handler hs =
     (if hs_ready hs then (200, \<lparr> resp_status = ''ready'', resp_reason = [], resp_checks = hs_checks hs \<rparr>)
      else (503, \<lparr> resp_status = ''not_ready'', resp_reason = ''Setup in progress'', resp_checks = hs_checks hs \<rparr>))"

definition startup_handler :: "health_server \<Rightarrow> nat \<times> health_response" where
  "startup_handler hs =
     (if hs_started hs then (200, \<lparr> resp_status = ''started'', resp_reason = [], resp_checks = [] \<rparr>)
      else (503, \<lparr> resp_status = ''starting'', resp_reason = ''Initialization in progress'', resp_checks = [] \<rparr>))"

lemmas health_defs = set_started_def set_ready_def add_check_def remove_check_def new_health_server_def

end
