(* ===== verification/Watcher.thy ===== *)
theory Watcher imports Daemon_State begin

text \<open>
  The watcher of the daemon (\<open>internal/daemon/watcher.go\<close>): it takes a snapshot of the driver
  libraries' fingerprints at every tick and calls back when it differs from the one before. Snapshots
  are Go maps, here association lists of which only the content counts. What the environment
  supplies to a tick (the probe's result, the callback, whether the context is cancelled after
  the probe) is the record \<open>tick_env\<close>.
\<close>

type_synonym snapshot = "(string \<times> string) list"

definition snap_ok :: "snapshot \<Rightarrow> bool" where
  "snap_ok m \<longleftrightarrow> distinct (map fst m)"

text \<open>A Go map read of a missing key gives the zero value.\<close>

definition snap_get :: "snapshot \<Rightarrow> string \<Rightarrow> string" where
  "snap_get m k = (case map_of m k of None \<Rightarrow> [] | Some v \<Rightarrow> v)"

definition versions_differ :: "snapshot \<Rightarrow> snapshot \<Rightarrow> bool" where
  "versions_differ a b \<longleftrightarrow> length a \<noteq> length b \<or> list_ex (\<lambda>(k, v). snap_get b k \<noteq> v) a"

definition format_versions :: "snapshot \<Rightarrow> string" where
  "format_versions m =
     (if m = [] then ''<none>''
      else join_strs '', '' (map (\<lambda>k. k @ ''='' @ snap_get m k) (sort (map fst m))))"

record trigger =
  trig_versions :: snapshot
  trig_prev :: snapshot
  trig_errors :: "(string \<times> gerr) list"

record watcher_status =
  st_last_run :: "string option"
  st_versions :: snapshot
  st_last_err :: "string option"

text \<open>The error of the last callback is kept by its text; \<open>w_last_run\<close> is the formatted time.\<close>

record watcher =
  w_last :: snapshot
  w_last_run :: "string option"
  w_last_err :: "string option"

record watcher_options =
  wo_interval :: int
  wo_probe :: bool
  wo_on_change :: bool

definition new_watcher :: "watcher_options \<Rightarrow> watcher option" where
  "new_watcher o1 = (if wo_interval o1 \<le> 0 \<or> \<not> wo_probe o1 then None
     else Some \<lparr> w_last = [], w_last_run = None, w_last_err = None \<rparr>)"

record tick_env =
  te_versions :: snapshot
  te_errors :: "(string \<times> gerr) list"
  te_now :: string
  te_cancelled :: bool
  te_on_change :: "trigger \<Rightarrow> string option"

definition watcher_status_of :: "watcher \<Rightarrow> watcher_status" where
  "watcher_status_of w = \<lparr> st_last_run = w_last_run w, st_versions = w_last w, st_last_err = w_last_err w \<rparr>"

text \<open>What the outside sees of a step: the callback with its answer, and the published status.\<close>

datatype watcher_event = Fired trigger "string option" | Published watcher_status

definition watcher_baseline :: "tick_env \<Rightarrow> watcher \<Rightarrow> watcher \<times> watcher_event list" where
  "watcher_baseline e w =
     (let w' = w\<lparr> w_last := te_versions e, w_last_run := Some (te_now e) \<rparr>
      in (w', [Published (watcher_status_of w')]))"

definition watcher_tick :: "bool \<Rightarrow> tick_env \<Rightarrow> watcher \<Rightarrow> watcher \<times> watcher_event list" where
  "watcher_tick has_callback e w =
     (let snap = te_versions e;
          prev = w_last w;
          w1 = w\<lparr> w_last := snap, w_last_run := Some (te_now e) \<rparr>
      in if te_cancelled e then (w1, [])
         else if \<not> versions_differ prev snap then (w1, [Published (watcher_status_of w1)])
         else if \<not> has_callback then (w1, [Published (watcher_status_of w1)])
         else let t = \<lparr> trig_versions = snap, trig_prev = prev, trig_errors = te_errors e \<rparr>;
                  err = te_on_change e t;
                  w2 = (case err of None \<Rightarrow> w1\<lparr> w_last_err := None \<rparr>
                        | Some x \<Rightarrow> w1\<lparr> w_last_err := Some x, w_last := prev \<rparr>)
              in (w2, [Fired t err, Published (watcher_status_of w2)]))"

text \<open>
  \<open>Run\<close>: nothing under a cancelled context, else the baseline and then one tick per entry, until
  the context is found cancelled: after the probe of a tick, or by the loop before the next one.
\<close>

fun watcher_ticks :: "bool \<Rightarrow> tick_env list \<Rightarrow> watcher \<Rightarrow> watcher \<times> watcher_event list" where
  "watcher_ticks cb [] w = (w, [])"
| "watcher_ticks cb (e # es) w =
     (case watcher_tick cb e w of (w1, ev1) \<Rightarrow>
        if te_cancelled e then (w1, ev1)
        else case watcher_ticks cb es w1 of (w2, ev2) \<Rightarrow> (w2, ev1 @ ev2))"

definition watcher_run :: "bool \<Rightarrow> bool \<Rightarrow> tick_env \<Rightarrow> tick_env list \<Rightarrow> watcher \<Rightarrow> watcher \<times> watcher_event list" where
  "watcher_run cancelled cb e0 es w =
     (if cancelled then (w, [])
      else case watcher_baseline e0 w of (w1, ev1) \<Rightarrow>
        if te_cancelled e0 then (w1, ev1)
        else case watcher_ticks cb es w1 of (w2, ev2) \<Rightarrow> (w2, ev1 @ ev2))"

text \<open>The health check the daemon derives from a status (\<open>watcherCheck\<close> of \<open>daemon.go\<close>).\<close>

definition watcher_check :: "watcher_status \<Rightarrow> check_result" where
  "watcher_check s =
     (let last_run = (case st_last_run s of None \<Rightarrow> ''never'' | Some t \<Rightarrow> t);
          msg = ''last_run='' @ last_run @ '' libraries='' @ show_nat (length (st_versions s))
      in case st_last_err s of
           None \<Rightarrow> \<lparr> chk_status = ''ok'', chk_message = msg \<rparr>
         | Some e \<Rightarrow> \<lparr> chk_status = ''error'', chk_message = msg @ '' error='' @ e \<rparr>)"

definition publish_watcher_status :: "watcher_status \<Rightarrow> health_server \<Rightarrow> health_server" where
  "publish_watcher_status s = add_check ''cdi-refresh'' (watcher_check s)"

subsection \<open>The comparison\<close>

lemma snap_get_Some: "snap_ok m \<Longrightarrow> (k, v) \<in> set m \<Longrightarrow> snap_get m k = v"
  by (simp add: snap_get_def snap_ok_def)

lemma same_keys_of_same_length:
  assumes "snap_ok a" "snap_ok b" "length a = length b" "fst ` set a \<subseteq> fst ` set b"
  shows "fst ` set a = fst ` set b"
proof -
  have "card (fst ` set a) = length a" "card (fst ` set b) = length b"
    using assms(1,2) distinct_card by (force simp: snap_ok_def)+
  then show ?thesis using assms(3,4) by (intro card_subset_eq) simp_all
qed

text \<open>
  The comparison of snapshots, a length test and one loop over the first of them, is inequality
  of the two maps, as long as no fingerprint is the empty string (an empty one would pass for a
  missing library).
\<close>

theorem versions_differ_exact:
  assumes "snap_ok a" "snap_ok b" "list_all (\<lambda>(k, v). v \<noteq> []) a"
  shows "versions_differ a b \<longleftrightarrow> map_of a \<noteq> map_of b"
proof
  assume "versions_differ a b"
  then show "map_of a \<noteq> map_of b"
  proof (rule contrapos_pn)
    assume eq: "map_of a = map_of b"
    then have "fst ` set a = fst ` set b" using dom_map_of_conv_image_fst by metis
    then have "length a = length b"
      using assms(1,2) distinct_card [of "map fst a"] distinct_card [of "map fst b"] by (simp add: snap_ok_def)
    moreover have "snap_get b k = v" if "(k, v) \<in> set a" for k v
      using snap_get_Some [OF assms(1) that] eq by (simp add: snap_get_def)
    ultimately show "\<not> versions_differ a b" by (auto simp: versions_differ_def list_ex_iff)
  qed
next
  assume neq: "map_of a \<noteq> map_of b"
  show "versions_differ a b"
  proof (rule ccontr)
    assume "\<not> versions_differ a b"
    then have len: "length a = length b" and get: "\<And>k v. (k, v) \<in> set a \<Longrightarrow> snap_get b k = v"
      by (auto simp: versions_differ_def list_ex_iff)
    have some: "map_of b k = Some v" if "(k, v) \<in> set a" for k v
      using get [OF that] that assms(3) by (auto simp: snap_get_def list_all_iff split: option.splits)
    then have "fst ` set a \<subseteq> fst ` set b" by (force dest: map_of_SomeD)
    then have keys: "fst ` set a = fst ` set b" using same_keys_of_same_length assms(1,2) len by blast
    have "map_of a = map_of b"
    proof
      fix k
      show "map_of a k = map_of b k"
      proof (cases "map_of a k")
        case None
        then show ?thesis using keys by (metis map_of_eq_None_iff)
      next
        case (Some v)
        then show ?thesis using some by (metis map_of_SomeD)
      qed
    qed
    with neq show False by simp
  qed
qed

theorem versions_differ_exact_witness:
  "versions_differ [(''a'', ''1''), (''b'', ''2'')] [(''b'', ''2''), (''a'', ''3'')]
   \<and> \<not> versions_differ [(''a'', ''1''), (''b'', ''2'')] [(''b'', ''2''), (''a'', ''1'')]"
  using versions_differ_exact [of "[(''a'', ''1''), (''b'', ''2'')]" "[(''b'', ''2''), (''a'', ''3'')]"]
    versions_differ_exact [of "[(''a'', ''1''), (''b'', ''2'')]" "[(''b'', ''2''), (''a'', ''1'')]"]
  by (auto simp: snap_ok_def fun_eq_iff)

subsection \<open>What the watcher promises\<close>

text \<open>
  Abstractly the watcher keeps one snapshot, the one the specification on disk was last generated
  for, and every tick that sees another one asks for a regeneration, which moves it when it
  succeeds. This is the whole state: the roll-back of the code is what implements it.
\<close>

definition abs_tick :: "tick_env \<Rightarrow> snapshot \<Rightarrow> snapshot" where
  "abs_tick e acked =
     (if versions_differ acked (te_versions e) \<and>
         te_on_change e \<lparr> trig_versions = te_versions e, trig_prev = acked, trig_errors = te_errors e \<rparr> \<noteq> None
      then acked else te_versions e)"

lemma tick_refines: "\<not> te_cancelled e \<Longrightarrow> w_last (fst (watcher_tick True e w)) = abs_tick e (w_last w)"
  by (auto simp: watcher_tick_def abs_tick_def Let_def split: option.split)

lemma ticks_cons:
  "\<not> te_cancelled e \<Longrightarrow> fst (watcher_ticks cb (e # es) w) = fst (watcher_ticks cb es (fst (watcher_tick cb e w)))"
  "\<not> te_cancelled e \<Longrightarrow> snd (watcher_ticks cb (e # es) w) =
     snd (watcher_tick cb e w) @ snd (watcher_ticks cb es (fst (watcher_tick cb e w)))"
  by (simp_all split: prod.split)

lemma ticks_refine:
  "list_all (\<lambda>e. \<not> te_cancelled e) es \<Longrightarrow> w_last (fst (watcher_ticks True es w)) = foldl (\<lambda>a e. abs_tick e a) (w_last w) es"
  by (induction es arbitrary: w) (simp_all add: ticks_cons tick_refines del: watcher_ticks.simps(2))

lemma ticks_append:
  "list_all (\<lambda>e. \<not> te_cancelled e) es \<Longrightarrow>
     fst (watcher_ticks cb (es @ fs) w) = fst (watcher_ticks cb fs (fst (watcher_ticks cb es w)))
   \<and> snd (watcher_ticks cb (es @ fs) w) = snd (watcher_ticks cb es w) @ snd (watcher_ticks cb fs (fst (watcher_ticks cb es w)))"
  by (induction es arbitrary: w) (simp_all add: ticks_cons del: watcher_ticks.simps(2))

text \<open>The triggers of a run, in order.\<close>

definition fired :: "watcher_event list \<Rightarrow> (trigger \<times> string option) list" where
  "fired evs = concat (map (\<lambda>ev. case ev of Fired t r \<Rightarrow> [(t, r)] | Published _ \<Rightarrow> []) evs)"

lemma fired_simps [simp]:
  "fired [] = []" "fired (Fired t r # evs) = (t, r) # fired evs" "fired (Published st # evs) = fired evs"
  "fired (xs @ ys) = fired xs @ fired ys"
  by (simp_all add: fired_def)

lemma tick_fired:
  "fired (snd (watcher_tick cb e w)) =
     (if cb \<and> \<not> te_cancelled e \<and> versions_differ (w_last w) (te_versions e)
      then let t = \<lparr> trig_versions = te_versions e, trig_prev = w_last w, trig_errors = te_errors e \<rparr> in [(t, te_on_change e t)]
      else [])"
  by (simp add: watcher_tick_def Let_def)

lemma not_differ_refl: "snap_ok m \<Longrightarrow> \<not> versions_differ m m"
  by (auto simp: versions_differ_def list_ex_iff snap_get_Some)

text \<open>Once the probed snapshot is the one kept, ticks that see it again do nothing more.\<close>

lemma quiet_ticks:
  "\<lbrakk> snap_ok m; list_all (\<lambda>e. \<not> te_cancelled e \<and> te_versions e = m) es; w_last w = m \<rbrakk>
   \<Longrightarrow> fired (snd (watcher_ticks True es w)) = [] \<and> w_last (fst (watcher_ticks True es w)) = m"
proof (induction es arbitrary: w)
  case (Cons e es)
  then have "w_last (fst (watcher_tick True e w)) = m" "fired (snd (watcher_tick True e w)) = []"
    using not_differ_refl [of m] tick_refines [of e w] by (simp_all add: abs_tick_def tick_fired)
  then show ?case using Cons by (simp add: ticks_cons del: watcher_ticks.simps(2))
qed simp

text \<open>While every callback fails, every tick that sees the new snapshot fires again with the old baseline.\<close>

definition outcome :: "trigger \<times> string option \<Rightarrow> snapshot \<times> snapshot \<times> bool" where
  "outcome x = (trig_versions (fst x), trig_prev (fst x), snd x = None)"

lemma tick_outcome:
  "\<not> te_cancelled e \<Longrightarrow> versions_differ (w_last w) (te_versions e) \<Longrightarrow>
   \<exists>t. map outcome (fired (snd (watcher_tick True e w))) = [(te_versions e, w_last w, te_on_change e t = None)]
     \<and> w_last (fst (watcher_tick True e w)) = (if te_on_change e t = None then te_versions e else w_last w)"
  by (rule exI [of _ "\<lparr> trig_versions = te_versions e, trig_prev = w_last w, trig_errors = te_errors e \<rparr>"])
    (simp add: tick_fired tick_refines abs_tick_def Let_def outcome_def)

lemma retrying_ticks:
  "\<lbrakk> list_all (\<lambda>e. \<not> te_cancelled e \<and> te_versions e = m \<and> (\<forall>t. te_on_change e t \<noteq> None)) es;
     versions_differ (w_last w) m \<rbrakk>
   \<Longrightarrow> map outcome (fired (snd (watcher_ticks True es w))) = replicate (length es) (m, w_last w, False)
     \<and> w_last (fst (watcher_ticks True es w)) = w_last w"
proof (induction es arbitrary: w)
  case (Cons e es)
  then have e: "\<not> te_cancelled e" "te_versions e = m" "\<And>t. te_on_change e t \<noteq> None" by simp_all
  from tick_outcome [OF e(1), unfolded e(2), OF Cons.prems(2)]
  obtain t where "map outcome (fired (snd (watcher_tick True e w))) = [(m, w_last w, te_on_change e t = None)]"
    "w_last (fst (watcher_tick True e w)) = (if te_on_change e t = None then m else w_last w)"
    by (elim exE conjE)
  then have "map outcome (fired (snd (watcher_tick True e w))) = [(m, w_last w, False)]"
    "w_last (fst (watcher_tick True e w)) = w_last w"
    using e(3) by simp_all
  then show ?case using Cons e by (simp add: ticks_cons del: watcher_ticks.simps(2))
qed simp

text \<open>
  C21: No driver upgrade is lost and none is applied twice: after a change of the libraries the callback
  is called at every tick, with the new snapshot and the one the specification was generated for,
  until it succeeds for the first time, and not again while the libraries stay as they are;
  then the new snapshot is the kept one.
\<close>

theorem watcher_retries:
  assumes "list_all (\<lambda>e. \<not> te_cancelled e \<and> te_versions e = m \<and> (\<forall>t. te_on_change e t \<noteq> None)) failing"
    and "\<not> te_cancelled good" "te_versions good = m" "\<forall>t. te_on_change good t = None"
    and "list_all (\<lambda>e. \<not> te_cancelled e \<and> te_versions e = m) quiet"
    and "snap_ok m" "versions_differ (w_last w) m"
  shows "map outcome (fired (snd (watcher_ticks True (failing @ good # quiet) w)))
      = replicate (length failing) (m, w_last w, False) @ [(m, w_last w, True)]
    \<and> w_last (fst (watcher_ticks True (failing @ good # quiet) w)) = m"
proof -
  let ?w1 = "fst (watcher_ticks True failing w)" and ?w2 = "fst (watcher_tick True good (fst (watcher_ticks True failing w)))"
  have nc: "list_all (\<lambda>e. \<not> te_cancelled e) failing" using assms(1) by (simp add: list_all_iff)
  note 1 = retrying_ticks [OF assms(1,7)]
  have 2: "map outcome (fired (snd (watcher_tick True good ?w1))) = [(m, w_last w, True)]" "w_last ?w2 = m"
    using tick_outcome [OF assms(2), of ?w1] 1 assms(3,4,7) by auto
  note 3 = quiet_ticks [OF assms(6,5) 2(2)]
  show ?thesis
    using 1 2 3 assms(2) ticks_append [OF nc, of True "good # quiet" w]
    by (simp add: ticks_cons del: watcher_ticks.simps(2))
qed

definition demo_tick :: "bool \<Rightarrow> string \<Rightarrow> tick_env" where
  "demo_tick ok v = \<lparr> te_versions = [(''/usr/lib64/librbln-ml.so'', v)], te_errors = [], te_now = ''t'',
     te_cancelled = False, te_on_change = \<lambda>t. if ok then None else Some ''disk full'' \<rparr>"

theorem watcher_retries_witness:
  "length (fired (snd (watcher_ticks True ([demo_tick False ''2'', demo_tick False ''2''] @ demo_tick True ''2'' # [demo_tick True ''2''])
     \<lparr> w_last = [(''/usr/lib64/librbln-ml.so'', ''1'')], w_last_run = None, w_last_err = None \<rparr>))) = 3"
proof -
  let ?w = "\<lparr> w_last = [(''/usr/lib64/librbln-ml.so'', ''1'')], w_last_run = None, w_last_err = None \<rparr>"
  have "map outcome (fired (snd (watcher_ticks True ([demo_tick False ''2'', demo_tick False ''2''] @ demo_tick True ''2'' # [demo_tick True ''2'']) ?w)))
      = replicate (length [demo_tick False ''2'', demo_tick False ''2'']) ([(''/usr/lib64/librbln-ml.so'', ''2'')], w_last ?w, False)
        @ [([(''/usr/lib64/librbln-ml.so'', ''2'')], w_last ?w, True)]"
    by (rule watcher_retries [THEN conjunct1]) (simp_all add: demo_tick_def snap_ok_def versions_differ_def snap_get_def)
  from arg_cong [OF this, of length] show ?thesis by simp
qed

text \<open>
  C26: The watcher implements its contract: over any run of ticks without cancellation the kept snapshot
  is the one of the abstract watcher, which only a successful callback (or an unchanged content)
  moves; and the published health check of a tick says \<open>error\<close> exactly when the last callback so far
  failed.
\<close>

theorem watcher_refines:
  assumes "list_all (\<lambda>e. \<not> te_cancelled e) es"
  shows "w_last (fst (watcher_ticks True es w)) = foldl (\<lambda>a e. abs_tick e a) (w_last w) es
    \<and> (chk_status (watcher_check (watcher_status_of (fst (watcher_ticks True es w)))) = ''error'' \<longleftrightarrow>
        (case rev (fired (snd (watcher_ticks True es w))) of [] \<Rightarrow> w_last_err w \<noteq> None | (t, r) # _ \<Rightarrow> r \<noteq> None))"
proof
  show "w_last (fst (watcher_ticks True es w)) = foldl (\<lambda>a e. abs_tick e a) (w_last w) es"
    by (rule ticks_refine [OF assms])
  have err: "w_last_err (fst (watcher_ticks True es w)) =
      (case rev (fired (snd (watcher_ticks True es w))) of [] \<Rightarrow> w_last_err w | (t, r) # _ \<Rightarrow> r)" for w
    using assms
  proof (induction es arbitrary: w)
    case (Cons e es)
    have "w_last_err (fst (watcher_tick True e w)) =
        (case rev (fired (snd (watcher_tick True e w))) of [] \<Rightarrow> w_last_err w | (t, r) # _ \<Rightarrow> r)"
      using Cons.prems by (simp add: watcher_tick_def Let_def split: option.split)
    with Cons show ?case
      by (simp add: ticks_cons del: watcher_ticks.simps(2) split: list.split prod.split)
  qed simp
  show "chk_status (watcher_check (watcher_status_of (fst (watcher_ticks True es w)))) = ''error'' \<longleftrightarrow>
      (case rev (fired (snd (watcher_ticks True es w))) of [] \<Rightarrow> w_last_err w \<noteq> None | (t, r) # _ \<Rightarrow> r \<noteq> None)"
    using err [of w] by (simp add: watcher_check_def watcher_status_of_def Let_def split: option.split list.split prod.split)
qed

theorem watcher_refines_witness:
  "w_last (fst (watcher_ticks True [demo_tick False ''2''] \<lparr> w_last = [], w_last_run = None, w_last_err = None \<rparr>)) = []
   \<and> chk_status (watcher_check (watcher_status_of (fst (watcher_ticks True [demo_tick False ''2''] \<lparr> w_last = [], w_last_run = None, w_last_err = None \<rparr>)))) = ''error''"
proof -
  have 1: "list_all (\<lambda>e. \<not> te_cancelled e) [demo_tick False ''2'']" by code_simp
  have 2: "foldl (\<lambda>a e. abs_tick e a) [] [demo_tick False ''2''] = []" by code_simp
  have 3: "map snd (fired (snd (watcher_ticks True [demo_tick False ''2''] \<lparr> w_last = [], w_last_run = None, w_last_err = None \<rparr>))) = [Some ''disk full'']"
    by code_simp
  show ?thesis
    using watcher_refines [OF 1, of "\<lparr> w_last = [], w_last_run = None, w_last_err = None \<rparr>"] 2 3
    by (auto simp del: watcher_ticks.simps)
qed

end
