(* ===== verification/Json_Struct.thy ===== *)
theory Json_Struct imports Json_Laws begin

text \<open>
  Decoding a JSON object from a stream into a struct, the way \<open>json.NewDecoder (r).Decode\<close> does: the first
  value of the text counts, what follows is not looked at; each member sets the field whose name it has in
  any case, members of other names are skipped, later ones overwrite earlier ones, and one value of a
  wrong type fails the whole. Nothing here is code of the repository.
\<close>

subsection \<open>Fields by name\<close>

text \<open>Upper and lower case are one, and so are the long s and the Kelvin sign with their letters.\<close>

fun fold_key :: "string \<Rightarrow> string" where
  "fold_key (a # b # c # r) =
     (if a = CHR 0xC5 \<and> b = CHR 0xBF then CHR ''s'' # fold_key (c # r)
      else if a = CHR 0xE2 \<and> b = CHR 0x84 \<and> c = CHR 0xAA then CHR ''k'' # fold_key r
      else lower_char a # fold_key (b # c # r))"
| "fold_key [a, b] = (if a = CHR 0xC5 \<and> b = CHR 0xBF then ''s'' else [lower_char a, lower_char b])"
| "fold_key [a] = [lower_char a]"
| "fold_key [] = []"

type_synonym 's fields = "string \<Rightarrow> (val \<Rightarrow> 's \<Rightarrow> 's option) option"

fun decode_members :: "'s fields \<Rightarrow> table \<Rightarrow> 's \<Rightarrow> 's option" where
  "decode_members fields [] s = Some s"
| "decode_members fields ((k, v) # t) s = (case fields (fold_key k) of
      None \<Rightarrow> decode_members fields t s
    | Some f \<Rightarrow> (case f v s of None \<Rightarrow> None | Some s' \<Rightarrow> decode_members fields t s'))"

text \<open>The values a field takes; \<open>null\<close> leaves a scalar as it is.\<close>

definition is_null :: "val \<Rightarrow> bool" where "is_null v \<longleftrightarrow> v = VOther ''null''"

definition string_field :: "(string \<Rightarrow> 's \<Rightarrow> 's) \<Rightarrow> val \<Rightarrow> 's \<Rightarrow> 's option" where
  "string_field put v s = (case v of VStr x \<Rightarrow> Some (put x s) | _ \<Rightarrow> if is_null v then Some s else None)"

definition bool_field :: "(bool \<Rightarrow> 's \<Rightarrow> 's) \<Rightarrow> val \<Rightarrow> 's \<Rightarrow> 's option" where
  "bool_field put v s = (case v of VBool b \<Rightarrow> Some (put b s) | _ \<Rightarrow> if is_null v then Some s else None)"

text \<open>Numbers are kept as they were written; an \<open>int\<close> takes those that \<open>strconv.ParseInt\<close> accepts.\<close>

definition int_field :: "(int \<Rightarrow> 's \<Rightarrow> 's) \<Rightarrow> val \<Rightarrow> 's \<Rightarrow> 's option" where
  "int_field put v s = (if is_null v then Some s
     else case v of VOther x \<Rightarrow> map_option (\<lambda>i. put i s) (atoi x) | _ \<Rightarrow> None)"

text \<open>A map of strings keeps what it holds, a \<open>null\<close> element is the empty string, \<open>null\<close> itself the nil map.\<close>

fun put_strings :: "(string \<times> string) list \<Rightarrow> table \<Rightarrow> (string \<times> string) list option" where
  "put_strings m [] = Some m"
| "put_strings m ((k, v) # t) = (case v of
      VStr x \<Rightarrow> put_strings (AList.update k x m) t
    | _ \<Rightarrow> if is_null v then put_strings (AList.update k [] m) t else None)"

subsection \<open>The first value of a stream\<close>

definition json_first :: "string \<Rightarrow> val option" where
  "json_first s = map_option fst (json_value Some (2 * length s + 1) json_max_depth s)"

definition decode_struct :: "'s fields \<Rightarrow> 's \<Rightarrow> string \<Rightarrow> 's option" where
  "decode_struct fields s text = (case json_first text of
      Some (VTab t) \<Rightarrow> decode_members fields t s
    | Some v \<Rightarrow> if is_null v then Some s else None
    | None \<Rightarrow> None)"

subsection \<open>What was written is decoded\<close>

lemma json_first_text:
  assumes "json_typed Some json_max_depth v" "follows r"
  shows "json_first (json_text i v @ r) = Some v"
  using reads_backD [OF typed_reads_back [OF assms(1)], of "[]" i r "2 * length (json_text i v @ r) + 1"] assms(2)
  by (simp add: json_first_def)

lemma decode_struct_text:
  assumes "typed_table Some (json_max_depth - 1) t" "follows r"
  shows "decode_struct fields s (json_text i (VTab t) @ r) = decode_members fields t s"
proof -
  have "json_typed Some json_max_depth (VTab t)" using assms(1) by (simp add: json_typed_VTab json_max_depth_def)
  from json_first_text [OF this assms(2)] show ?thesis by (simp add: decode_struct_def del: json_text.simps)
qed

lemma follows_newline: "follows [newline]"
  by (rule follows_space) (simp add: json_space_def newline_def)

text \<open>Integers in decimal are numbers of the grammar.\<close>

lemma show_nat_hd: "10 \<le> n \<Longrightarrow> hd (show_nat n) \<noteq> CHR ''0''"
proof (induction n rule: show_nat.induct)
  case (1 n)
  have d: "hd (show_nat m) \<noteq> CHR ''0''" if "0 < m" "m < 10" for m
    using that of_char_digit_char [of m] by (auto simp: show_nat.simps [of m])
  have "hd (show_nat (n div 10)) \<noteq> CHR ''0''"
    using 1 d [of "n div 10"] by (cases "10 \<le> n div 10") auto
  then show ?case using 1 by (simp add: show_nat.simps [of n] hd_append)
qed

lemma json_number_show_nat: "json_number (show_nat n)"
proof -
  have d: "list_all is_digit (show_nat n)" by (rule show_nat_digits)
  then have t: "takeWhile is_digit (show_nat n) = show_nat n" "dropWhile is_digit (show_nat n) = []"
    by (simp_all add: list_all_iff takeWhile_eq_all_conv dropWhile_eq_Nil_conv)
  have m: "trim_prefix (show_nat n) ''-'' = show_nat n"
    using show_nat_hd_digit [of n] by (cases "show_nat n") (auto simp: trim_prefix_def is_digit_def)
  have "hd (show_nat n) = CHR ''0'' \<longrightarrow> length (show_nat n) = 1"
    using show_nat_hd [of n] by (cases "10 \<le> n") (simp_all add: show_nat.simps [of n])
  then show ?thesis by (simp add: json_number_def json_fraction_def Let_def t m del: takeWhile_eq_all_conv dropWhile_eq_Nil_conv)
qed

lemma show_nat_not_null: "show_nat n \<noteq> ''null''"
  using show_nat_hd_digit [of n] by (auto simp: is_digit_def)

lemma int_field_show_nat: "n < 2 ^ 63 \<Longrightarrow> int_field put (VOther (show_nat n)) s = Some (put (int n) s)"
  by (simp add: int_field_def is_null_def show_nat_not_null atoi_show_nat)

end
