(* ===== verification/Pid_Lock.thy ===== *)
theory Pid_Lock imports Daemon_State Json_Struct begin

text \<open>
  The PID file as a lock between processes: \<open>acquirePIDLock\<close>, \<open>terminateExisting\<close> and
  \<open>releasePIDLock\<close> of \<open>internal/daemon/daemon.go\<close> and \<open>Lock\<close> of \<open>internal/installer/lock.go\<close>, which
  work alike. Any number of processes run the protocol on one path; each system call is one step,
  and the steps of different processes interleave in any order. A lock belongs to the inode a process
  has opened and not to the path, which is what the laws below are about.
\<close>

subsection \<open>The protocol\<close>

datatype pid_phase = Outside | Opened nat | Locked nat | Held nat | Unlocked nat | Closed | Refused string

record pid_sys =
  ps_path :: "nat option"
  ps_next :: nat
  ps_lock :: "nat \<Rightarrow> nat option"
  ps_text :: "nat \<Rightarrow> string"
  ps_proc :: "nat \<Rightarrow> pid_phase"
  ps_removed :: bool

text \<open>
  \<open>ps_path\<close> is the inode the path names, \<open>ps_lock\<close> and \<open>ps_text\<close> are the lock holder and the content of
  an inode. \<open>ps_removed\<close> records for the proofs that some process has removed the path.
\<close>

definition init_pid_sys :: "(nat \<Rightarrow> string) \<Rightarrow> nat option \<Rightarrow> pid_sys" where
  "init_pid_sys old path = \<lparr> ps_path = path, ps_next = (case path of None \<Rightarrow> 0 | Some i \<Rightarrow> Suc i),
     ps_lock = \<lambda>_. None, ps_text = old, ps_proc = \<lambda>_. Outside, ps_removed = False \<rparr>"

definition set_phase :: "nat \<Rightarrow> pid_phase \<Rightarrow> pid_sys \<Rightarrow> pid_sys" where
  "set_phase p ph s = s\<lparr> ps_proc := (ps_proc s)(p := ph) \<rparr>"

text \<open>\<open>OpenFile (O_RDWR | O_CREATE)\<close>, \<open>Flock (LOCK_EX | LOCK_NB)\<close> and the writing of the PID.\<close>

inductive acquire_step :: "(nat \<Rightarrow> string) \<Rightarrow> nat \<Rightarrow> pid_sys \<Rightarrow> pid_sys \<Rightarrow> bool" for wr p where
  open_new: "\<lbrakk> ps_proc s p = Outside; ps_path s = None \<rbrakk> \<Longrightarrow>
     acquire_step wr p s (set_phase p (Opened (ps_next s))
       (s\<lparr> ps_path := Some (ps_next s), ps_next := Suc (ps_next s), ps_text := (ps_text s)(ps_next s := []) \<rparr>))"
| open_old: "\<lbrakk> ps_proc s p = Outside; ps_path s = Some i \<rbrakk> \<Longrightarrow> acquire_step wr p s (set_phase p (Opened i) s)"
| lock: "\<lbrakk> ps_proc s p = Opened i; ps_lock s i = None \<rbrakk> \<Longrightarrow>
     acquire_step wr p s (set_phase p (Locked i) (s\<lparr> ps_lock := (ps_lock s)(i := Some p) \<rparr>))"
| refuse: "\<lbrakk> ps_proc s p = Opened i; ps_lock s i \<noteq> None \<rbrakk> \<Longrightarrow>
     acquire_step wr p s (set_phase p (Refused (ps_text s i)) s)"
| put: "ps_proc s p = Locked i \<Longrightarrow>
     acquire_step wr p s (set_phase p (Held i) (s\<lparr> ps_text := (ps_text s)(i := wr p) \<rparr>))"

text \<open>\<open>Flock (LOCK_UN)\<close>, \<open>Close\<close> and \<open>Remove\<close>, three calls.\<close>

inductive release_step :: "nat \<Rightarrow> pid_sys \<Rightarrow> pid_sys \<Rightarrow> bool" for p where
  unlock: "ps_proc s p = Held i \<Longrightarrow>
     release_step p s (set_phase p (Unlocked i) (s\<lparr> ps_lock := (ps_lock s)(i := None) \<rparr>))"
| close: "ps_proc s p = Unlocked i \<Longrightarrow> release_step p s (set_phase p Closed s)"
| remove: "ps_proc s p = Closed \<Longrightarrow>
     release_step p s (set_phase p Outside (s\<lparr> ps_path := None, ps_removed := True \<rparr>))"

text \<open>A process that ends, killed or by \<open>os.Exit\<close>, loses its locks; the file stays.\<close>

definition drop_locks :: "nat \<Rightarrow> pid_sys \<Rightarrow> pid_sys" where
  "drop_locks p s = s\<lparr> ps_lock := \<lambda>i. if ps_lock s i = Some p then None else ps_lock s i \<rparr>"

inductive pid_step :: "(nat \<Rightarrow> string) \<Rightarrow> pid_sys \<Rightarrow> pid_sys \<Rightarrow> bool" for wr where
  acquire: "acquire_step wr p s t \<Longrightarrow> pid_step wr s t"
| release: "release_step p s t \<Longrightarrow> pid_step wr s t"
| gone: "pid_step wr s (set_phase p Outside (drop_locks p s))"

inductive_cases acquire_stepE: "acquire_step wr p s t"
inductive_cases release_stepE: "release_step p s t"
inductive_cases pid_stepE: "pid_step wr s t"

inductive pid_reachable :: "(nat \<Rightarrow> string) \<Rightarrow> pid_sys \<Rightarrow> bool" for wr where
  start: "pid_reachable wr (init_pid_sys old path)"
| step: "\<lbrakk> pid_reachable wr s; pid_step wr s t \<rbrakk> \<Longrightarrow> pid_reachable wr t"

subsection \<open>The invariant\<close>

fun phase_inode :: "pid_phase \<Rightarrow> nat option" where
  "phase_inode (Opened i) = Some i"
| "phase_inode (Locked i) = Some i"
| "phase_inode (Held i) = Some i"
| "phase_inode (Unlocked i) = Some i"
| "phase_inode _ = None"

fun lock_inode :: "pid_phase \<Rightarrow> nat option" where
  "lock_inode (Locked i) = Some i"
| "lock_inode (Held i) = Some i"
| "lock_inode _ = None"

definition lock_agrees :: "pid_sys \<Rightarrow> bool" where
  "lock_agrees s \<longleftrightarrow> (\<forall>p i. ps_lock s i = Some p \<longleftrightarrow> lock_inode (ps_proc s p) = Some i)"

definition inodes_old :: "pid_sys \<Rightarrow> bool" where
  "inodes_old s \<longleftrightarrow> (\<forall>p i. phase_inode (ps_proc s p) = Some i \<longrightarrow> i < ps_next s) \<and> (\<forall>i. ps_path s = Some i \<longrightarrow> i < ps_next s)"

definition one_inode :: "pid_sys \<Rightarrow> bool" where
  "one_inode s \<longleftrightarrow> (\<not> ps_removed s \<longrightarrow> (\<forall>p i. phase_inode (ps_proc s p) = Some i \<longrightarrow> ps_path s = Some i))"

definition text_written :: "(nat \<Rightarrow> string) \<Rightarrow> pid_sys \<Rightarrow> bool" where
  "text_written wr s \<longleftrightarrow> (\<forall>p i. ps_proc s p = Held i \<longrightarrow> ps_text s i = wr p)"

definition pid_inv :: "(nat \<Rightarrow> string) \<Rightarrow> pid_sys \<Rightarrow> bool" where
  "pid_inv wr s \<longleftrightarrow> lock_agrees s \<and> inodes_old s \<and> one_inode s \<and> text_written wr s"

lemmas pid_inv_defs = lock_agrees_def inodes_old_def one_inode_def text_written_def set_phase_def drop_locks_def

lemma inode_lt: "\<lbrakk> inodes_old s; ps_proc s p = ph; phase_inode ph = Some i \<rbrakk> \<Longrightarrow> i < ps_next s"
  by (auto simp: inodes_old_def)

lemma inode_path: "\<lbrakk> one_inode s; \<not> ps_removed s; ps_proc s p = ph; phase_inode ph = Some i \<rbrakk> \<Longrightarrow> ps_path s = Some i"
  by (auto simp: one_inode_def)

lemma init_pid_inv: "pid_inv wr (init_pid_sys old path)"
  by (simp add: pid_inv_def pid_inv_defs init_pid_sys_def split: option.split)

text \<open>Moving a process to another phase, with the inode it had or none.\<close>

lemma inodes_old_phase:
  assumes "inodes_old s" "phase_inode ph = None \<or> phase_inode ph = phase_inode (ps_proc s p)"
  shows "inodes_old (set_phase p ph s)"
  using assms by (auto simp: inodes_old_def set_phase_def)

lemma one_inode_phase:
  assumes "one_inode s" "phase_inode ph = None \<or> phase_inode ph = phase_inode (ps_proc s p)"
  shows "one_inode (set_phase p ph s)"
  using assms by (auto simp: one_inode_def set_phase_def)

lemma acquire_lock_agrees: "acquire_step wr p s t \<Longrightarrow> lock_agrees s \<Longrightarrow> lock_agrees t"
  by (erule acquire_stepE; auto simp: lock_agrees_def set_phase_def; metis option.simps(3))

lemma acquire_inodes: "acquire_step wr p s t \<Longrightarrow> inodes_old s \<Longrightarrow> inodes_old t"
  by (erule acquire_stepE; auto simp: inodes_old_def set_phase_def less_Suc_eq; metis phase_inode.simps)

lemma acquire_one_inode: "acquire_step wr p s t \<Longrightarrow> inodes_old s \<Longrightarrow> one_inode s \<Longrightarrow> one_inode t"
  by (erule acquire_stepE; auto simp: one_inode_def set_phase_def; metis phase_inode.simps option.simps(3))

lemma acquire_text: "acquire_step wr p s t \<Longrightarrow> lock_agrees s \<Longrightarrow> inodes_old s \<Longrightarrow> text_written wr s \<Longrightarrow> text_written wr t"
  by (erule acquire_stepE; auto simp: text_written_def set_phase_def dest: inode_lt;
      metis lock_agrees_def lock_inode.simps(1,2) option.inject)

lemma acquire_inv: "acquire_step wr p s t \<Longrightarrow> pid_inv wr s \<Longrightarrow> pid_inv wr t"
  unfolding pid_inv_def using acquire_lock_agrees acquire_inodes acquire_one_inode acquire_text by blast

lemma release_inv: "release_step p s t \<Longrightarrow> pid_inv wr s \<Longrightarrow> pid_inv wr t"
  unfolding pid_inv_def
  by (erule release_stepE; auto simp: pid_inv_defs; metis lock_inode.simps phase_inode.simps option.inject)

lemma exit_inv: "pid_inv wr s \<Longrightarrow> pid_inv wr (set_phase p Outside (drop_locks p s))"
  by (auto simp: pid_inv_def pid_inv_defs) (metis option.inject)+

lemma pid_step_inv: "pid_step wr s t \<Longrightarrow> pid_inv wr s \<Longrightarrow> pid_inv wr t"
  by (erule pid_stepE) (auto intro: acquire_inv release_inv exit_inv)

lemma reachable_pid_inv: "pid_reachable wr s \<Longrightarrow> pid_inv wr s"
  by (induction rule: pid_reachable.induct) (auto intro: init_pid_inv pid_step_inv)

lemma same_lock_inode:
  "\<lbrakk> pid_inv wr s; lock_inode (ps_proc s p) = Some i; lock_inode (ps_proc s q) = Some i \<rbrakk> \<Longrightarrow> p = q"
  unfolding pid_inv_def lock_agrees_def by (metis option.inject)

lemma lock_phase_inode: "lock_inode ph = Some i \<Longrightarrow> phase_inode ph = Some i"
  by (cases ph) auto

text \<open>
  C20: The PID file excludes a second instance, under every interleaving of any number of processes
  that start, are refused, release or are killed: two processes never hold the lock of one inode, a
  process that has the lock to itself finds its own PID in the file; and as long as nobody has removed the
  path, no two processes hold any lock at all.
\<close>

theorem pid_lock_exclusive:
  assumes "pid_reachable wr s"
  shows "(\<forall>p q i. lock_inode (ps_proc s p) = Some i \<longrightarrow> lock_inode (ps_proc s q) = Some i \<longrightarrow> p = q)
    \<and> (\<forall>p i. ps_proc s p = Held i \<longrightarrow> ps_text s i = wr p)
    \<and> (\<not> ps_removed s \<longrightarrow> (\<forall>p q i j. lock_inode (ps_proc s p) = Some i \<longrightarrow> lock_inode (ps_proc s q) = Some j \<longrightarrow> p = q))"
proof (intro conjI allI impI)
  have inv: "pid_inv wr s" using assms by (rule reachable_pid_inv)
  fix p q i j
  show "p = q" if "lock_inode (ps_proc s p) = Some i" "lock_inode (ps_proc s q) = Some i"
    using inv that by (rule same_lock_inode)
  show "ps_text s i = wr p" if "ps_proc s p = Held i"
    using inv that by (auto simp: pid_inv_def text_written_def)
  show "p = q" if "\<not> ps_removed s" and p: "lock_inode (ps_proc s p) = Some i" and q: "lock_inode (ps_proc s q) = Some j"
  proof -
    have "one_inode s" using inv by (simp add: pid_inv_def)
    from inode_path [OF this that(1) refl lock_phase_inode [OF p]] inode_path [OF this that(1) refl lock_phase_inode [OF q]]
    have "ps_path s = Some i" "ps_path s = Some j" .
    with inv p q show ?thesis using same_lock_inode by (metis option.inject)
  qed
qed

text \<open>One instance running and a second one refused with the running one's PID.\<close>

definition running_sys :: "(nat \<Rightarrow> string) \<Rightarrow> pid_sys" where
  "running_sys wr = set_phase 1 (Held 0) (init_pid_sys (\<lambda>_. []) None\<lparr> ps_path := Some 0, ps_next := 1,
     ps_lock := (\<lambda>_. None)(0 := Some 1), ps_text := (\<lambda>_. [])(0 := wr 1) \<rparr>)"

lemma reachable_running: "pid_reachable wr (running_sys wr)"
proof -
  let ?s0 = "init_pid_sys (\<lambda>_. []) None"
  let ?s1 = "set_phase 1 (Opened 0) (?s0\<lparr> ps_path := Some 0, ps_next := 1, ps_text := (\<lambda>_. [])(0 := []) \<rparr>)"
  let ?s2 = "set_phase 1 (Locked 0) (?s1\<lparr> ps_lock := (ps_lock ?s1)(0 := Some 1) \<rparr>)"
  have "acquire_step wr 1 ?s0 ?s1"
    using acquire_step.open_new [of ?s0 1 wr] by (simp add: init_pid_sys_def)
  moreover have "acquire_step wr 1 ?s1 ?s2"
    by (rule acquire_step.lock) (simp_all add: set_phase_def init_pid_sys_def)
  moreover have "acquire_step wr 1 ?s2 (set_phase 1 (Held 0) (?s2\<lparr> ps_text := (ps_text ?s2)(0 := wr 1) \<rparr>))"
    by (rule acquire_step.put) (simp add: set_phase_def)
  moreover have "set_phase 1 (Held 0) (?s2\<lparr> ps_text := (ps_text ?s2)(0 := wr 1) \<rparr>) = running_sys wr"
    by (simp add: running_sys_def set_phase_def init_pid_sys_def)
  ultimately show ?thesis
    using pid_reachable.start [of wr "\<lambda>_. []" None] by (metis pid_reachable.step pid_step.acquire)
qed

theorem pid_lock_exclusive_witness:
  "pid_reachable show_nat (running_sys show_nat) \<and> ps_proc (running_sys show_nat) 1 = Held 0
   \<and> ps_text (running_sys show_nat) 0 = show_nat 1"
  using reachable_running [of show_nat] pid_lock_exclusive [OF reachable_running [of show_nat]]
  by (simp add: running_sys_def set_phase_def)

text \<open>
  The removal breaks the exclusion: a process that opened the path before the holder unlocked it
  can lock the old inode, and when the holder then removes the path a third one locks a new file.
  Both run.
\<close>

lemma pid_lock_race:
  "\<exists>s. pid_reachable wr s \<and> ps_proc s 2 = Held 0 \<and> ps_proc s 3 = Held 1"
proof -
  let ?s0 = "running_sys wr"
  let ?s1 = "set_phase 2 (Opened 0) ?s0"
  let ?s2 = "set_phase 1 (Unlocked 0) (?s1\<lparr> ps_lock := (ps_lock ?s1)(0 := None) \<rparr>)"
  let ?s3 = "set_phase 2 (Locked 0) (?s2\<lparr> ps_lock := (ps_lock ?s2)(0 := Some 2) \<rparr>)"
  let ?s4 = "set_phase 2 (Held 0) (?s3\<lparr> ps_text := (ps_text ?s3)(0 := wr 2) \<rparr>)"
  let ?s5 = "set_phase 1 Closed ?s4"
  let ?s6 = "set_phase 1 Outside (?s5\<lparr> ps_path := None, ps_removed := True \<rparr>)"
  let ?s7 = "set_phase 3 (Opened (ps_next ?s6))
       (?s6\<lparr> ps_path := Some (ps_next ?s6), ps_next := Suc (ps_next ?s6), ps_text := (ps_text ?s6)(ps_next ?s6 := []) \<rparr>)"
  let ?s8 = "set_phase 3 (Locked 1) (?s7\<lparr> ps_lock := (ps_lock ?s7)(1 := Some 3) \<rparr>)"
  let ?s9 = "set_phase 3 (Held 1) (?s8\<lparr> ps_text := (ps_text ?s8)(1 := wr 3) \<rparr>)"
  note defs = set_phase_def running_sys_def init_pid_sys_def
  have a: "acquire_step wr 2 ?s0 ?s1" by (rule acquire_step.open_old) (simp_all add: defs)
  have b: "release_step 1 ?s1 ?s2" by (rule release_step.unlock) (simp add: defs)
  have c: "acquire_step wr 2 ?s2 ?s3" by (rule acquire_step.lock) (simp_all add: defs)
  have d: "acquire_step wr 2 ?s3 ?s4" by (rule acquire_step.put) (simp add: defs)
  have e: "release_step 1 ?s4 ?s5" by (rule release_step.close [where i = 0]) (simp add: defs)
  have f: "release_step 1 ?s5 ?s6" by (rule release_step.remove) (simp add: defs)
  have g: "acquire_step wr 3 ?s6 ?s7" by (rule acquire_step.open_new) (simp_all add: defs)
  have h: "acquire_step wr 3 ?s7 ?s8" by (rule acquire_step.lock) (simp_all add: defs)
  have i: "acquire_step wr 3 ?s8 ?s9" by (rule acquire_step.put) (simp add: defs)
  have "pid_reachable wr ?s9"
    by (rule pid_reachable.step [OF _ pid_step.acquire [OF i]], rule pid_reachable.step [OF _ pid_step.acquire [OF h]],
        rule pid_reachable.step [OF _ pid_step.acquire [OF g]], rule pid_reachable.step [OF _ pid_step.release [OF f]],
        rule pid_reachable.step [OF _ pid_step.release [OF e]], rule pid_reachable.step [OF _ pid_step.acquire [OF d]],
        rule pid_reachable.step [OF _ pid_step.acquire [OF c]], rule pid_reachable.step [OF _ pid_step.release [OF b]],
        rule pid_reachable.step [OF _ pid_step.acquire [OF a]], rule reachable_running)
  moreover have "ps_proc ?s9 2 = Held 0" "ps_proc ?s9 3 = Held 1" by (simp_all add: defs)
  ultimately show ?thesis by blast
qed

subsection \<open>The text of the PID file\<close>

text \<open>The file holds a JSON object with the field \<open>pid\<close>; what cannot be read counts as PID 0.\<close>

definition pid_text :: "int \<Rightarrow> string" where
  "pid_text pid = json_text None (VTab [(''pid'', VInt pid)]) @ [newline]"

definition pid_fields :: "int fields" where
  "pid_fields k = (if k = ''pid'' then Some (int_field (\<lambda>i _. i)) else None)"

definition read_existing_pid :: "string \<Rightarrow> int" where
  "read_existing_pid text = (case decode_struct pid_fields 0 text of None \<Rightarrow> 0 | Some p \<Rightarrow> p)"

text \<open>The PID that was written is read back.\<close>

lemma read_pid_text:
  assumes "0 \<le> pid" "pid < 2 ^ 63"
  shows "read_existing_pid (pid_text pid) = pid"
proof -
  let ?t = "[(''pid'', VOther (show_nat (nat pid)))]"
  have "typed_table Some (json_max_depth - 1) ?t"
    using json_number_show_nat by (auto simp: typed_table_def intro: json_typed.Number) code_simp
  from decode_struct_text [OF this follows_newline] have
    "decode_struct pid_fields 0 (pid_text pid) = decode_members pid_fields ?t 0"
    using assms(1) by (simp add: pid_text_def show_int_def)
  also have "\<dots> = Some pid"
    using assms by (simp add: pid_fields_def int_field_show_nat nat_less_iff lower_char_def)
  finally show ?thesis by (simp add: read_existing_pid_def)
qed

text \<open>
  The installer's lock (\<open>lock.go\<close>) writes the bare number into its file; if both are given one path, the
  daemon reads PID 0 from it and a forced takeover finds nobody to ask.
\<close>

lemma bare_pid_unreadable: "read_existing_pid (show_nat n @ [newline]) = 0"
proof -
  have "json_typed Some json_max_depth (VOther (show_nat n))" by (rule json_typed.Number) (simp_all add: json_number_show_nat)
  from json_first_text [OF this follows_newline] show ?thesis
    by (simp add: read_existing_pid_def decode_struct_def is_null_def show_nat_not_null)
qed

subsection \<open>Taking over\<close>

text \<open>
  \<open>terminateExisting\<close>: what the PID file holds, whether a signal can be sent to its process at each second, and
  the outcome of the SIGTERM.
\<close>

fun wait_gone :: "(nat \<Rightarrow> bool) \<Rightarrow> nat \<Rightarrow> nat \<Rightarrow> bool" where
  "wait_gone alive t 0 = False"
| "wait_gone alive t (Suc n) = (if \<not> alive t then True else wait_gone alive (Suc t) n)"

definition force_timeout :: nat where "force_timeout = 30"

definition terminate_existing ::
  "errno + string \<Rightarrow> (int \<Rightarrow> nat \<Rightarrow> bool) \<Rightarrow> (int \<Rightarrow> errno option) \<Rightarrow> gerr option" where
  "terminate_existing file alive term =
     (case file of
        Inl e \<Rightarrow> (if is_not_exist e then None else Some (WrapW ''open PID file'' (Sys e)))
      | Inr text \<Rightarrow>
          (let pid = read_existing_pid text
           in if pid \<le> 0 then None
              else if \<not> alive pid 0 then None
              else case term pid of
                     Some e \<Rightarrow> Some (WrapW (''send SIGTERM to PID '' @ show_int pid) (Sys e))
                   | None \<Rightarrow> if wait_gone (alive pid) 1 force_timeout then None
                             else Some (Msg (''process '' @ show_int pid @ '' did not terminate within 30s, please kill it manually''))))"

lemma wait_gone_iff: "wait_gone alive t n \<longleftrightarrow> (\<exists>d < n. \<not> alive (t + d))"
proof (induction n arbitrary: t)
  case (Suc n)
  have "(\<exists>d < Suc n. \<not> alive (t + d)) \<longleftrightarrow> \<not> alive t \<or> (\<exists>d < n. \<not> alive (Suc t + d))"
    by (auto simp: less_Suc_eq_0_disj)
  with Suc show ?case by simp
qed simp



end
