(* ===== verification/Daemon.thy ===== *)
theory Daemon imports Watcher Pid_Lock begin

text \<open>
  The life of the daemon process: \<open>Daemon.Run\<close>, \<open>setState\<close> and \<open>doCleanup\<close> of
  \<open>internal/daemon/daemon.go\<close>. The function starts a signal handler, the watcher and a cleanup as
  goroutines, so a run is an interleaving of the steps of the main goroutine, of the handler, of the
  other two, and of an environment that sends signals and cancels the context. Each operation of the
  source that another goroutine can see is one step. A timer is a choice: a step that waits for
  something with a timeout takes it as an argument.
\<close>

subsection \<open>States\<close>

text \<open>Where the main goroutine is: the operation of \<open>Run\<close> it does next.\<close>

datatype main_pc = MLock | MServe | MNotify | MRunning | MReady | MCheck | MWatch | MOpen | MWait
  | MUnready | MShutting | MCancel | MJoin | MHealth | MCleanup | MCleaning | MStop | MRelease | MDone | MFailed

text \<open>Where the signal handler is; from \<open>HUnready\<close> to \<open>HExit\<close> is the branch of an early signal.\<close>

datatype handler_pc = HOff | HWait | HSignal | HCtx | HUnready | HShutting | HCleanup | HCleaning | HStop | HExit | HDone

datatype watcher_phase = WOff | WRunning | WStopping | WDone

datatype cleanup_phase = CNone | CRunning | CReturned

datatype ending = Alive | Returned "gerr option" | Exited

record daemon_conf =
  dc_no_cleanup :: bool
  dc_has_cleanup :: bool
  dc_has_watcher :: bool
  dc_lock_result :: "gerr option"

text \<open>
  \<open>dm_waiting\<close> and \<open>dm_received\<close> are the two channels, closed or not, the second one with the number of
  times it was closed (a second time would panic); \<open>dm_seen\<close> are the states \<open>onStateChange\<close> was told;
  \<open>dm_late\<close> records that the wait for the watcher ended by its timeout.
\<close>

record dmn =
  dm_machine :: state_machine
  dm_seen :: "daemon_state list"
  dm_main :: main_pc
  dm_handler :: handler_pc
  dm_waiting :: bool
  dm_received :: nat
  dm_ctx :: bool
  dm_signal :: bool
  dm_health :: health_server
  dm_serving :: bool
  dm_watcher :: watcher_phase
  dm_late :: bool
  dm_main_cleanup :: cleanup_phase
  dm_early_cleanup :: cleanup_phase
  dm_pid_locked :: bool
  dm_end :: ending

definition new_daemon :: "bool \<Rightarrow> dmn" where
  "new_daemon locked = \<lparr> dm_machine = new_state_machine, dm_seen = [StateStarting], dm_main = MLock, dm_handler = HOff,
     dm_waiting = False, dm_received = 0, dm_ctx = False, dm_signal = False, dm_health = new_health_server,
     dm_serving = False, dm_watcher = WOff, dm_late = False, dm_main_cleanup = CNone, dm_early_cleanup = CNone,
     dm_pid_locked = locked, dm_end = Alive \<rparr>"

abbreviation dm_state :: "dmn \<Rightarrow> daemon_state" where
  "dm_state s \<equiv> current (dm_machine s)"

subsection \<open>Steps\<close>

definition set_state :: "daemon_state \<Rightarrow> dmn \<Rightarrow> dmn" where
  "set_state st s = (case transition_to (dm_machine s) st of
      (Some e, m) \<Rightarrow> s
    | (None, m) \<Rightarrow> s\<lparr> dm_machine := m, dm_seen := dm_seen s @ [st] \<rparr>)"

definition cleanup_enabled :: "daemon_conf \<Rightarrow> bool" where
  "cleanup_enabled c \<longleftrightarrow> \<not> dc_no_cleanup c \<and> dc_has_cleanup c"

definition daemon_check :: check_result where
  "daemon_check = \<lparr> chk_status = ''ready'', chk_message = ''Daemon is running'' \<rparr>"

definition main_step :: "daemon_conf \<Rightarrow> bool \<Rightarrow> dmn \<Rightarrow> dmn option" where
  "main_step c timer s = (case dm_main s of
      MLock \<Rightarrow>
        (if dm_pid_locked s then Some (s\<lparr> dm_main := MServe \<rparr>)
         else case dc_lock_result c of
           None \<Rightarrow> Some (s\<lparr> dm_pid_locked := True, dm_main := MServe \<rparr>)
         | Some e \<Rightarrow> Some ((set_state StateFailed s)\<lparr> dm_main := MFailed, dm_end := Returned (Some (WrapW ''acquire PID lock'' e)) \<rparr>))
    | MServe \<Rightarrow> Some (s\<lparr> dm_serving := True, dm_health := set_started True (dm_health s), dm_main := MNotify \<rparr>)
    | MNotify \<Rightarrow> Some (s\<lparr> dm_handler := HWait, dm_main := MRunning \<rparr>)
    | MRunning \<Rightarrow> Some ((set_state StateRunning s)\<lparr> dm_main := MReady \<rparr>)
    | MReady \<Rightarrow> Some (s\<lparr> dm_health := set_ready True (dm_health s), dm_main := MCheck \<rparr>)
    | MCheck \<Rightarrow> Some (s\<lparr> dm_health := add_check ''daemon'' daemon_check (dm_health s), dm_main := MWatch \<rparr>)
    | MWatch \<Rightarrow> Some (s\<lparr> dm_watcher := (if dc_has_watcher c then WRunning else WOff), dm_main := MOpen \<rparr>)
    | MOpen \<Rightarrow> Some (s\<lparr> dm_waiting := True, dm_main := MWait \<rparr>)
    | MWait \<Rightarrow> (if 0 < dm_received s \<or> dm_ctx s then Some (s\<lparr> dm_main := MUnready \<rparr>) else None)
    | MUnready \<Rightarrow> Some (s\<lparr> dm_health := set_ready False (dm_health s), dm_main := MShutting \<rparr>)
    | MShutting \<Rightarrow> Some ((set_state StateShuttingDown s)\<lparr> dm_main := MCancel \<rparr>)
    | MCancel \<Rightarrow> Some (s\<lparr> dm_watcher := (if dm_watcher s = WRunning then WStopping else dm_watcher s), dm_main := MJoin \<rparr>)
    | MJoin \<Rightarrow> (if dm_watcher s = WStopping
        then (if timer then Some (s\<lparr> dm_late := True, dm_main := MHealth \<rparr>) else None)
        else Some (s\<lparr> dm_main := MHealth \<rparr>))
    | MHealth \<Rightarrow> Some (s\<lparr> dm_serving := False, dm_main := MCleanup \<rparr>)
    | MCleanup \<Rightarrow> Some (if cleanup_enabled c then s\<lparr> dm_main_cleanup := CRunning, dm_main := MCleaning \<rparr> else s\<lparr> dm_main := MStop \<rparr>)
    | MCleaning \<Rightarrow> (if dm_main_cleanup s = CReturned \<or> timer then Some (s\<lparr> dm_main := MStop \<rparr>) else None)
    | MStop \<Rightarrow> Some ((set_state StateStopped s)\<lparr> dm_main := MRelease \<rparr>)
    | MRelease \<Rightarrow> Some (s\<lparr> dm_pid_locked := False, dm_main := MDone, dm_end := Returned None \<rparr>)
    | MDone \<Rightarrow> None
    | MFailed \<Rightarrow> None)"

text \<open>With both a signal and a cancelled context the outer \<open>select\<close> takes either one.\<close>

definition handler_step :: "daemon_conf \<Rightarrow> bool \<Rightarrow> dmn \<Rightarrow> dmn option" where
  "handler_step c timer s = (case dm_handler s of
      HOff \<Rightarrow> None
    | HWait \<Rightarrow> (if dm_signal s \<and> (timer \<or> \<not> dm_ctx s) then Some (s\<lparr> dm_signal := False, dm_handler := HSignal \<rparr>)
               else if dm_ctx s then Some (s\<lparr> dm_handler := HCtx \<rparr>) else None)
    | HSignal \<Rightarrow> Some (if dm_waiting s then s\<lparr> dm_received := Suc (dm_received s), dm_handler := HDone \<rparr>
                      else s\<lparr> dm_handler := HUnready \<rparr>)
    | HUnready \<Rightarrow> Some (s\<lparr> dm_health := set_ready False (dm_health s), dm_handler := HShutting \<rparr>)
    | HShutting \<Rightarrow> Some ((set_state StateShuttingDown s)\<lparr> dm_handler := HCleanup \<rparr>)
    | HCleanup \<Rightarrow> Some (if cleanup_enabled c then s\<lparr> dm_early_cleanup := CRunning, dm_handler := HCleaning \<rparr> else s\<lparr> dm_handler := HStop \<rparr>)
    | HCleaning \<Rightarrow> (if dm_early_cleanup s = CReturned \<or> timer then Some (s\<lparr> dm_handler := HStop \<rparr>) else None)
    | HStop \<Rightarrow> Some ((set_state StateStopped s)\<lparr> dm_handler := HExit \<rparr>)
    | HExit \<Rightarrow> Some (s\<lparr> dm_end := Exited \<rparr>)
    | HCtx \<Rightarrow> Some (if dm_waiting s then s\<lparr> dm_received := Suc (dm_received s), dm_handler := HDone \<rparr>
                   else s\<lparr> dm_handler := HDone \<rparr>)
    | HDone \<Rightarrow> None)"

text \<open>The steps of the program, while it runs, and those of its environment.\<close>

inductive program_step :: "daemon_conf \<Rightarrow> dmn \<Rightarrow> dmn \<Rightarrow> bool" for c where
  main: "\<lbrakk> dm_end s = Alive; main_step c timer s = Some t \<rbrakk> \<Longrightarrow> program_step c s t"
| handler: "\<lbrakk> dm_end s = Alive; handler_step c timer s = Some t \<rbrakk> \<Longrightarrow> program_step c s t"
| watcher_ends: "\<lbrakk> dm_end s = Alive; dm_watcher s = WStopping \<or> (dm_watcher s = WRunning \<and> dm_ctx s) \<rbrakk> \<Longrightarrow>
     program_step c s (s\<lparr> dm_watcher := WDone \<rparr>)"
| main_cleanup_ends: "\<lbrakk> dm_end s = Alive; dm_main_cleanup s = CRunning \<rbrakk> \<Longrightarrow> program_step c s (s\<lparr> dm_main_cleanup := CReturned \<rparr>)"
| early_cleanup_ends: "\<lbrakk> dm_end s = Alive; dm_early_cleanup s = CRunning \<rbrakk> \<Longrightarrow> program_step c s (s\<lparr> dm_early_cleanup := CReturned \<rparr>)"

text \<open>A signal before \<open>signal.Notify\<close> kills the process; the channel holds one signal and drops others.\<close>

inductive env_step :: "dmn \<Rightarrow> dmn \<Rightarrow> bool" where
  kill: "\<lbrakk> dm_end s = Alive; dm_handler s = HOff \<rbrakk> \<Longrightarrow> env_step s (s\<lparr> dm_end := Exited \<rparr>)"
| signal: "\<lbrakk> dm_end s = Alive; dm_handler s \<noteq> HOff \<rbrakk> \<Longrightarrow> env_step s (s\<lparr> dm_signal := True \<rparr>)"
| cancel: "dm_end s = Alive \<Longrightarrow> env_step s (s\<lparr> dm_ctx := True \<rparr>)"

inductive_cases program_stepE: "program_step c s t"
inductive_cases env_stepE: "env_step s t"

inductive daemon_reachable :: "daemon_conf \<Rightarrow> dmn \<Rightarrow> bool" for c where
  start: "daemon_reachable c (new_daemon locked)"
| program: "\<lbrakk> daemon_reachable c s; program_step c s t \<rbrakk> \<Longrightarrow> daemon_reachable c t"
| env: "\<lbrakk> daemon_reachable c s; env_step s t \<rbrakk> \<Longrightarrow> daemon_reachable c t"

subsection \<open>Positions as numbers\<close>

fun main_no :: "main_pc \<Rightarrow> nat" where
  "main_no MLock = 0" | "main_no MServe = 1" | "main_no MNotify = 2" | "main_no MRunning = 3" | "main_no MReady = 4"
| "main_no MCheck = 5" | "main_no MWatch = 6" | "main_no MOpen = 7" | "main_no MWait = 8" | "main_no MUnready = 9"
| "main_no MShutting = 10" | "main_no MCancel = 11" | "main_no MJoin = 12" | "main_no MHealth = 13"
| "main_no MCleanup = 14" | "main_no MCleaning = 15" | "main_no MStop = 16" | "main_no MRelease = 17"
| "main_no MDone = 18" | "main_no MFailed = 19"

fun handler_no :: "handler_pc \<Rightarrow> nat" where
  "handler_no HOff = 0" | "handler_no HWait = 1" | "handler_no HSignal = 2" | "handler_no HCtx = 2" | "handler_no HUnready = 3"
| "handler_no HShutting = 4" | "handler_no HCleanup = 5" | "handler_no HCleaning = 6" | "handler_no HStop = 7"
| "handler_no HExit = 8" | "handler_no HDone = 9"

text \<open>Ranges of positions, opaque unless the position is known.\<close>

definition within :: "nat \<Rightarrow> nat \<Rightarrow> main_pc \<Rightarrow> bool" where
  "within a b m \<longleftrightarrow> a \<le> main_no m \<and> main_no m \<le> b"

lemma within_simps [simp]:
  "within a b MLock \<longleftrightarrow> a \<le> 0 \<and> 0 \<le> b" "within a b MServe \<longleftrightarrow> a \<le> 1 \<and> 1 \<le> b" "within a b MNotify \<longleftrightarrow> a \<le> 2 \<and> 2 \<le> b"
  "within a b MRunning \<longleftrightarrow> a \<le> 3 \<and> 3 \<le> b" "within a b MReady \<longleftrightarrow> a \<le> 4 \<and> 4 \<le> b" "within a b MCheck \<longleftrightarrow> a \<le> 5 \<and> 5 \<le> b"
  "within a b MWatch \<longleftrightarrow> a \<le> 6 \<and> 6 \<le> b" "within a b MOpen \<longleftrightarrow> a \<le> 7 \<and> 7 \<le> b" "within a b MWait \<longleftrightarrow> a \<le> 8 \<and> 8 \<le> b"
  "within a b MUnready \<longleftrightarrow> a \<le> 9 \<and> 9 \<le> b" "within a b MShutting \<longleftrightarrow> a \<le> 10 \<and> 10 \<le> b" "within a b MCancel \<longleftrightarrow> a \<le> 11 \<and> 11 \<le> b"
  "within a b MJoin \<longleftrightarrow> a \<le> 12 \<and> 12 \<le> b" "within a b MHealth \<longleftrightarrow> a \<le> 13 \<and> 13 \<le> b" "within a b MCleanup \<longleftrightarrow> a \<le> 14 \<and> 14 \<le> b"
  "within a b MCleaning \<longleftrightarrow> a \<le> 15 \<and> 15 \<le> b" "within a b MStop \<longleftrightarrow> a \<le> 16 \<and> 16 \<le> b" "within a b MRelease \<longleftrightarrow> a \<le> 17 \<and> 17 \<le> b"
  "within a b MDone \<longleftrightarrow> a \<le> 18 \<and> 18 \<le> b" "within a b MFailed \<longleftrightarrow> a \<le> 19 \<and> 19 \<le> b"
  by (simp_all add: within_def)

fun early_pc :: "handler_pc \<Rightarrow> bool" where
  "early_pc HOff = False" | "early_pc HWait = False" | "early_pc HSignal = False" | "early_pc HCtx = False"
| "early_pc HDone = False" | "early_pc _ = True"

text \<open>The states reported on the way to a state.\<close>

fun path_to :: "daemon_state \<Rightarrow> daemon_state list" where
  "path_to StateStarting = [StateStarting]"
| "path_to StateRunning = [StateStarting, StateRunning]"
| "path_to StateShuttingDown = [StateStarting, StateRunning, StateShuttingDown]"
| "path_to StateStopped = [StateStarting, StateRunning, StateShuttingDown, StateStopped]"
| "path_to StateFailed = [StateStarting, StateFailed]"
| "path_to (OtherState _) = []"

subsection \<open>Invariants\<close>

definition inv_state :: "dmn \<Rightarrow> bool" where
  "inv_state s \<longleftrightarrow> dm_seen s = path_to (dm_state s)
     \<and> (within 0 3 (dm_main s) \<longrightarrow> dm_state s = StateStarting)
     \<and> (within 4 10 (dm_main s) \<longrightarrow> dm_state s = StateRunning \<or> dm_state s = StateShuttingDown \<or> dm_state s = StateStopped)
     \<and> (within 11 16 (dm_main s) \<longrightarrow> dm_state s = StateShuttingDown \<or> dm_state s = StateStopped)
     \<and> (within 17 18 (dm_main s) \<longrightarrow> dm_state s = StateStopped)
     \<and> (dm_state s = StateFailed \<longleftrightarrow> dm_main s = MFailed)
     \<and> (\<not> early_pc (dm_handler s) \<and> within 4 10 (dm_main s) \<longrightarrow> dm_state s = StateRunning)"

definition inv_channels :: "dmn \<Rightarrow> bool" where
  "inv_channels s \<longleftrightarrow> (dm_waiting s \<longleftrightarrow> within 8 18 (dm_main s))
     \<and> (dm_handler s = HOff \<longleftrightarrow> within 0 2 (dm_main s) \<or> dm_main s = MFailed)
     \<and> dm_received s \<le> 1 \<and> (dm_handler s \<noteq> HDone \<longrightarrow> dm_received s = 0)
     \<and> (dm_handler s = HDone \<longrightarrow> dm_received s = 1 \<or> dm_ctx s)
     \<and> (dm_handler s = HCtx \<longrightarrow> dm_ctx s)
     \<and> (within 9 18 (dm_main s) \<longrightarrow> dm_received s = 1 \<or> dm_ctx s)"

definition inv_ready :: "dmn \<Rightarrow> bool" where
  "inv_ready s \<longleftrightarrow> (hs_ready (dm_health s) \<longrightarrow> within 5 9 (dm_main s))"

definition inv_end :: "dmn \<Rightarrow> bool" where
  "inv_end s \<longleftrightarrow> (dm_end s = Returned None \<longleftrightarrow> dm_main s = MDone) \<and> ((\<exists>e. dm_end s = Returned (Some e)) \<longleftrightarrow> dm_main s = MFailed)
     \<and> (within 1 17 (dm_main s) \<longrightarrow> dm_pid_locked s) \<and> (dm_main s = MDone \<longrightarrow> \<not> dm_pid_locked s)"

definition inv_cleanup :: "daemon_conf \<Rightarrow> dmn \<Rightarrow> bool" where
  "inv_cleanup c s \<longleftrightarrow> (dm_main_cleanup s \<noteq> CNone \<longleftrightarrow> within 15 18 (dm_main s) \<and> cleanup_enabled c)
     \<and> (dm_early_cleanup s \<noteq> CNone \<longrightarrow> early_pc (dm_handler s))
     \<and> (dm_main s = MCleaning \<longrightarrow> cleanup_enabled c)"

definition inv_watcher :: "dmn \<Rightarrow> bool" where
  "inv_watcher s \<longleftrightarrow> (within 0 6 (dm_main s) \<longrightarrow> dm_watcher s = WOff)
     \<and> (within 12 18 (dm_main s) \<longrightarrow> dm_watcher s \<noteq> WRunning)
     \<and> (within 13 18 (dm_main s) \<longrightarrow> dm_watcher s \<noteq> WStopping \<or> dm_late s)"

lemma set_state_simps [simp]:
  "dm_main (set_state st s) = dm_main s" "dm_handler (set_state st s) = dm_handler s"
  "dm_waiting (set_state st s) = dm_waiting s" "dm_received (set_state st s) = dm_received s"
  "dm_ctx (set_state st s) = dm_ctx s" "dm_signal (set_state st s) = dm_signal s"
  "dm_health (set_state st s) = dm_health s" "dm_watcher (set_state st s) = dm_watcher s"
  "dm_late (set_state st s) = dm_late s" "dm_main_cleanup (set_state st s) = dm_main_cleanup s"
  "dm_early_cleanup (set_state st s) = dm_early_cleanup s" "dm_pid_locked (set_state st s) = dm_pid_locked s"
  "dm_end (set_state st s) = dm_end s"
  by (simp_all add: set_state_def split: prod.split option.split)

lemma set_state_state:
  "dm_state (set_state st s) = (if can_transition_to (dm_state s) st then st else dm_state s)"
  "dm_seen (set_state st s) = (if can_transition_to (dm_state s) st then dm_seen s @ [st] else dm_seen s)"
  by (simp_all add: set_state_def transition_to_def)

lemmas step_defs = main_step_def handler_step_def

lemma main_inv_channels: "\<lbrakk> main_step c b s = Some t; inv_channels s \<rbrakk> \<Longrightarrow> inv_channels t"
  by (cases "dm_main s"; clarsimp simp: main_step_def inv_channels_def split: if_split_asm option.split_asm)

lemma main_inv_ready: "\<lbrakk> main_step c b s = Some t; inv_ready s \<rbrakk> \<Longrightarrow> inv_ready t"
  by (cases "dm_main s"; clarsimp simp: main_step_def inv_ready_def health_defs split: if_split_asm option.split_asm)

lemma main_inv_end: "\<lbrakk> main_step c b s = Some t; dm_end s = Alive; inv_end s \<rbrakk> \<Longrightarrow> inv_end t"
  by (cases "dm_main s"; clarsimp simp: main_step_def inv_end_def split: if_split_asm option.split_asm)

lemma main_inv_cleanup: "\<lbrakk> main_step c b s = Some t; inv_channels s; inv_cleanup c s \<rbrakk> \<Longrightarrow> inv_cleanup c t"
  by (cases "dm_main s"; clarsimp simp: main_step_def inv_cleanup_def inv_channels_def split: if_split_asm option.split_asm)

lemma main_inv_watcher: "\<lbrakk> main_step c b s = Some t; inv_watcher s \<rbrakk> \<Longrightarrow> inv_watcher t"
  by (cases "dm_main s"; clarsimp simp: main_step_def inv_watcher_def split: if_split_asm option.split_asm)

lemma main_inv_state: "\<lbrakk> main_step c b s = Some t; inv_state s; inv_channels s \<rbrakk> \<Longrightarrow> inv_state t"
  by (cases "dm_main s"; cases "dm_state s"; clarsimp simp: main_step_def inv_state_def inv_channels_def set_state_state split: if_split_asm option.split_asm)

lemma handler_inv_channels: "\<lbrakk> handler_step c b s = Some t; inv_channels s \<rbrakk> \<Longrightarrow> inv_channels t"
  by (cases "dm_handler s"; clarsimp simp: handler_step_def inv_channels_def split: if_split_asm)

lemma handler_inv_state: "\<lbrakk> handler_step c b s = Some t; inv_state s; inv_channels s \<rbrakk> \<Longrightarrow> inv_state t"
  by (cases "dm_handler s"; cases "dm_state s"; clarsimp simp: handler_step_def inv_state_def inv_channels_def set_state_state split: if_split_asm)

lemma handler_inv_others:
  assumes "handler_step c b s = Some t"
  shows "inv_ready s \<Longrightarrow> inv_ready t" "inv_watcher s \<Longrightarrow> inv_watcher t" "inv_cleanup c s \<Longrightarrow> inv_cleanup c t"
    "\<lbrakk> dm_end s = Alive; inv_end s \<rbrakk> \<Longrightarrow> inv_end t"
  using assms
  by (cases "dm_handler s"; clarsimp simp: handler_step_def inv_ready_def inv_end_def inv_watcher_def inv_cleanup_def
      health_defs split: if_split_asm)+

definition dmn_inv :: "daemon_conf \<Rightarrow> dmn \<Rightarrow> bool" where
  "dmn_inv c s \<longleftrightarrow> inv_state s \<and> inv_channels s \<and> inv_ready s \<and> inv_end s \<and> inv_cleanup c s \<and> inv_watcher s"

lemma new_daemon_inv: "dmn_inv c (new_daemon locked)"
  by (simp add: dmn_inv_def inv_state_def inv_channels_def inv_ready_def inv_end_def inv_cleanup_def inv_watcher_def
      new_daemon_def new_state_machine_def new_health_server_def)

lemma program_inv: "\<lbrakk> program_step c s t; dmn_inv c s \<rbrakk> \<Longrightarrow> dmn_inv c t"
proof (erule program_stepE)
  fix timer assume m: "dm_end s = Alive" "main_step c timer s = Some t" and i: "dmn_inv c s"
  show "dmn_inv c t"
    using i main_inv_state [OF m(2)] main_inv_channels [OF m(2)] main_inv_ready [OF m(2)] main_inv_end [OF m(2,1)]
      main_inv_cleanup [OF m(2)] main_inv_watcher [OF m(2)]
    by (simp add: dmn_inv_def)
next
  fix timer assume h: "dm_end s = Alive" "handler_step c timer s = Some t" and i: "dmn_inv c s"
  show "dmn_inv c t"
    using i h(1) handler_inv_state [OF h(2)] handler_inv_channels [OF h(2)] handler_inv_others [OF h(2)]
    by (simp add: dmn_inv_def)
qed (clarsimp simp: dmn_inv_def inv_state_def inv_channels_def inv_ready_def inv_end_def inv_cleanup_def inv_watcher_def)+

lemma env_inv: "\<lbrakk> env_step s t; dmn_inv c s \<rbrakk> \<Longrightarrow> dmn_inv c t"
  by (erule env_stepE)
    (clarsimp simp: dmn_inv_def inv_state_def inv_channels_def inv_ready_def inv_end_def inv_cleanup_def inv_watcher_def)+

lemma reachable_inv: "daemon_reachable c s \<Longrightarrow> dmn_inv c s"
  by (induction rule: daemon_reachable.induct) (auto intro: new_daemon_inv program_inv env_inv)

lemma path_to_ok: "path_to st \<noteq> [] \<Longrightarrow>
    successively can_transition_to (path_to st) \<and> hd (path_to st) = StateStarting \<and> last (path_to st) = st"
  by (cases st) auto

lemma main_ranges:
  "within 0 3 m \<or> within 4 10 m \<or> within 11 16 m \<or> within 17 18 m \<or> m = MFailed"
  by (cases m) simp_all

lemma reachable_named: "inv_state s \<Longrightarrow> path_to (dm_state s) \<noteq> []"
  using main_ranges [of "dm_main s"] unfolding inv_state_def by (elim disjE; clarsimp; elim disjE; simp)

subsection \<open>The life cycle\<close>



text \<open>
  C23: \<open>/ready\<close> can be trusted unless a signal came before the daemon was ready for one: when it answers
  200 the daemon is running with its PID lock, no cleanup has begun and the state reported is
  \<open>running\<close>.
\<close>

theorem daemon_ready_trusted:
  assumes "daemon_reachable c s" "fst (ready_handler (dm_health s)) = 200" "\<not> early_pc (dm_handler s)"
  shows "dm_state s = StateRunning \<and> dm_pid_locked s \<and> dm_main_cleanup s = CNone \<and> dm_early_cleanup s = CNone"
proof -
  have inv: "dmn_inv c s" by (rule reachable_inv [OF assms(1)])
  have "hs_ready (dm_health s)" using assms(2) by (simp add: ready_handler_def split: if_splits)
  then have w: "within 5 9 (dm_main s)" using inv by (simp add: dmn_inv_def inv_ready_def)
  then have "within 4 10 (dm_main s)" "within 1 17 (dm_main s)" "\<not> within 15 18 (dm_main s)"
    by (auto simp: within_def)
  then show ?thesis
    using inv assms(3) by (auto simp: dmn_inv_def inv_state_def inv_end_def inv_cleanup_def)
qed

subsection \<open>Termination\<close>

fun watcher_no :: "watcher_phase \<Rightarrow> nat" where
  "watcher_no WRunning = 2" | "watcher_no WStopping = 1" | "watcher_no _ = 0"

fun cleanup_no :: "cleanup_phase \<Rightarrow> nat" where
  "cleanup_no CRunning = 1" | "cleanup_no _ = 0"

definition dmn_measure :: "dmn \<Rightarrow> nat" where
  "dmn_measure s = 4 * (19 - main_no (dm_main s)) + 4 * (9 - handler_no (dm_handler s))
     + watcher_no (dm_watcher s) + cleanup_no (dm_main_cleanup s) + cleanup_no (dm_early_cleanup s)
     + (if dm_end s = Alive then 1 else 0)"

lemma no_bounds: "watcher_no w \<le> 2" "cleanup_no k \<le> 1"
  by (cases w; simp) (cases k; simp)

lemma dmn_measure_bound: "dmn_measure s \<le> 117"
  using no_bounds(1) [of "dm_watcher s"] no_bounds(2) [of "dm_main_cleanup s"] no_bounds(2) [of "dm_early_cleanup s"]
  unfolding dmn_measure_def by (cases "dm_end s = Alive"; simp; linarith)

lemma main_step_measure:
  "\<lbrakk> main_step c b s = Some t; inv_channels s; dm_end s = Alive \<rbrakk> \<Longrightarrow> dmn_measure t < dmn_measure s"
  using no_bounds(1) [of "dm_watcher s"] no_bounds(2) [of "dm_main_cleanup s"]
  by (cases "dm_main s"; clarsimp simp: main_step_def dmn_measure_def inv_channels_def split: if_split_asm option.split_asm)

lemma handler_step_measure:
  "\<lbrakk> handler_step c b s = Some t; dm_end s = Alive \<rbrakk> \<Longrightarrow> dmn_measure t < dmn_measure s"
  using no_bounds(2) [of "dm_early_cleanup s"]
  by (cases "dm_handler s"; clarsimp simp: handler_step_def dmn_measure_def split: if_split_asm)

lemma program_step_measure: "\<lbrakk> program_step c s t; dmn_inv c s \<rbrakk> \<Longrightarrow> dmn_measure t < dmn_measure s"
proof (erule program_stepE)
  fix timer assume "dm_end s = Alive" "main_step c timer s = Some t" "dmn_inv c s"
  then show ?thesis using main_step_measure by (simp add: dmn_inv_def)
next
  fix timer assume "dm_end s = Alive" "handler_step c timer s = Some t"
  then show ?thesis by (rule handler_step_measure [rotated])
qed (auto simp: dmn_measure_def)

definition shutdown_requested :: "dmn \<Rightarrow> bool" where
  "shutdown_requested s \<longleftrightarrow> dm_ctx s \<or> dm_signal s \<or> (dm_handler s \<noteq> HOff \<and> dm_handler s \<noteq> HWait)"

lemma program_step_requested: "\<lbrakk> program_step c s t; dmn_inv c s; shutdown_requested s \<rbrakk> \<Longrightarrow> shutdown_requested t"
proof (erule program_stepE)
  fix timer assume "main_step c timer s = Some t" "dmn_inv c s" "shutdown_requested s"
  then show ?thesis
    by (cases "dm_main s"; clarsimp simp: main_step_def shutdown_requested_def dmn_inv_def inv_channels_def
        split: if_split_asm option.split_asm)
next
  fix timer assume "handler_step c timer s = Some t" "shutdown_requested s"
  then show ?thesis
    by (cases "dm_handler s"; clarsimp simp: handler_step_def shutdown_requested_def split: if_split_asm)
qed (auto simp: shutdown_requested_def)

text \<open>A daemon that was asked to stop is never stuck: the timers make every wait finite.\<close>

lemma main_progress:
  assumes "dmn_inv c s" "dm_end s = Alive" "dm_main s \<noteq> MWait"
  shows "\<exists>t. main_step c True s = Some t"
  using assms
  by (cases "dm_main s"; clarsimp simp: main_step_def dmn_inv_def inv_end_def split: option.split)

lemma handler_progress:
  assumes "shutdown_requested s" "\<not> dm_ctx s" "dm_handler s \<noteq> HOff" "dm_handler s \<noteq> HDone"
  shows "\<exists>t. handler_step c True s = Some t"
  using assms by (cases "dm_handler s"; clarsimp simp: handler_step_def shutdown_requested_def)

lemma program_progress:
  assumes "dmn_inv c s" "dm_end s = Alive" "shutdown_requested s"
  shows "\<exists>t. program_step c s t"
proof (cases "dm_main s = MWait \<and> \<not> (0 < dm_received s \<or> dm_ctx s)")
  case True
  then have "dm_handler s \<noteq> HOff" "dm_handler s \<noteq> HDone" "\<not> dm_ctx s"
    using assms(1) by (auto simp: dmn_inv_def inv_channels_def)
  then show ?thesis using handler_progress [OF assms(3)] program_step.handler [OF assms(2)] by blast
next
  case False
  have "\<exists>t. main_step c True s = Some t"
  proof (cases "dm_main s = MWait")
    case True
    with False show ?thesis by (simp add: main_step_def)
  qed (rule main_progress [OF assms(1,2)])
  then show ?thesis using program_step.main [OF assms(2)] by blast
qed

lemma program_run:
  "\<lbrakk> (program_step c ^^ n) s t; dmn_inv c s; shutdown_requested s \<rbrakk> \<Longrightarrow>
   dmn_inv c t \<and> shutdown_requested t \<and> dmn_measure t + n \<le> dmn_measure s"
proof (induction n arbitrary: t)
  case (Suc n)
  then obtain u where u: "(program_step c ^^ n) s u" "program_step c u t" by auto
  with Suc have "dmn_inv c u \<and> shutdown_requested u \<and> dmn_measure u + n \<le> dmn_measure s" by blast
  with program_inv [OF u(2)] program_step_requested [OF u(2)] program_step_measure [OF u(2)] show ?case by auto
qed simp

text \<open>
  C19: A shutdown always comes to an end: once a signal was delivered or the context cancelled, the program
  takes at most 117 more steps whatever the scheduler does, and it can only stop stepping by
  having returned or exited; no goroutine, cleanup or watcher that hangs can hold it.
\<close>

theorem daemon_shutdown_terminates:
  assumes "daemon_reachable c s" "shutdown_requested s" "(program_step c ^^ n) s t"
  shows "n \<le> 117 \<and> ((\<nexists>u. program_step c t u) \<longrightarrow> dm_end t \<noteq> Alive)"
proof -
  note run = program_run [OF assms(3) reachable_inv [OF assms(1)] assms(2)]
  have "n \<le> 117" using run dmn_measure_bound [of s] by simp
  moreover have "dm_end t \<noteq> Alive" if "\<nexists>u. program_step c t u"
    using run program_progress [of c t] that by blast
  ultimately show ?thesis by blast
qed

subsection \<open>Schedules\<close>

text \<open>An executable form of the steps: one action of a schedule performs one step.\<close>

datatype act = Main bool | Handler bool | WatcherEnds | MainCleanupEnds | EarlyCleanupEnds | Signal | Cancel

definition perform :: "daemon_conf \<Rightarrow> act \<Rightarrow> dmn \<Rightarrow> dmn option" where
  "perform c a s = (if dm_end s \<noteq> Alive then None else case a of
      Main b \<Rightarrow> main_step c b s
    | Handler b \<Rightarrow> handler_step c b s
    | WatcherEnds \<Rightarrow> (if dm_watcher s = WStopping \<or> (dm_watcher s = WRunning \<and> dm_ctx s) then Some (s\<lparr> dm_watcher := WDone \<rparr>) else None)
    | MainCleanupEnds \<Rightarrow> (if dm_main_cleanup s = CRunning then Some (s\<lparr> dm_main_cleanup := CReturned \<rparr>) else None)
    | EarlyCleanupEnds \<Rightarrow> (if dm_early_cleanup s = CRunning then Some (s\<lparr> dm_early_cleanup := CReturned \<rparr>) else None)
    | Signal \<Rightarrow> (if dm_handler s \<noteq> HOff then Some (s\<lparr> dm_signal := True \<rparr>) else None)
    | Cancel \<Rightarrow> Some (s\<lparr> dm_ctx := True \<rparr>))"

fun run_acts :: "daemon_conf \<Rightarrow> act list \<Rightarrow> dmn \<Rightarrow> dmn option" where
  "run_acts c [] s = Some s"
| "run_acts c (a # acts) s = (case perform c a s of None \<Rightarrow> None | Some t \<Rightarrow> run_acts c acts t)"

lemma perform_program: "perform c a s = Some t \<Longrightarrow> a \<noteq> Signal \<Longrightarrow> a \<noteq> Cancel \<Longrightarrow> program_step c s t"
  by (cases a) (auto simp: perform_def split: if_splits intro: program_step.intros)

lemma perform_env: "perform c a s = Some t \<Longrightarrow> a = Signal \<or> a = Cancel \<Longrightarrow> env_step s t"
  by (cases a) (auto simp: perform_def split: if_splits intro: env_step.intros)

lemma run_acts_reachable:
  "\<lbrakk> run_acts c acts s = Some t; daemon_reachable c s \<rbrakk> \<Longrightarrow> daemon_reachable c t"
proof (induction acts arbitrary: s)
  case (Cons a acts)
  then obtain u where u: "perform c a s = Some u" "run_acts c acts u = Some t" by (auto split: option.splits)
  then have "daemon_reachable c u"
    using Cons.prems(2) perform_program [OF u(1)] perform_env [OF u(1)] daemon_reachable.program daemon_reachable.env by blast
  with Cons.IH u(2) show ?case by blast
qed simp

lemma run_acts_program:
  "\<lbrakk> run_acts c acts s = Some t; Signal \<notin> set acts; Cancel \<notin> set acts \<rbrakk> \<Longrightarrow> (program_step c ^^ length acts) s t"
proof (induction acts arbitrary: s)
  case (Cons a acts)
  then obtain u where u: "perform c a s = Some u" "run_acts c acts u = Some t" by (auto split: option.splits)
  then have "program_step c s u" "(program_step c ^^ length acts) u t"
    using Cons perform_program [OF u(1)] by auto
  then show ?case using relpowp_Suc_I2 [of "program_step c" s u] by simp
qed simp

definition demo_conf :: daemon_conf where
  "demo_conf = \<lparr> dc_no_cleanup = False, dc_has_cleanup = True, dc_has_watcher = True, dc_lock_result = None \<rparr>"

definition start_up :: "act list" where "start_up = replicate 8 (Main False)"

definition shut_down :: "act list" where
  "shut_down = [Handler True, Handler True] @ replicate 4 (Main False) @ [WatcherEnds] @ replicate 3 (Main False)
     @ [MainCleanupEnds] @ replicate 3 (Main False)"

definition demo_up :: dmn where "demo_up = the (run_acts demo_conf (start_up @ [Signal]) (new_daemon False))"

definition demo_down :: dmn where "demo_down = the (run_acts demo_conf shut_down demo_up)"

lemma demo_up: "run_acts demo_conf (start_up @ [Signal]) (new_daemon False) = Some demo_up"
proof -
  have "run_acts demo_conf (start_up @ [Signal]) (new_daemon False) \<noteq> None" by code_simp
  then show ?thesis by (simp add: demo_up_def)
qed

lemma demo_down: "run_acts demo_conf shut_down demo_up = Some demo_down"
proof -
  have "run_acts demo_conf shut_down demo_up \<noteq> None" by code_simp
  then show ?thesis by (simp add: demo_down_def)
qed

lemma demo_up_reachable: "daemon_reachable demo_conf demo_up"
  by (rule run_acts_reachable [OF demo_up daemon_reachable.start])

lemma demo_down_reachable: "daemon_reachable demo_conf demo_down"
  by (rule run_acts_reachable [OF demo_down demo_up_reachable])



theorem daemon_ready_trusted_witness:
  "fst (ready_handler (dm_health demo_up)) = 200 \<and> dm_state demo_up = StateRunning"
proof -
  have "fst (ready_handler (dm_health demo_up)) = 200" "\<not> early_pc (dm_handler demo_up)" by code_simp+
  with daemon_ready_trusted [OF demo_up_reachable] show ?thesis by blast
qed

theorem daemon_shutdown_terminates_witness:
  "shutdown_requested demo_up \<and> (program_step demo_conf ^^ length shut_down) demo_up demo_down \<and> length shut_down \<le> 117"
proof -
  have req: "shutdown_requested demo_up" by code_simp
  have "Signal \<notin> set shut_down" "Cancel \<notin> set shut_down" by code_simp+
  then have "(program_step demo_conf ^^ length shut_down) demo_up demo_down" by (rule run_acts_program [OF demo_down])
  with req daemon_shutdown_terminates [OF demo_up_reachable req] show ?thesis by blast
qed

text \<open>
  A signal between \<open>signal.Notify\<close> and the point where the main goroutine is ready for it takes the
  early branch, where things differ: the transitions it asks for are not in the table, so the daemon exits in the
  state \<open>starting\<close>, and the deferred release is skipped, so the PID file stays. The main goroutine goes on
  meanwhile and can report the daemon ready, with the watcher running, while the cleanup runs.
\<close>

definition early_signal :: "act list" where
  "early_signal = replicate 3 (Main False) @ [Signal] @ replicate 5 (Handler True)"

lemma early_signal_exit:
  "map_option (\<lambda>s. (dm_end s, dm_state s, dm_pid_locked s, dm_early_cleanup s))
     (run_acts demo_conf (early_signal @ [EarlyCleanupEnds] @ replicate 3 (Handler True)) (new_daemon False))
   = Some (Exited, StateStarting, True, CReturned)"
  by code_simp

lemma early_signal_ready_race:
  "map_option (\<lambda>s. (dm_early_cleanup s, fst (ready_handler (dm_health s)), dm_watcher s))
     (run_acts demo_conf (early_signal @ replicate 4 (Main False)) (new_daemon False))
   = Some (CRunning, 200, WRunning)"
  by code_simp

end
