(* ===== verification/Restart.thy ===== *)
theory Restart imports Errors begin

text \<open>
  Restarting a container runtime (\<open>internal/restart\<close>): by SIGHUP to the process behind its socket with
  retries, by \<open>systemctl\<close>, or not at all. The kernel's side of a socket conversation, the outcome of
  \<open>kill\<close> and the outcome of a command are the record \<open>restart_env\<close>; what is done is recorded as a list
  of actions.
\<close>

subsection \<open>Modes and defaults\<close>

text \<open>\<open>Mode\<close> is a string with three valid values.\<close>

type_synonym restart_mode = string

definition mode_signal :: restart_mode where "mode_signal = ''signal''"
definition mode_systemd :: restart_mode where "mode_systemd = ''systemd''"
definition mode_none :: restart_mode where "mode_none = ''none''"

definition valid_restart_modes :: "restart_mode list" where
  "valid_restart_modes = [mode_signal, mode_systemd, mode_none]"

definition mode_is_valid :: "restart_mode \<Rightarrow> bool" where
  "mode_is_valid m \<longleftrightarrow> m = mode_signal \<or> m = mode_systemd \<or> m = mode_none"

lemmas mode_defs = mode_signal_def mode_systemd_def mode_none_def

record restart_options =
  ro_mode :: restart_mode
  ro_socket :: string
  ro_host_root_mount :: string
  ro_max_retries :: int
  ro_retry_backoff :: int
  ro_timeout :: int

definition sec :: int where "sec = 1000000000"

definition default_restart_options :: restart_options where
  "default_restart_options = \<lparr> ro_mode = mode_signal, ro_socket = [], ro_host_root_mount = [],
     ro_max_retries = 3, ro_retry_backoff = 5 * sec, ro_timeout = 30 * sec \<rparr>"

record runtime_defaults =
  rd_mode :: restart_mode
  rd_socket :: string
  rd_service :: string

definition get_runtime_defaults :: "string \<Rightarrow> runtime_defaults" where
  "get_runtime_defaults r =
     (if r = ''containerd'' then \<lparr> rd_mode = mode_signal, rd_socket = ''/run/containerd/containerd.sock'', rd_service = ''containerd'' \<rparr>
      else if r = ''docker'' then \<lparr> rd_mode = mode_signal, rd_socket = ''/var/run/docker.sock'', rd_service = ''docker'' \<rparr>
      else if r = ''crio'' then \<lparr> rd_mode = mode_systemd, rd_socket = ''/var/run/crio/crio.sock'', rd_service = ''crio'' \<rparr>
      else \<lparr> rd_mode = mode_systemd, rd_socket = [], rd_service = r \<rparr>)"

subsection \<open>The world outside\<close>

text \<open>One conversation over the runtime's socket, call by call.\<close>

record conversation =
  cv_dial :: "gerr option"
  cv_is_unix :: bool
  cv_raw :: "gerr option"
  cv_control :: "gerr option"
  cv_passcred :: "errno option"
  cv_write :: "string \<Rightarrow> gerr option"
  cv_poll_control :: "gerr option"
  cv_poll :: "errno + nat"
  cv_read :: "gerr + string"
  cv_messages :: "string \<Rightarrow> gerr + string list"
  cv_credentials :: "string \<Rightarrow> gerr + int"

datatype exec_outcome = ExecOk | ExecTimedOut | ExecFailed gerr string

record restart_env =
  re_talk :: "nat \<Rightarrow> conversation"
  re_kill :: "nat \<Rightarrow> int \<Rightarrow> errno option"
  re_run :: "string list \<Rightarrow> int \<Rightarrow> exec_outcome"

datatype restart_action = Slept int | SentHup int | RanCommand "string list"

subsection \<open>The restarters\<close>

datatype restarter = SignalRestarter string nat int | SystemdRestarter string int | NoneRestarter

definition new_signal_restarter :: "restart_options \<Rightarrow> gerr + restarter" where
  "new_signal_restarter ro =
     (if ro_socket ro = [] then Inl (Msg ''socket path is required for signal restart mode'')
      else Inr (SignalRestarter (ro_socket ro)
             (if ro_max_retries ro \<le> 0 then 3 else nat (ro_max_retries ro))
             (if ro_retry_backoff ro \<le> 0 then 5 * sec else ro_retry_backoff ro)))"

text \<open>The constructor on platforms other than Linux.\<close>

definition new_signal_restarter_other :: "restart_options \<Rightarrow> gerr + restarter" where
  "new_signal_restarter_other ro = Inl (Msg ''signal restart mode is not supported on this platform'')"

definition new_systemd_restarter :: "restart_options \<Rightarrow> restarter" where
  "new_systemd_restarter ro = SystemdRestarter (ro_host_root_mount ro)
     (if ro_timeout ro \<le> 0 then 30 * sec else ro_timeout ro)"

definition new_restarter :: "restart_options \<Rightarrow> gerr + restarter" where
  "new_restarter ro =
     (if ro_mode ro = mode_signal then new_signal_restarter ro
      else if ro_mode ro = mode_systemd then Inr (new_systemd_restarter ro)
      else if ro_mode ro = mode_none then Inr NoneRestarter
      else Inl (Msg (''invalid restart mode: '' @ ro_mode ro)))"

text \<open>Docker needs an HTTP request before it answers; containerd accepts an empty message.\<close>

definition credential_request :: "string \<Rightarrow> string" where
  "credential_request r = (if r = ''docker''
     then ''GET /info HTTP/1.0'' @ [CHR 0x0D, CHR 0x0A, CHR 0x0D, CHR 0x0A] else [])"

definition fail_on :: "string \<Rightarrow> gerr option \<Rightarrow> gerr + 'a \<Rightarrow> gerr + 'a" where
  "fail_on m r k = (case r of Some e \<Rightarrow> Inl (WrapW m e) | None \<Rightarrow> k)"

text \<open>\<open>ReadMsgUnix\<close> gives at most 1024 bytes of control data.\<close>

definition get_pid :: "conversation \<Rightarrow> string \<Rightarrow> string \<Rightarrow> gerr + int" where
  "get_pid cv socket r =
     fail_on (''failed to connect to socket '' @ socket) (cv_dial cv)
    (if \<not> cv_is_unix cv then Inl (Msg ''connection is not a Unix socket'')
     else fail_on ''failed to get raw connection'' (cv_raw cv)
    (fail_on ''failed to control socket'' (cv_control cv)
    (fail_on ''failed to set SO_PASSCRED'' (map_option Sys (cv_passcred cv))
    (fail_on ''failed to write to socket'' (cv_write cv (credential_request r))
    (fail_on ''failed to poll socket'' (cv_poll_control cv)
    (case cv_poll cv of
       Inl e \<Rightarrow> Inl (WrapW ''poll failed'' (Sys e))
     | Inr n \<Rightarrow>
       if n = 0 then Inl (Msg ''timeout waiting for response from socket'')
       else (case cv_read cv of
         Inl e \<Rightarrow> Inl (WrapW ''failed to read from socket'' e)
       | Inr oob0 \<Rightarrow>
         (let oob = take 1024 oob0
          in if oob = [] then Inl (Msg ''no credential data received'')
             else case cv_messages cv oob of
               Inl e \<Rightarrow> Inl (WrapW ''failed to parse control message'' e)
             | Inr [] \<Rightarrow> Inl (Msg ''no control messages received'')
             | Inr (m # ms) \<Rightarrow> (case cv_credentials cv m of
                 Inl e \<Rightarrow> Inl (WrapW ''failed to parse credentials'' e)
               | Inr pid \<Rightarrow> Inr pid)))))))))"

text \<open>One round of the retry loop: the error of a failed one, or success, with the signal it sent.\<close>

definition signal_attempt :: "restart_env \<Rightarrow> string \<Rightarrow> string \<Rightarrow> nat \<Rightarrow> gerr option \<times> restart_action list" where
  "signal_attempt env socket r i =
     (case get_pid (re_talk env i) socket r of
        Inl e \<Rightarrow> (Some (WrapW ''failed to get PID'' e), [])
      | Inr pid \<Rightarrow> (case re_kill env i pid of
          Some e \<Rightarrow> (Some (WrapW (''failed to send SIGHUP to PID '' @ show_int pid) (Sys e)), [])
        | None \<Rightarrow> (None, [SentHup pid])))"

fun signal_loop :: "restart_env \<Rightarrow> string \<Rightarrow> int \<Rightarrow> string \<Rightarrow> nat \<Rightarrow> nat \<Rightarrow> gerr option \<Rightarrow> gerr option \<times> bool \<times> restart_action list" where
  "signal_loop env socket backoff r i 0 last_err = (last_err, False, [])"
| "signal_loop env socket backoff r i (Suc n) last_err =
     (let pause = (if 0 < i then [Slept backoff] else [])
      in case signal_attempt env socket r i of
           (None, acts) \<Rightarrow> (None, True, pause @ acts)
         | (Some e, acts) \<Rightarrow> (case signal_loop env socket backoff r (Suc i) n (Some e) of
             (res, ok, acts') \<Rightarrow> (res, ok, pause @ acts @ acts')))"

definition systemctl_command :: "string \<Rightarrow> string \<Rightarrow> string list" where
  "systemctl_command host r = (if host \<noteq> [] then [''chroot'', host, ''systemctl'', ''restart'', r]
     else [''systemctl'', ''restart'', r])"

definition signal_restart :: "restart_env \<Rightarrow> string \<Rightarrow> nat \<Rightarrow> int \<Rightarrow> string \<Rightarrow> gerr option \<times> restart_action list" where
  "signal_restart env socket n backoff r =
     (case signal_loop env socket backoff r 0 n None of
        (_, True, acts) \<Rightarrow> (None, acts)
      | (e, False, acts) \<Rightarrow> (Some (WrapW (''failed to restart '' @ r @ '' after '' @ show_nat n @ '' retries'')
            (case e of None \<Rightarrow> Msg ''<nil>'' | Some x \<Rightarrow> x)), acts))"

definition systemd_restart :: "restart_env \<Rightarrow> string \<Rightarrow> int \<Rightarrow> string \<Rightarrow> gerr option \<times> restart_action list" where
  "systemd_restart env host timeout r =
     (let cmd = systemctl_command host r
      in (case re_run env cmd timeout of
            ExecOk \<Rightarrow> None
          | ExecTimedOut \<Rightarrow> Some (Msg (''restart '' @ r @ '' timed out''))
          | ExecFailed e output \<Rightarrow> Some (WrapW (''systemctl restart '' @ r @ '' failed (output: '' @ output @ '')'') e), [RanCommand cmd]))"

text \<open>The \<open>Restarter\<close> interface, dispatched on the kind of restarter.\<close>

fun do_restart :: "restart_env \<Rightarrow> restarter \<Rightarrow> string \<Rightarrow> gerr option \<times> restart_action list" where
  "do_restart env (SignalRestarter socket n backoff) r = signal_restart env socket n backoff r"
| "do_restart env (SystemdRestarter host timeout) r = systemd_restart env host timeout r"
| "do_restart env NoneRestarter r = (None, [])"

declare signal_restart_def [simp] systemd_restart_def [simp]

definition systemd_dry_run :: "string \<Rightarrow> string \<Rightarrow> string" where
  "systemd_dry_run host r = (if host \<noteq> []
     then ''Would run: chroot '' @ host @ '' systemctl restart '' @ r else ''Would run: systemctl restart '' @ r)"

fun restart_dry_run :: "restarter \<Rightarrow> string \<Rightarrow> string" where
  "restart_dry_run (SignalRestarter socket n backoff) r = ''Would send SIGHUP to '' @ r @ '' via socket '' @ socket"
| "restart_dry_run (SystemdRestarter host timeout) r = systemd_dry_run host r"
| "restart_dry_run NoneRestarter r = ''Would skip restart for '' @ r @ '' (restart-mode=none)''"

definition skip_message :: "string \<Rightarrow> string" where
  "skip_message r = ''Restart skipped. To apply changes, manually restart '' @ r @ '':'' @ [CHR 0x0A]
     @ ''  sudo systemctl restart '' @ rd_service (get_runtime_defaults r)"

subsection \<open>Retries\<close>

definition attempt_ok :: "restart_env \<Rightarrow> string \<Rightarrow> string \<Rightarrow> nat \<Rightarrow> bool" where
  "attempt_ok env socket r i \<longleftrightarrow> fst (signal_attempt env socket r i) = None"

definition sleeps :: "restart_action list \<Rightarrow> nat" where
  "sleeps acts = length (filter (\<lambda>a. case a of Slept _ \<Rightarrow> True | _ \<Rightarrow> False) acts)"

definition hups :: "restart_action list \<Rightarrow> int list" where
  "hups acts = concat (map (\<lambda>a. case a of SentHup p \<Rightarrow> [p] | _ \<Rightarrow> []) acts)"

lemma action_counts [simp]:
  "sleeps [] = 0" "sleeps (Slept d # acts) = Suc (sleeps acts)" "sleeps (SentHup p # acts) = sleeps acts"
  "sleeps (xs @ ys) = sleeps xs + sleeps ys" "hups [] = []" "hups (Slept d # acts) = hups acts"
  "hups (SentHup p # acts) = p # hups acts" "hups (xs @ ys) = hups xs @ hups ys"
  by (simp_all add: sleeps_def hups_def)

lemma attempt_acts:
  "attempt_ok env socket r i \<Longrightarrow> \<exists>pid. get_pid (re_talk env i) socket r = Inr pid \<and> re_kill env i pid = None
     \<and> signal_attempt env socket r i = (None, [SentHup pid])"
  "\<not> attempt_ok env socket r i \<Longrightarrow> \<exists>e. signal_attempt env socket r i = (Some e, [])"
  by (auto simp: attempt_ok_def signal_attempt_def split: sum.splits option.splits)

lemma signal_loop_first:
  "\<lbrakk> \<forall>j < k. \<not> attempt_ok env socket r (i + j); attempt_ok env socket r (i + k); k < n \<rbrakk> \<Longrightarrow>
   \<exists>pid acts. get_pid (re_talk env (i + k)) socket r = Inr pid
     \<and> signal_loop env socket backoff r i n e = (None, True, acts)
     \<and> hups acts = [pid] \<and> sleeps acts = (if 0 < i then Suc k else k)"
proof (induction n arbitrary: i k e)
  case (Suc n)
  show ?case
  proof (cases k)
    case 0
    with Suc.prems(2) attempt_acts(1) [of env socket r i] show ?thesis by (auto simp: Let_def)
  next
    case (Suc k')
    then have fail: "\<not> attempt_ok env socket r i" using Suc.prems(1) by (metis add_0_right zero_less_Suc)
    have "\<forall>j < k'. \<not> attempt_ok env socket r (Suc i + j)"
      using Suc.prems(1) Suc by (metis Suc_less_eq add_Suc_right add_Suc)
    moreover obtain e1 where e1: "signal_attempt env socket r i = (Some e1, [])" using attempt_acts(2) [OF fail] by blast
    ultimately obtain pid acts where "get_pid (re_talk env (Suc i + k')) socket r = Inr pid"
      "signal_loop env socket backoff r (Suc i) n (Some e1) = (None, True, acts)" "hups acts = [pid]" "sleeps acts = Suc k'"
      using Suc.IH [of k' "Suc i" "Some e1"] Suc.prems(2,3) Suc by auto
    with e1 Suc show ?thesis by simp
  qed
qed simp

lemma signal_loop_none:
  "\<forall>j < n. \<not> attempt_ok env socket r (i + j) \<Longrightarrow>
   \<exists>e' acts. signal_loop env socket backoff r i n e = (e', False, acts) \<and> hups acts = []
     \<and> sleeps acts = (if 0 < i then n else n - 1) \<and> (0 < n \<longrightarrow> e' \<noteq> None)"
proof (induction n arbitrary: i e)
  case (Suc n)
  have fail: "\<not> attempt_ok env socket r i" using Suc.prems by (metis add_0_right zero_less_Suc)
  have "\<forall>j < n. \<not> attempt_ok env socket r (Suc i + j)" using Suc.prems by (metis Suc_less_eq add_Suc_right add_Suc)
  moreover obtain e1 where e1: "signal_attempt env socket r i = (Some e1, [])" using attempt_acts(2) [OF fail] by blast
  ultimately obtain e' acts where "signal_loop env socket backoff r (Suc i) n (Some e1) = (e', False, acts)"
    "hups acts = []" "sleeps acts = n" "0 < n \<longrightarrow> e' \<noteq> None" using Suc.IH [of "Suc i" "Some e1"] by auto
  with e1 show ?case by (cases n) auto
qed simp

text \<open>
  C34: A restart by signal stops at the first attempt that finds the runtime's PID and can signal it: that
  process gets one SIGHUP and nobody else any, with one pause before each attempt but the first.
  When no attempt succeeds nothing was signalled, all of them were made, and the error is reported.
\<close>

theorem signal_restart_exact:
  "(\<forall>k < n. attempt_ok env socket r k \<longrightarrow> (\<forall>j < k. \<not> attempt_ok env socket r j) \<longrightarrow>
       (\<exists>pid acts. do_restart env (SignalRestarter socket n backoff) r = (None, acts)
          \<and> get_pid (re_talk env k) socket r = Inr pid \<and> hups acts = [pid] \<and> sleeps acts = k))
   \<and> ((\<forall>k < n. \<not> attempt_ok env socket r k) \<longrightarrow>
       (\<exists>e acts. do_restart env (SignalRestarter socket n backoff) r = (Some e, acts) \<and> hups acts = [] \<and> sleeps acts = n - 1))"
proof (intro conjI allI impI)
  fix k assume "k < n" "attempt_ok env socket r k" "\<forall>j < k. \<not> attempt_ok env socket r j"
  with signal_loop_first [of k env socket r 0 n backoff None]
  show "\<exists>pid acts. do_restart env (SignalRestarter socket n backoff) r = (None, acts)
      \<and> get_pid (re_talk env k) socket r = Inr pid \<and> hups acts = [pid] \<and> sleeps acts = k" by auto
next
  assume "\<forall>k < n. \<not> attempt_ok env socket r k"
  with signal_loop_none [of n env socket r 0 backoff None]
  show "\<exists>e acts. do_restart env (SignalRestarter socket n backoff) r = (Some e, acts) \<and> hups acts = [] \<and> sleeps acts = n - 1"
    by auto
qed

definition demo_talk :: "nat \<Rightarrow> conversation" where
  "demo_talk i = \<lparr> cv_dial = (if i = 0 then Some (Sys ENOENT) else None), cv_is_unix = True, cv_raw = None, cv_control = None,
     cv_passcred = None, cv_write = \<lambda>_. None, cv_poll_control = None, cv_poll = Inr 1, cv_read = Inr ''cred'',
     cv_messages = \<lambda>x. Inr [x], cv_credentials = \<lambda>x. Inr 4711 \<rparr>"

definition demo_restart_env :: restart_env where
  "demo_restart_env = \<lparr> re_talk = demo_talk, re_kill = \<lambda>i p. None, re_run = \<lambda>c t. ExecOk \<rparr>"

theorem signal_restart_exact_witness:
  "\<exists>acts. do_restart demo_restart_env (SignalRestarter ''/run/x.sock'' 3 5) ''containerd'' = (None, acts)
     \<and> hups acts = [4711] \<and> sleeps acts = 1"
proof -
  have "\<not> attempt_ok demo_restart_env ''/run/x.sock'' ''containerd'' 0" "attempt_ok demo_restart_env ''/run/x.sock'' ''containerd'' 1"
    "get_pid (re_talk demo_restart_env 1) ''/run/x.sock'' ''containerd'' = Inr 4711" by code_simp+
  then show ?thesis
    using signal_restart_exact [of 3 demo_restart_env "''/run/x.sock''" "''containerd''" 5, THEN conjunct1, rule_format, of 1] by auto
qed

end
