(* ===== verification/Installer.thy ===== *)
theory Installer imports Cdi_Setup Runtime_Configure Restart begin

text \<open>
  The installer (\<open>internal/installer\<close>): \<open>Setup\<close> configures the runtime, generates the specifications and
  restarts the runtime; \<open>Cleanup\<close> removes, reverts and restarts; both hold the PID-file lock of
  \<open>lock.go\<close> meanwhile. The interleaving of several installers on that file is the protocol of \<open>Pid_Lock\<close>.
  What a step does to the runtime is the list of restart actions; the log lines are kept for the dry
  runs, whose result they are.
\<close>

subsection \<open>The lock\<close>

definition lock_release :: "string \<Rightarrow> os \<Rightarrow> gerr option \<times> os" where
  "lock_release path s =
     (case query (\<lambda>_. Inr ()) s of
        (Inl e, s1) \<Rightarrow> (Some (WrapW ''failed to close PID file'' (Sys e)), s1)
      | (Inr _, s1) \<Rightarrow> (case effect (fs_remove path) s1 of
          (Inl e, s2) \<Rightarrow> (if is_not_exist e then None else Some (WrapW ''failed to remove PID file'' (Sys e)), s2)
        | (Inr _, s2) \<Rightarrow> (None, s2)))"

text \<open>\<open>locked\<close> says which files another process holds the lock of.\<close>

definition lock_acquire :: "(string list \<Rightarrow> bool) \<Rightarrow> nat \<Rightarrow> string \<Rightarrow> os \<Rightarrow> gerr option \<times> os" where
  "lock_acquire locked pid path s =
     (case effect (fs_mkdir_all (path_dir path)) s of
        (Inl e, s1) \<Rightarrow> (Some (WrapW (''failed to create directory '' @ path_dir path) (Sys e)), s1)
      | (Inr _, s1) \<Rightarrow> (case effect (fs_open_create path 0x180) s1 of
          (Inl e, s2) \<Rightarrow> (Some (WrapW (''failed to open PID file '' @ path) (Sys e)), s2)
        | (Inr k, s2) \<Rightarrow>
            if locked k then (Some (AlreadyRunning path), s2)
            else (case effect (fd_truncate k) s2 of
                (Inl e, s3) \<Rightarrow> (Some (WrapW ''failed to truncate PID file'' (Sys e)), snd (lock_release path s3))
              | (Inr _, s3) \<Rightarrow> (case effect (fd_append k (show_nat pid @ [newline])) s3 of
                  (Inl e, s4) \<Rightarrow> (Some (WrapW ''failed to write PID'' (Sys e)), snd (lock_release path s4))
                | (Inr _, s4) \<Rightarrow> (None, s4)))))"

definition is_already_running :: "gerr \<Rightarrow> bool" where
  "is_already_running e = (case e of AlreadyRunning _ \<Rightarrow> True | _ \<Rightarrow> False)"

subsection \<open>Options and paths\<close>

record install_options =
  io_runtime :: string
  io_restart_mode :: restart_mode
  io_socket :: string
  io_host_root_mount :: string
  io_cdi_spec_dir :: string
  io_config_path :: string
  io_pid_file :: string
  io_dry_run :: bool

record install_env =
  ie_setup :: setup_env
  ie_codecs :: codecs
  ie_restart :: restart_env
  ie_locked :: "string list \<Rightarrow> bool"
  ie_pid :: nat

definition validate_config_path_override :: "string \<Rightarrow> gerr option" where
  "validate_config_path_override p =
     (if p = [] then None else if \<not> is_abs p then Some (Msg (''config path override must be absolute: '' @ p)) else None)"

definition get_config_path :: "string \<Rightarrow> string \<Rightarrow> string \<Rightarrow> string" where
  "get_config_path name host override =
     (if override \<noteq> [] then override
      else let p = (if name = ''docker'' then ''/etc/docker/daemon.json''
                    else if name = ''containerd'' then ''/etc/containerd/config.toml''
                    else if name = ''crio'' then ''/etc/crio/crio.conf.d/99-rbln.conf''
                    else ''/etc/'' @ name @ ''/config'')
           in if host \<noteq> [] then path_join [host, p] else p)"

text \<open>What both operations compute before they do anything: defaults, checks and paths.\<close>

record resolved =
  rv_mode :: restart_mode
  rv_config_path :: string
  rv_socket_path :: string
  rv_spec_dir :: string
  rv_service :: string

definition resolve_install :: "install_options \<Rightarrow> gerr + resolved" where
  "resolve_install opt =
     (let defaults = get_runtime_defaults (io_runtime opt);
          mode = (if io_restart_mode opt = [] then rd_mode defaults else io_restart_mode opt);
          socket = (if io_socket opt = [] then rd_socket defaults else io_socket opt);
          host = io_host_root_mount opt
      in if io_runtime opt = ''crio'' \<and> mode = mode_signal
         then Inl (Msg ''signal restart mode is not supported for CRI-O, use systemd or none'')
         else case validate_config_path_override (io_config_path opt) of
           Some e \<Rightarrow> Inl e
         | None \<Rightarrow>
             (let user_provided = (socket \<noteq> [])
              in Inr \<lparr> rv_mode = mode,
                   rv_config_path = get_config_path (io_runtime opt) host (io_config_path opt),
                   rv_socket_path = (if host \<noteq> [] \<and> \<not> user_provided then path_join [host, socket] else socket),
                   rv_spec_dir = (if host \<noteq> [] then path_join [host, io_cdi_spec_dir opt] else io_cdi_spec_dir opt),
                   rv_service = rd_service defaults \<rparr>))"

definition restart_options_of :: "install_options \<Rightarrow> resolved \<Rightarrow> int \<Rightarrow> int \<Rightarrow> int \<Rightarrow> restart_options" where
  "restart_options_of opt rv retries backoff timeout = \<lparr> ro_mode = rv_mode rv, ro_socket = rv_socket_path rv,
     ro_host_root_mount = io_host_root_mount opt, ro_max_retries = retries, ro_retry_backoff = backoff, ro_timeout = timeout \<rparr>"

subsection \<open>The steps\<close>

definition installer_runtime :: "string \<Rightarrow> gerr + runtime_type" where
  "installer_runtime name =
     (if name = ''docker'' then Inr RuntimeDocker else if name = ''containerd'' then Inr RuntimeContainerd
      else if name = ''crio'' then Inr RuntimeCRIO else Inl (Msg (''unsupported runtime: '' @ name)))"

definition configure_runtime :: "codecs \<Rightarrow> string \<Rightarrow> string \<Rightarrow> os \<Rightarrow> gerr option \<times> os" where
  "configure_runtime cd name p s = (case installer_runtime name of
      Inl e \<Rightarrow> (Some e, s)
    | Inr rt \<Rightarrow> configure cd rt (if p = [] then default_config_path rt else p) s)"

definition revert_runtime_config :: "codecs \<Rightarrow> string \<Rightarrow> string \<Rightarrow> os \<Rightarrow> gerr option \<times> os" where
  "revert_runtime_config cd name p s = (case installer_runtime name of
      Inl e \<Rightarrow> (Some e, s)
    | Inr rt \<Rightarrow> revert cd rt p s)"

definition remove_cdi_spec :: "string \<Rightarrow> os \<Rightarrow> errno option \<times> os" where
  "remove_cdi_spec p s = (case effect (fs_remove p) s of
      (Inl e, s1) \<Rightarrow> (if is_not_exist e then None else Some e, s1) | (Inr _, s1) \<Rightarrow> (None, s1))"

definition install_config :: "string \<Rightarrow> config" where
  "install_config host =
     (let cfg = (if host \<noteq> [] then default_config\<lparr> driver_root := host \<rparr> else default_config)
      in cfg\<lparr> host_root := host \<rparr>)"

definition install_discovery :: "setup_env \<Rightarrow> config \<Rightarrow> fs \<Rightarrow> gerr + discovery_result" where
  "install_discovery env cfg fs =
     (let ld = default_library_discoverer env fs cfg
      in case ld_rbln ld of
           Inl e \<Rightarrow> Inl (WrapW ''failed to discover RBLN libraries'' e)
         | Inr rbln \<Rightarrow>
             (let deps = (case ld_dependencies ld rbln of Inl e \<Rightarrow> [] | Inr d \<Rightarrow> d)
              in Inr \<lparr> dr_libraries = rbln @ deps, dr_rdma = [], dr_tools = tool_discover fs cfg, dr_devices = [] \<rparr>))"

definition generate_rds_install :: "setup_env \<Rightarrow> config \<Rightarrow> string \<Rightarrow> generator \<Rightarrow> os \<Rightarrow> gerr option \<times> os" where
  "generate_rds_install env cfg dir g s =
     (let out = path_join [dir, ''rbln-rds.yaml'']
      in if rds_patterns (rds cfg) = [] then (None, s)
         else case device_discover (nodes s) (cfg\<lparr>devices := \<lparr> dev_patterns = rds_patterns (rds cfg), dev_disabled = False \<rparr>\<rparr>) of
           Inl e \<Rightarrow> (Some (WrapW ''failed to discover RDS devices'' e), s)
         | Inr ds \<Rightarrow> (case generate_rds g (Some (empty_result\<lparr>dr_devices := ds\<rparr>)) of
             None \<Rightarrow> (case remove_cdi_spec out s of
                 (Some e, s1) \<Rightarrow> (Some (WrapW ''failed to remove stale RDS spec'' (Sys e)), s1)
               | (None, s1) \<Rightarrow> (None, s1))
           | Some spec \<Rightarrow> (case write_spec (se_marshal env) (se_pieces env) (se_suffixes env) (Some spec) out ''yaml'' s of
                 (Some e, s1) \<Rightarrow> (Some (WrapW ''failed to write RDS CDI spec'' e), s1)
               | (None, s1) \<Rightarrow> (None, s1))))"

definition install_generate :: "setup_env \<Rightarrow> string \<Rightarrow> string \<Rightarrow> os \<Rightarrow> gerr option \<times> os" where
  "install_generate env dir host s =
     (case effect (fs_mkdir_all dir) s of
        (Inl e, s1) \<Rightarrow> (Some (WrapW ''failed to create CDI spec directory'' (Sys e)), s1)
      | (Inr _, s1) \<Rightarrow>
          (let cfg = install_config host
           in case install_discovery env cfg (nodes s1) of
                Inl e \<Rightarrow> (Some e, s1)
              | Inr result \<Rightarrow>
                  (let g = new_generator cfg None (read_soname (se_soname env)) (link_exists (nodes s1))
                   in case write_spec (se_marshal env) (se_pieces env) (se_suffixes env)
                            (Some (generate g (Some result))) (path_join [dir, ''rbln.yaml'']) ''yaml'' s1 of
                        (Some e, s2) \<Rightarrow> (Some (WrapW ''failed to write CDI spec'' e), s2)
                      | (None, s2) \<Rightarrow> (case generate_rds_install env cfg dir g s2 of
                          (Some e, s3) \<Rightarrow> (Some (WrapW ''failed to generate RDS CDI spec'' e), s3)
                        | (None, s3) \<Rightarrow> (None, s3)))))"

text \<open>The restart both operations end with.\<close>

definition install_restart :: "restart_env \<Rightarrow> install_options \<Rightarrow> resolved \<Rightarrow> gerr option \<times> restart_action list" where
  "install_restart env opt rv =
     (if rv_mode rv = mode_none then (None, [])
      else case new_restarter (restart_options_of opt rv 3 (5 * sec) (30 * sec)) of
        Inl e \<Rightarrow> (Some (WrapW ''failed to create restarter'' e), [])
      | Inr r \<Rightarrow> (case do_restart env r (io_runtime opt) of
          (Some e, acts) \<Rightarrow> (Some (RestartFailed (io_runtime opt) (rv_service rv) e), acts)
        | (None, acts) \<Rightarrow> (None, acts)))"

definition dry_run_restart :: "install_options \<Rightarrow> resolved \<Rightarrow> gerr + string list" where
  "dry_run_restart opt rv =
     (if rv_mode rv = mode_none then Inr [''  3. Skip restart (restart-mode=none)'']
      else case new_restarter (restart_options_of opt rv 0 0 0) of
        Inl e \<Rightarrow> Inl e
      | Inr r \<Rightarrow> Inr [''  3. '' @ restart_dry_run r (rv_service rv)])"

definition dry_run_setup :: "install_options \<Rightarrow> resolved \<Rightarrow> gerr option \<times> string list" where
  "dry_run_setup opt rv =
     (let l = [''[DRY-RUN] Would perform the following actions:'',
               ''  1. Configure '' @ io_runtime opt @ '' at '' @ rv_config_path rv,
               ''  2. Generate CDI spec at '' @ rv_spec_dir rv @ ''/rbln.yaml (and rbln-rds.yaml on RDS-capable hosts)'']
      in case dry_run_restart opt rv of Inl e \<Rightarrow> (Some e, l) | Inr l' \<Rightarrow> (None, l @ l'))"

definition dry_run_cleanup :: "install_options \<Rightarrow> resolved \<Rightarrow> gerr option \<times> string list" where
  "dry_run_cleanup opt rv =
     (let l = [''[DRY-RUN] Would perform the following actions:'',
               ''  1. Remove CDI specs at '' @ path_join [rv_spec_dir rv, ''rbln.yaml''] @ '' and '' @ path_join [rv_spec_dir rv, ''rbln-rds.yaml''],
               ''  2. Revert '' @ io_runtime opt @ '' configuration at '' @ rv_config_path rv]
      in case dry_run_restart opt rv of Inl e \<Rightarrow> (Some e, l) | Inr l' \<Rightarrow> (None, l @ l'))"

subsection \<open>Setup and Cleanup\<close>

definition setup_body :: "install_env \<Rightarrow> install_options \<Rightarrow> resolved \<Rightarrow> os \<Rightarrow> gerr option \<times> os \<times> restart_action list" where
  "setup_body env opt rv s =
     (case configure_runtime (ie_codecs env) (io_runtime opt) (rv_config_path rv) s of
        (Some e, s1) \<Rightarrow> (Some (WrapW (''failed to configure '' @ io_runtime opt) e), s1, [])
      | (None, s1) \<Rightarrow> (case install_generate (ie_setup env) (rv_spec_dir rv) (io_host_root_mount opt) s1 of
          (Some e, s2) \<Rightarrow> (Some (WrapW ''failed to generate CDI spec'' e), s2, [])
        | (None, s2) \<Rightarrow> (case install_restart (ie_restart env) opt rv of (r, acts) \<Rightarrow> (r, s2, acts))))"

definition cleanup_body :: "install_env \<Rightarrow> install_options \<Rightarrow> resolved \<Rightarrow> os \<Rightarrow> gerr option \<times> os \<times> restart_action list" where
  "cleanup_body env opt rv s =
     (case remove_cdi_spec (path_join [rv_spec_dir rv, ''rbln.yaml'']) s of (_, s1) \<Rightarrow>
      case remove_cdi_spec (path_join [rv_spec_dir rv, ''rbln-rds.yaml'']) s1 of (_, s2) \<Rightarrow>
      case revert_runtime_config (ie_codecs env) (io_runtime opt) (rv_config_path rv) s2 of (_, s3) \<Rightarrow>
      case install_restart (ie_restart env) opt rv of (r, acts) \<Rightarrow> (r, s3, acts))"

text \<open>The lock is released by a deferred call, whose error is dropped, on every way out.\<close>

definition locked_run ::
  "install_env \<Rightarrow> install_options \<Rightarrow> (os \<Rightarrow> gerr option \<times> os \<times> restart_action list) \<Rightarrow> os
   \<Rightarrow> gerr option \<times> os \<times> restart_action list" where
  "locked_run env opt body s =
     (case lock_acquire (ie_locked env) (ie_pid env) (io_pid_file opt) s of
        (Some e, s1) \<Rightarrow> (Some e, s1, [])
      | (None, s1) \<Rightarrow> (case body s1 of (r, s2, acts) \<Rightarrow> (r, snd (lock_release (io_pid_file opt) s2), acts)))"

definition install_setup :: "install_env \<Rightarrow> install_options \<Rightarrow> os \<Rightarrow> gerr option \<times> os \<times> restart_action list" where
  "install_setup env opt s = (case resolve_install opt of
      Inl e \<Rightarrow> (Some e, s, [])
    | Inr rv \<Rightarrow> if io_dry_run opt then (fst (dry_run_setup opt rv), s, []) else locked_run env opt (setup_body env opt rv) s)"

definition install_cleanup :: "install_env \<Rightarrow> install_options \<Rightarrow> os \<Rightarrow> gerr option \<times> os \<times> restart_action list" where
  "install_cleanup env opt s = (case resolve_install opt of
      Inl e \<Rightarrow> (Some e, s, [])
    | Inr rv \<Rightarrow> if io_dry_run opt then (fst (dry_run_cleanup opt rv), s, []) else locked_run env opt (cleanup_body env opt rv) s)"

subsection \<open>Refusal\<close>

lemma open_create_extends: "extends (nodes b) fs \<Longrightarrow> extends (nodes b) (snd (fs_open_create p perm fs))"
  by (auto simp: fs_open_create_def extends_set_new split: sum.split option.split node.split)

lemma effect_extends:
  assumes "effect f s = (r, s')" "extends base (nodes s)" "\<And>fs. extends base fs \<Longrightarrow> extends base (snd (f fs))"
  shows "extends base (nodes s')"
  using assms by (cases rule: effect_cases [of f s]) (auto, metis snd_conv)

lemma lock_refused:
  assumes "lock_acquire locked pid path s = (Some (AlreadyRunning p), s')"
  shows "extends (nodes s) (nodes s')"
proof -
  obtain s1 k where m: "effect (fs_mkdir_all (path_dir path)) s = (Inr (), s1)" and o: "effect (fs_open_create path 0x180) s1 = (Inr k, s')"
    using assms by (auto simp: lock_acquire_def split: prod.splits sum.splits if_splits)
  have "extends (nodes s) (nodes s1)"
    by (rule effect_extends [OF m]) (simp_all add: fs_mkdir_all_def mkdir_each_extends)
  then show ?thesis by (rule effect_extends [OF o]) (rule open_create_extends)
qed

subsection \<open>The order of the steps\<close>

lemma do_restart_ok: "do_restart env r name = (None, acts) \<Longrightarrow> r = NoneRestarter \<or> acts \<noteq> []"
proof (cases r)
  case (SignalRestarter socket n backoff)
  assume ok: "do_restart env r name = (None, acts)"
  show ?thesis
  proof (cases "\<exists>k < n. attempt_ok env socket name k")
    case True
    then obtain k where k: "k < n \<and> attempt_ok env socket name k" and "\<forall>j < k. \<not> (j < n \<and> attempt_ok env socket name j)"
      using exists_least_iff [of "\<lambda>k. k < n \<and> attempt_ok env socket name k"] by blast
    then have "\<forall>j < k. \<not> attempt_ok env socket name j" by auto
    with k signal_loop_first [of k env socket name 0 n backoff None] ok SignalRestarter show ?thesis by auto
  next
    case False
    with signal_loop_none [of n env socket name 0 backoff None] ok SignalRestarter show ?thesis by auto
  qed
qed (auto simp: Let_def split: exec_outcome.splits)

lemma install_restart_result:
  assumes "install_restart env opt rv = (r, acts)"
  shows "r = None \<Longrightarrow> rv_mode rv = mode_none \<or> acts \<noteq> []" "r \<noteq> Some (AlreadyRunning p)"
  using assms do_restart_ok
  by (auto simp: install_restart_def new_restarter_def new_signal_restarter_def new_systemd_restarter_def restart_options_of_def
      split: if_splits sum.splits prod.splits option.splits simp del: do_restart.simps)

text \<open>The stages of a setup that gets as far as its restart.\<close>

definition setup_stages :: "install_env \<Rightarrow> install_options \<Rightarrow> resolved \<Rightarrow> os \<Rightarrow> os \<Rightarrow> bool" where
  "setup_stages env opt rv s s' \<longleftrightarrow> (\<exists>s1 s2 s3.
     lock_acquire (ie_locked env) (ie_pid env) (io_pid_file opt) s = (None, s1)
     \<and> configure_runtime (ie_codecs env) (io_runtime opt) (rv_config_path rv) s1 = (None, s2)
     \<and> install_generate (ie_setup env) (rv_spec_dir rv) (io_host_root_mount opt) s2 = (None, s3)
     \<and> s' = snd (lock_release (io_pid_file opt) s3))"

lemma setup_body_cases:
  assumes "setup_body env opt rv s = (r, s3, acts)"
  obtains (failed) m e where "r = Some (WrapW m e)" "acts = []"
  | (restarted) s2 where "configure_runtime (ie_codecs env) (io_runtime opt) (rv_config_path rv) s = (None, s2)"
      "install_generate (ie_setup env) (rv_spec_dir rv) (io_host_root_mount opt) s2 = (None, s3)"
      "install_restart (ie_restart env) opt rv = (r, acts)"
  using assms by (auto simp: setup_body_def split: prod.splits option.splits)

text \<open>
  C33: The installer changes nothing it should not: a dry run touches nothing; an installer that finds the
  lock taken keeps every file as it is and restarts nothing; a runtime is restarted only after its
  configuration was written and its specifications were generated, both without an error; and a setup without error
  did all of that and restarted the runtime unless it was told not to.
\<close>

theorem setup_in_order:
  assumes "install_setup env opt s = (r, s', acts)"
  shows "(io_dry_run opt \<longrightarrow> s' = s \<and> acts = [])
    \<and> (\<forall>p. r = Some (AlreadyRunning p) \<longrightarrow> extends (nodes s) (nodes s') \<and> acts = [])
    \<and> (acts \<noteq> [] \<longrightarrow> (\<exists>rv. resolve_install opt = Inr rv \<and> setup_stages env opt rv s s'))
    \<and> (r = None \<and> \<not> io_dry_run opt \<longrightarrow>
        (\<exists>rv. resolve_install opt = Inr rv \<and> setup_stages env opt rv s s' \<and> (rv_mode rv = mode_none \<or> acts \<noteq> [])))"
proof (cases "resolve_install opt")
  case (Inl e)
  with assms show ?thesis by (auto simp: install_setup_def)
next
  case (Inr rv)
  show ?thesis
  proof (cases "io_dry_run opt")
    case True
    with Inr assms show ?thesis by (auto simp: install_setup_def)
  next
    case False
    obtain l s1 where l: "lock_acquire (ie_locked env) (ie_pid env) (io_pid_file opt) s = (l, s1)" by fastforce
    obtain r2 s3 acts2 where b: "setup_body env opt rv s1 = (r2, s3, acts2)" by (metis prod_cases3)
    show ?thesis
    proof (cases l)
      case (Some e)
      then have "r = Some e" "s' = s1" "acts = []" using assms Inr False l by (simp_all add: install_setup_def locked_run_def)
      with Some l lock_refused show ?thesis using False by blast
    next
      case None
      then have r: "r = r2" "s' = snd (lock_release (io_pid_file opt) s3)" "acts = acts2"
        using assms Inr False l b by (simp_all add: install_setup_def locked_run_def)
      from b show ?thesis
      proof (cases rule: setup_body_cases)
        case (failed m e)
        then show ?thesis using r False by simp
      next
        case (restarted s2)
        then have "setup_stages env opt rv s s'" using l None r(2) unfolding setup_stages_def by blast
        with install_restart_result [OF restarted(3)] Inr r False show ?thesis by auto
      qed
    qed
  qed
qed

text \<open>Cleanup goes on whatever fails: its result is that of the restart alone.\<close>

lemma cleanup_best_effort:
  assumes "resolve_install opt = Inr rv" "\<not> io_dry_run opt"
    and "lock_acquire (ie_locked env) (ie_pid env) (io_pid_file opt) s = (None, s1)"
  shows "\<exists>s'. install_cleanup env opt s = (fst (install_restart (ie_restart env) opt rv), s', snd (install_restart (ie_restart env) opt rv))"
  using assms by (simp add: install_cleanup_def locked_run_def cleanup_body_def split: prod.split)

text \<open>
  The default socket of a runtime is filled in before the test whether the user gave one, so the
  host root is never put in front of it.
\<close>

lemma default_socket_not_prefixed:
  "\<lbrakk> resolve_install opt = Inr rv; io_socket opt = []; io_runtime opt = ''containerd'' \<rbrakk> \<Longrightarrow>
   rv_socket_path rv = ''/run/containerd/containerd.sock''"
  by (auto simp: resolve_install_def get_runtime_defaults_def Let_def split: if_splits option.splits)

text \<open>
  The installer discovers no devices besides the RDS one, so the entries of its NPU specification
  are empty: selecting one gives a container no device node.
\<close>

lemma install_spec_no_nodes:
  assumes "install_discovery env (install_config host) fs = Inr result"
  shows "map cd_edits (sp_devices (generate (new_generator (install_config host) None soname link) (Some result))) = [no_edits, no_edits]"
proof (rule generate_no_devices_empty_entries)
  show "\<not> dev_disabled (devices (g_cfg (new_generator (install_config host) None soname link)))"
    by (simp add: new_generator_def install_config_def Let_def)
  have "dr_devices result = []" using assms by (auto simp: install_discovery_def Let_def split: sum.splits)
  then show "\<forall>d \<in> set (dr_devices result). parse_device_class d \<notin> {ClassRBLN, ClassRSD}" by simp
qed

subsection \<open>A run\<close>

definition demo_install :: install_options where
  "demo_install = \<lparr> io_runtime = ''docker'', io_restart_mode = mode_systemd, io_socket = [], io_host_root_mount = [],
     io_cdi_spec_dir = ''/cdi'', io_config_path = ''/etc/daemon.json'', io_pid_file = ''/p'', io_dry_run = False \<rparr>"

definition demo_install_env :: install_env where
  "demo_install_env = \<lparr> ie_setup = demo_env, ie_codecs = demo_codecs, ie_restart = demo_restart_env,
     ie_locked = \<lambda>k. k = [''taken''], ie_pid = 42 \<rparr>"

lemma demo_install_run:
  "(case install_setup demo_install_env demo_install demo_config_os of (r, s', acts) \<Rightarrow> (r, acts))
     = (None, [RanCommand [''systemctl'', ''restart'', ''docker'']])"
  by code_simp

theorem setup_in_order_witness:
  "\<exists>s' rv. install_setup demo_install_env demo_install demo_config_os = (None, s', [RanCommand [''systemctl'', ''restart'', ''docker'']])
     \<and> resolve_install demo_install = Inr rv \<and> setup_stages demo_install_env demo_install rv demo_config_os s'"
proof -
  obtain s' where s': "install_setup demo_install_env demo_install demo_config_os = (None, s', [RanCommand [''systemctl'', ''restart'', ''docker'']])"
    using demo_install_run by (auto split: prod.splits)
  from setup_in_order [OF this] s' show ?thesis by auto
qed

end
