(* ===== verification/Daemon_Cmd.thy ===== *)
theory Daemon_Cmd imports Installer Daemon begin

text \<open>
  The daemon's command (\<open>cmd/rbln-ctk-daemon\<close>): the options, the detection of host root and runtime, the
  set-up that is run before the daemon's loop, the watcher's callback, the cleanup at the end, and the
  \<open>runtime\<close> subcommands in front of the installer. A set-up may be run again and again on one host;
  the central result is that a host that was configured once is not configured or restarted again.
\<close>

subsection \<open>Runtimes and roots\<close>

definition is_kubernetes_runtime :: "runtime_type \<Rightarrow> bool" where
  "is_kubernetes_runtime rt \<longleftrightarrow> rt = RuntimeContainerd \<or> rt = RuntimeCRIO"

definition detect_host_root :: "fs \<Rightarrow> string \<Rightarrow> string" where
  "detect_host_root fs flag = (if flag \<noteq> [] then flag
     else case fs_stat fs ''/host'' of Inr _ \<Rightarrow> ''/host'' | Inl _ \<Rightarrow> ''/'')"

definition build_detect_options :: "string \<Rightarrow> (sockets \<times> string) option" where
  "build_detect_options socket =
     (if socket = [] then None
      else Some (if str_contains socket ''containerd'' then default_sockets\<lparr> containerd_socket := socket \<rparr>
                 else if str_contains socket ''crio'' then default_sockets\<lparr> crio_socket := socket \<rparr>
                 else if str_contains socket ''docker'' then default_sockets\<lparr> docker_socket := socket \<rparr>
                 else default_sockets, []))"

definition has_host :: "string \<Rightarrow> bool" where
  "has_host host \<longleftrightarrow> host \<noteq> ''/'' \<and> host \<noteq> []"

definition daemon_config_path :: "runtime_type \<Rightarrow> string \<Rightarrow> string \<Rightarrow> string" where
  "daemon_config_path rt host override =
     (if override \<noteq> [] then override
      else if has_host host then path_join [host, default_config_path rt] else default_config_path rt)"

definition join_search_prefix :: "string \<Rightarrow> string \<Rightarrow> string" where
  "join_search_prefix host driver =
     (let d = trim_prefix driver ''/''
      in if d = [] then host else if host = [] \<or> host = ''/'' then ''/'' @ d else path_join [host, d])"

definition reroot_under :: "string \<Rightarrow> string \<Rightarrow> string" where
  "reroot_under prefix p = path_join [prefix, trim_prefix p ''/'']"

definition refresh_lib_dirs :: "config \<Rightarrow> string \<Rightarrow> string \<Rightarrow> string list" where
  "refresh_lib_dirs base host driver =
     (let dirs = search_libraries (search_paths base); prefix = join_search_prefix host driver
      in if prefix = [] \<or> prefix = ''/'' then dirs else map (reroot_under prefix) dirs)"

subsection \<open>Generating the specifications\<close>

record daemon_env =
  de_setup :: setup_env
  de_codecs :: codecs
  de_commands :: command_runner
  de_restart :: restart_env
  de_decode :: "string \<Rightarrow> config \<Rightarrow> config option"
  de_getenv :: "string \<Rightarrow> string"
  de_chunks :: "string \<Rightarrow> string list"

text \<open>The base is \<open>config.LoadDefault\<close>.\<close>

definition regenerate_config :: "config \<Rightarrow> runtime_type \<Rightarrow> string \<Rightarrow> string \<Rightarrow> string \<Rightarrow> config" where
  "regenerate_config base rt host driver clp =
     (let c1 = base\<lparr> driver_root := driver, host_root := host \<rparr>;
          c2 = (if has_host host then c1\<lparr> search_root := join_search_prefix host driver \<rparr> else c1);
          c3 = (if clp \<noteq> [] then c2\<lparr> libraries := (libraries c2)\<lparr> container_path := clp \<rparr> \<rparr> else c2)
      in if is_kubernetes_runtime rt then c3\<lparr> devices := (devices c3)\<lparr> dev_disabled := True \<rparr> \<rparr> else c3)"

definition daemon_setup_options :: "config \<Rightarrow> string \<Rightarrow> setup_options" where
  "daemon_setup_options cfg dir = \<lparr> so_config = Some cfg, so_output_path = dir @ ''/rbln.yaml'',
     so_rds_output_path = dir @ ''/rbln-rds.yaml'', so_format = ''yaml'', so_error_mode = ErrorModeLenient,
     so_library_discoverer = None, so_tool_discoverer = None, so_device_discoverer = None,
     so_rds_device_discoverer = None, so_resolver = None, so_logger = True \<rparr>"

record daemon_opts =
  do_cdi_dir :: string
  do_host_root :: string
  do_driver_root :: string
  do_library_path :: string
  do_socket :: string
  do_config_path :: string

definition regenerate_cdi_spec :: "daemon_env \<Rightarrow> runtime_type \<Rightarrow> daemon_opts \<Rightarrow> os \<Rightarrow> gerr option \<times> os" where
  "regenerate_cdi_spec env rt d s =
     (let base = load_default (de_decode env) (nodes s) (de_getenv env);
          cfg = regenerate_config base rt (do_host_root d) (do_driver_root d) (do_library_path d)
      in case effect (fs_mkdir_all (do_cdi_dir d)) s of
           (Inl e, s1) \<Rightarrow> (Some (WrapW ''create CDI dir'' (Sys e)), s1)
         | (Inr _, s1) \<Rightarrow> (case generate_cdi_spec (de_setup env) (Some (daemon_setup_options cfg (do_cdi_dir d))) s1 of
             (Some e, s2, _) \<Rightarrow> (Some (WrapW ''generate CDI spec'' e), s2)
           | (None, s2, _) \<Rightarrow> (None, s2)))"

text \<open>The callback of the watcher; its context may be cancelled already.\<close>

definition refresh_on_change ::
  "daemon_env \<Rightarrow> runtime_type \<Rightarrow> daemon_opts \<Rightarrow> gerr option \<Rightarrow> os \<Rightarrow> gerr option \<times> os" where
  "refresh_on_change env rt d ctx_err s = (case ctx_err of
      Some e \<Rightarrow> (Some e, s)
    | None \<Rightarrow> regenerate_cdi_spec env rt d s)"

definition build_refresh_watcher :: "int \<Rightarrow> watcher option" where
  "build_refresh_watcher interval = (if interval \<le> 0 then None
     else new_watcher \<lparr> wo_interval = interval, wo_probe = True, wo_on_change = True \<rparr>)"

subsection \<open>The hook binary\<close>

definition copy_file :: "(string \<Rightarrow> string list) \<Rightarrow> string \<Rightarrow> string \<Rightarrow> os \<Rightarrow> gerr option \<times> os" where
  "copy_file chunks src dest s =
     (case query (\<lambda>fs. fs_stat fs src) s of
        (Inl e, s1) \<Rightarrow> (Some (WrapW ''open source'' (Sys e)), s1)
      | (Inr _, s1) \<Rightarrow> (case effect (fs_open_trunc dest 0x1ED) s1 of
          (Inl e, s2) \<Rightarrow> (Some (WrapW ''create dest'' (Sys e)), s2)
        | (Inr k, s2) \<Rightarrow> (case query (\<lambda>fs. fs_read_file fs src) s2 of
            (Inl e, s3) \<Rightarrow> (Some (WrapW ''copy'' (Sys e)), s3)
          | (Inr content, s3) \<Rightarrow> (case write_pieces k (chunks content) s3 of
              (Inl e, s4) \<Rightarrow> (Some (WrapW ''copy'' (Sys e)), s4)
            | (Inr _, s4) \<Rightarrow> (None, s4)))))"

definition hook_name :: string where "hook_name = ''rbln-cdi-hook''"

definition install_hook_to :: "daemon_env \<Rightarrow> string \<Rightarrow> string \<Rightarrow> os \<Rightarrow> gerr option \<times> os" where
  "install_hook_to env host src s =
     (let dir = path_join [host, ''usr'', ''local'', ''bin'']
      in case effect (fs_mkdir_all dir) s of
           (Inl e, s1) \<Rightarrow> (Some (WrapW ''create dest dir'' (Sys e)), s1)
         | (Inr _, s1) \<Rightarrow> copy_file (de_chunks env) src (path_join [dir, hook_name]) s1)"

definition install_hook_binary :: "daemon_env \<Rightarrow> string \<Rightarrow> os \<Rightarrow> gerr option \<times> os" where
  "install_hook_binary env host s =
     (case query (\<lambda>fs. fs_stat fs ''/usr/local/bin/rbln-cdi-hook'') s of
        (Inr _, s1) \<Rightarrow> install_hook_to env host ''/usr/local/bin/rbln-cdi-hook'' s1
      | (Inl _, s1) \<Rightarrow> (case query (\<lambda>fs. fs_stat fs ''/usr/bin/rbln-cdi-hook'') s1 of
          (Inr _, s2) \<Rightarrow> install_hook_to env host ''/usr/bin/rbln-cdi-hook'' s2
        | (Inl _, s2) \<Rightarrow> (Some (Msg ''hook binary not found''), s2)))"

subsection \<open>Set-up and cleanup\<close>

definition daemon_restart_options :: "runtime_type \<Rightarrow> string \<Rightarrow> string \<Rightarrow> restart_options" where
  "daemon_restart_options rt host socket =
     (let defaults = get_runtime_defaults (runtime_text rt);
          path = (if socket = [] then rd_socket defaults else socket)
      in \<lparr> ro_mode = rd_mode defaults,
           ro_socket = (if socket = [] \<and> has_host host then path_join [host, path] else path),
           ro_host_root_mount = host, ro_max_retries = 3, ro_retry_backoff = 5 * sec, ro_timeout = 30 * sec \<rparr>)"

text \<open>A failed restart is only a warning.\<close>

definition daemon_restart :: "daemon_env \<Rightarrow> runtime_type \<Rightarrow> daemon_opts \<Rightarrow> gerr option \<times> restart_action list" where
  "daemon_restart env rt d =
     (case new_restarter (daemon_restart_options rt (do_host_root d) (do_socket d)) of
        Inl e \<Rightarrow> (Some (WrapW ''create restarter'' e), [])
      | Inr r \<Rightarrow> (None, snd (do_restart (de_restart env) r (runtime_text rt))))"

definition configure_and_restart ::
  "daemon_env \<Rightarrow> runtime_type \<Rightarrow> daemon_opts \<Rightarrow> string \<Rightarrow> os \<Rightarrow> gerr option \<times> os \<times> restart_action list" where
  "configure_and_restart env rt d p s = (case rt of
      OtherRuntime n \<Rightarrow> (Some (WrapW ''create configurator'' (WrapW n (Sentinel ErrRuntimeNotFound))), s, [])
    | _ \<Rightarrow> (case configure (de_codecs env) rt p s of
        (Some e, s1) \<Rightarrow> (Some (WrapW ''configure runtime'' e), s1, [])
      | (None, s1) \<Rightarrow> (case daemon_restart env rt d of (r, acts) \<Rightarrow> (r, s1, acts))))"

text \<open>The state in which the readiness of the runtime is looked at.\<close>

definition before_guard :: "daemon_env \<Rightarrow> runtime_type \<Rightarrow> daemon_opts \<Rightarrow> os \<Rightarrow> gerr option \<times> os" where
  "before_guard env rt d s = regenerate_cdi_spec env rt d
     (if has_host (do_host_root d) then snd (install_hook_binary env (do_host_root d) s) else s)"

definition daemon_setup ::
  "daemon_env \<Rightarrow> runtime_type \<Rightarrow> daemon_opts \<Rightarrow> os \<Rightarrow> gerr option \<times> os \<times> restart_action list" where
  "daemon_setup env rt d s =
     (case before_guard env rt d s of
        (Some e, s1) \<Rightarrow> (Some e, s1, [])
      | (None, s1) \<Rightarrow>
          (let p = daemon_config_path rt (do_host_root d) (do_config_path d)
           in case cdi_ready (de_codecs env) (de_commands env) (nodes s1) rt p (do_host_root d) of
                Inr True \<Rightarrow> (None, s1, [])
              | _ \<Rightarrow> configure_and_restart env rt d p s1))"

definition daemon_cleanup :: "string \<Rightarrow> os \<Rightarrow> os" where
  "daemon_cleanup dir s =
     snd (effect (fs_remove (dir @ ''/rbln-rds.yaml'')) (snd (effect (fs_remove (dir @ ''/rbln.yaml'')) s)))"

subsection \<open>Which places a set-up changes\<close>

text \<open>The names of the files the daemon writes besides the runtime's configuration.\<close>

definition own_name :: "string \<Rightarrow> bool" where
  "own_name n \<longleftrightarrow> n \<in> {''rbln.yaml'', ''rbln-rds.yaml'', hook_name}"

lemma own_normal: "own_name n \<Longrightarrow> normal_comp n"
  by (auto simp: own_name_def hook_name_def normal_comp_def)

lemma own_names [simp]: "own_name ''rbln.yaml''" "own_name ''rbln-rds.yaml''" "own_name hook_name"
  by (simp_all add: own_name_def)

lemma write_pieces_keeps:
  "\<lbrakk> write_pieces k bs s = (r, s'); keeps own base (nodes s); own_key own k \<rbrakk> \<Longrightarrow> keeps own base (nodes s')"
proof (induction bs arbitrary: s)
  case (Cons b bs)
  obtain r1 s1 where e: "effect (fd_append k b) s = (r1, s1)" by fastforce
  have "keeps own base (snd (fd_append k b fs))" if "keeps own base fs" for fs
    using that Cons.prems(3) by (auto simp: fd_append_def own_key_def intro!: keeps_set split: option.split node.split)
  from effect_nodes [where P = "keeps own base", OF e this Cons.prems(2)] have "keeps own base (nodes s1)" .
  with Cons e show ?case by (cases r1) auto
qed simp

lemma copy_file_keeps:
  assumes "copy_file chunks src dest s = (r, s')" "keeps own_name base (nodes s)" "own_files own_name base"
    and name: "path_comps dest = cs @ [c]" "own_name c"
  shows "keeps own_name base (nodes s')"
proof -
  obtain r1 s1 where q1: "query (\<lambda>fs. fs_stat fs src) s = (r1, s1)" by fastforce
  obtain r2 s2 where e2: "effect (fs_open_trunc dest 0x1ED) s1 = (r2, s2)" by fastforce
  have s1: "nodes s1 = nodes s" using query_snd [OF q1] by simp
  have own: "own_key own_name k" if "resolve (nodes s) True dest = Inr k" for k
  proof -
    have "\<forall>j t. node_at (nodes s) (j @ [c]) \<noteq> Some (Sym t)"
      using keeps_own_links [OF assms(2,3)] name(2) by (simp add: own_key_def)
    then have "k \<noteq> [] \<and> last k = c"
      using walk_last [of "nodes s" max_links True "[]" "cs @ [c]" k c] that own_normal [OF name(2)] name(1)
      by (simp add: resolve_def normal_comp_def)
    then show ?thesis using name(2) by (simp add: own_key_def)
  qed
  have k2: "keeps own_name base (nodes s2) \<and> (\<forall>k. r2 = Inr k \<longrightarrow> own_key own_name k)"
    using e2 own assms(2) s1
    by (cases rule: effect_cases [of "fs_open_trunc dest 0x1ED" s1])
      (auto simp: fs_open_trunc_def own_key_def intro!: keeps_set split: sum.splits option.splits node.splits)
  show ?thesis
    using assms(1,2) q1 e2 s1 k2
    by (auto simp: copy_file_def split: sum.splits prod.splits dest!: query_snd write_pieces_keeps)
qed

lemma install_hook_keeps:
  assumes "install_hook_binary env host s = (r, s')" "keeps own_name base (nodes s)" "own_files own_name base"
  shows "keeps own_name base (nodes s')"
proof -
  have "keeps own_name base (nodes s')"
    if i: "install_hook_to env host src t = (r, s')" and t: "nodes t = nodes s" for src t
  proof -
    let ?d = "path_join [host, ''usr'', ''local'', ''bin'']"
    obtain r1 s1 where e: "effect (fs_mkdir_all ?d) t = (r1, s1)" by fastforce
    have k: "keeps own_name base (nodes s1)"
      by (rule effect_nodes [where P = "keeps own_name base", OF e mkdir_keeps]) (use assms(2) t in auto)
    have "?d \<noteq> []" using clean_nonempty by (cases host) (auto simp: path_join_def)
    then obtain cs where "path_comps (path_join [?d, hook_name]) = cs @ [hook_name]"
      using path_join_last [OF own_normal [of hook_name]] by auto
    from copy_file_keeps [OF _ k assms(3) this] show ?thesis
      using i e k by (auto simp: install_hook_to_def Let_def split: sum.splits)
  qed
  then show ?thesis
    using assms(1,2) by (auto simp: install_hook_binary_def split: sum.splits prod.splits dest!: query_snd)
qed

lemma regenerate_keeps:
  assumes "regenerate_cdi_spec env rt d s = (r, s')" "keeps own_name base (nodes s)"
  shows "keeps own_name base (nodes s')"
proof -
  let ?o = "daemon_setup_options (regenerate_config (load_default (de_decode env) (nodes s) (de_getenv env)) rt
    (do_host_root d) (do_driver_root d) (do_library_path d)) (do_cdi_dir d)"
  obtain r1 s1 where e: "effect (fs_mkdir_all (do_cdi_dir d)) s = (r1, s1)" by fastforce
  have k: "keeps own_name base (nodes s1)"
    by (rule effect_nodes [where P = "keeps own_name base", OF e mkdir_keeps]) (use assms(2) in auto)
  obtain r2 s2 l where g: "generate_cdi_spec (de_setup env) (Some ?o) s1 = (r2, s2, l)" by (metis prod_cases3)
  have n: "path_comps (so_output_path ?o) = path_comps (do_cdi_dir d) @ [''rbln.yaml'']"
    "path_comps (so_rds_output_path ?o) = path_comps (do_cdi_dir d) @ [''rbln-rds.yaml'']"
    using slash_last [of "''rbln.yaml''"] slash_last [of "''rbln-rds.yaml''"] own_normal
    by (simp_all add: daemon_setup_options_def)
  have "keeps own_name base (nodes s2)"
    by (rule generate_cdi_spec_keeps [OF g k n(1) _ _ _ n(2)]) simp_all
  then show ?thesis
    using assms(1) e g k by (auto simp: regenerate_cdi_spec_def Let_def split: sum.splits option.splits)
qed

lemma before_guard_keeps:
  assumes "before_guard env rt d s = (r, s')" "keeps own_name base (nodes s)" "own_files own_name base"
  shows "keeps own_name base (nodes s')"
  using assms(1) regenerate_keeps [of env rt d] install_hook_keeps [of env "do_host_root d" s] assms(2,3)
  by (auto simp: before_guard_def split: if_splits) (metis surjective_pairing)

lemma cleanup_keeps: "keeps own_name base (nodes s) \<Longrightarrow> keeps own_name base (nodes (daemon_cleanup dir s))"
proof -
  assume k: "keeps own_name base (nodes s)"
  obtain r1 s1 r2 s2 where e: "effect (fs_remove (dir @ ''/rbln.yaml'')) s = (r1, s1)"
    "effect (fs_remove (dir @ ''/rbln-rds.yaml'')) s1 = (r2, s2)" by (metis surjective_pairing)
  have n: "path_comps (dir @ ''/rbln.yaml'') = path_comps dir @ [''rbln.yaml'']"
    "path_comps (dir @ ''/rbln-rds.yaml'') = path_comps dir @ [''rbln-rds.yaml'']"
    using slash_last [of "''rbln.yaml''"] slash_last [of "''rbln-rds.yaml''"] own_normal by simp_all
  have "keeps own_name base (nodes s1)" by (rule remove_keeps [OF e(1) k n(1)]) simp_all
  then have "keeps own_name base (nodes s2)" by (rule remove_keeps [OF e(2) _ n(2)]) simp_all
  then show ?thesis using e by (simp add: daemon_cleanup_def)
qed

subsection \<open>The guard\<close>

lemma daemon_setup_cases:
  assumes "daemon_setup env rt d s = (r, s', acts)"
  obtains (failed) e where "before_guard env rt d s = (Some e, s')" "r = Some e" "acts = []"
  | (ready) "before_guard env rt d s = (None, s')" "r = None" "acts = []"
      "cdi_ready (de_codecs env) (de_commands env) (nodes s') rt (daemon_config_path rt (do_host_root d) (do_config_path d)) (do_host_root d) = Inr True"
  | (unready) s1 where "before_guard env rt d s = (None, s1)"
      "cdi_ready (de_codecs env) (de_commands env) (nodes s1) rt (daemon_config_path rt (do_host_root d) (do_config_path d)) (do_host_root d) \<noteq> Inr True"
      "configure_and_restart env rt d (daemon_config_path rt (do_host_root d) (do_config_path d)) s1 = (r, s', acts)"
proof -
  obtain r1 s1 where b: "before_guard env rt d s = (r1, s1)" by fastforce
  let ?q = "cdi_ready (de_codecs env) (de_commands env) (nodes s1) rt (daemon_config_path rt (do_host_root d) (do_config_path d)) (do_host_root d)"
  show thesis
  proof (cases r1)
    case (Some e)
    with assms b failed show thesis by (auto simp: daemon_setup_def)
  next
    case None
    show thesis
    proof (cases "?q = Inr True")
      case True
      with assms b None ready show thesis by (auto simp: daemon_setup_def Let_def)
    next
      case False
      then have "configure_and_restart env rt d (daemon_config_path rt (do_host_root d) (do_config_path d)) s1 = (r, s', acts)"
        using assms b None by (auto simp: daemon_setup_def Let_def split: sum.splits bool.splits)
      with b None False unready show thesis by blast
    qed
  qed
qed

lemma configure_and_restart_acts:
  assumes "configure_and_restart env rt d p s = (r, s', acts)" "r = None \<or> acts \<noteq> []"
  shows "configure (de_codecs env) rt p s = (None, s') \<and> daemon_restart env rt d = (r, acts)"
  using assms by (cases rt) (auto simp: configure_and_restart_def split: prod.splits option.splits)

text \<open>The configuration file of a set-up.\<close>

abbreviation opts_config_path :: "runtime_type \<Rightarrow> daemon_opts \<Rightarrow> string" where
  "opts_config_path rt d \<equiv> daemon_config_path rt (do_host_root d) (do_config_path d)"


subsection \<open>Deploying again and again\<close>

text \<open>
  What happens to a host after a first set-up: further set-ups, refreshes by the watcher and cleanups, in
  any order, of any version of the daemon and with any faults, and changes by others that leave every
  file but the daemon's own as it is (a driver upgrade adds files). A killed daemon is one whose
  cleanup does not happen.
\<close>

inductive deploy_step :: "codecs \<Rightarrow> runtime_type \<Rightarrow> string \<Rightarrow> os \<Rightarrow> restart_action list \<Rightarrow> os \<Rightarrow> bool" for cd rt p where
  deploy: "\<lbrakk> daemon_setup env rt d (s\<lparr> faults := fl \<rparr>) = (r, s', acts); de_codecs env = cd; opts_config_path rt d = p \<rbrakk>
     \<Longrightarrow> deploy_step cd rt p s acts s'"
| refresh: "refresh_on_change env rt d ctx (s\<lparr> faults := fl \<rparr>) = (r, s') \<Longrightarrow> deploy_step cd rt p s [] s'"
| delete: "deploy_step cd rt p s [] (daemon_cleanup dir (s\<lparr> faults := fl \<rparr>))"
| other: "keeps own_name (nodes s) fs' \<Longrightarrow> deploy_step cd rt p s [] (s\<lparr> nodes := fs' \<rparr>)"

inductive deploys :: "codecs \<Rightarrow> runtime_type \<Rightarrow> string \<Rightarrow> os \<Rightarrow> restart_action list \<Rightarrow> os \<Rightarrow> bool" for cd rt p s where
  start: "deploys cd rt p s [] s"
| step: "\<lbrakk> deploys cd rt p s acts s1; deploy_step cd rt p s1 acts1 s2 \<rbrakk> \<Longrightarrow> deploys cd rt p s (acts @ acts1) s2"

lemma keeps_trans: "\<lbrakk> keeps own a b; keeps own b c \<rbrakk> \<Longrightarrow> keeps own a c"
  unfolding keeps_def by (metis no_new_links_trans)

text \<open>One step on a host that still has the configured file.\<close>

lemma deploy_step_keeps:
  assumes step: "deploy_step cd rt p s acts s'"
    and keep: "keeps own_name base (nodes s)" and files: "own_files own_name base"
    and conf: "resolve base True p = Inr k" "\<not> own_key own_name k" "fs_read_file base p = Inr c"
    and ready: "\<And>fs run host. fs_read_file fs p = Inr c \<Longrightarrow> cdi_ready cd run fs rt p host = Inr True"
  shows "acts = [] \<and> keeps own_name base (nodes s')"
  using step
proof cases
  case (deploy env d fl r)
  have k: "keeps own_name base (nodes (s\<lparr> faults := fl \<rparr>))" using keep by simp
  from deploy(1) show ?thesis
  proof (cases rule: daemon_setup_cases)
    case (failed e)
    then show ?thesis using before_guard_keeps [OF _ k files] by blast
  next
    case ready
    then show ?thesis using before_guard_keeps [OF _ k files] by blast
  next
    case (unready s1)
    then have "keeps own_name base (nodes s1)" using before_guard_keeps [OF _ k files] by blast
    from read_file_keeps [OF this own_files_plain [OF files] conf] have "cdi_ready cd (de_commands env) (nodes s1) rt p (do_host_root d) = Inr True"
      by (rule ready)
    then show ?thesis using unready(2) deploy(2,3) by simp
  qed
next
  case (refresh env d ctx fl r)
  then show ?thesis using keep regenerate_keeps [of env rt d "s\<lparr> faults := fl \<rparr>" r s' base]
    by (auto simp: refresh_on_change_def split: option.splits)
next
  case (delete dir fl)
  then show ?thesis using keep cleanup_keeps [of base "s\<lparr> faults := fl \<rparr>"] by simp
next
  case (other fs')
  then show ?thesis using keeps_trans [OF keep] by simp
qed

lemma deploys_keep:
  assumes "deploys cd rt p s1 acts s2" "own_files own_name (nodes s1)"
    and "resolve (nodes s1) True p = Inr k" "\<not> own_key own_name k" "fs_read_file (nodes s1) p = Inr c"
    and "\<And>fs run host. fs_read_file fs p = Inr c \<Longrightarrow> cdi_ready cd run fs rt p host = Inr True"
  shows "acts = [] \<and> keeps own_name (nodes s1) (nodes s2)"
  using assms(1)
proof induction
  case (step acts s acts1 s2)
  then show ?case using deploy_step_keeps [OF step(2) _ assms(2-6)] by blast
qed simp


definition demo_daemon_env :: daemon_env where
  "demo_daemon_env = \<lparr> de_setup = demo_env, de_codecs = demo_codecs, de_commands = \<lambda>_. Inl (Msg ''no such command''),
     de_restart = demo_restart_env, de_decode = \<lambda>_ c. Some c, de_getenv = \<lambda>_. [], de_chunks = \<lambda>b. [b] \<rparr>"

definition demo_daemon_opts :: daemon_opts where
  "demo_daemon_opts = \<lparr> do_cdi_dir = ''/cdi'', do_host_root = ''/'', do_driver_root = ''/'', do_library_path = [],
     do_socket = [], do_config_path = ''/etc/daemon.json'' \<rparr>"

lemma demo_daemon_run:
  "(case daemon_setup demo_daemon_env RuntimeDocker demo_daemon_opts demo_config_os of (r, s1, acts) \<Rightarrow>
      (r, acts = [], own_files own_name (nodes s1), resolve (nodes s1) True ''/etc/daemon.json''))
   = (None, False, True, Inr [''etc'', ''daemon.json''])"
  by code_simp

lemma demo_daemon_facts: "codecs_ok (de_codecs demo_daemon_env)" "opts_config_path RuntimeDocker demo_daemon_opts = ''/etc/daemon.json''"
  using demo_codecs_ok by (simp_all add: demo_daemon_env_def demo_daemon_opts_def daemon_config_path_def)



subsection \<open>The watcher looks where the generator looks\<close>

lemma path_join_clean:
  assumes "is_abs a"
  shows "path_join [clean a, b] = path_join [a, b]"
proof -
  obtain cs where cs: "list_all normal_comp cs" "clean a = path_of True cs" "cs = norm_comps True [] (path_comps a)"
    using assms by (rule clean_abs_form)
  have "norm_comps True [] cs = cs" using norm_comps_normal [OF cs(1), of True "[]"] by simp
  then show ?thesis using cs path_join_abs [OF assms] path_join_abs [of "clean a"] by simp
qed

lemma path_join_rooted:
  assumes "is_abs d" "r = [] \<or> r = ''/''"
  shows "path_join [r, d] = clean d"
proof -
  have "d \<noteq> []" using assms(1) by auto
  then show ?thesis
    using assms path_comps_append_slash [of "[]" d] by (auto simp: path_join_def clean_def)
qed

lemma path_join_trim:
  assumes "prefix \<noteq> []" "is_abs d"
  shows "path_join [prefix, trim_prefix d ''/''] = path_join [prefix, d]"
proof -
  obtain t where "d = CHR ''/'' # t" using assms(2) by (cases d) auto
  moreover have "is_abs (prefix @ x) = is_abs prefix" for x using assms(1) by (cases prefix) auto
  moreover have "path_comps (prefix @ ''/'' @ t) = path_comps (prefix @ ''/'' @ (''/'' @ t))"
    unfolding path_comps_append_slash by simp
  ultimately show ?thesis using assms(1) by (simp add: path_join2 trim_prefix_def clean_def)
qed

text \<open>
  The directories the watcher globs for driver libraries are those the generator searches: for every
  placement of the daemon (host root, driver root) and every file pattern, both end in the same glob
  expressions, in the same order, so a library the specification mounts is a library the watcher sees. The
  search root of a loaded configuration is empty, because the configuration file cannot set it.
\<close>

theorem watch_dirs_agree:
  assumes "search_root base = []" "\<forall>d \<in> set (search_libraries (search_paths base)). is_abs d" "is_abs driver \<or> driver = []"
  shows "map (\<lambda>d. path_join [d, pat]) (refresh_lib_dirs base host driver)
    = map (\<lambda>d. path_join [path_join [root_or_driver (regenerate_config base rt host driver clp), d], pat])
        (search_libraries (search_paths (regenerate_config base rt host driver clp)))"
proof -
  let ?cfg = "regenerate_config base rt host driver clp" and ?dirs = "search_libraries (search_paths base)"
  let ?prefix = "join_search_prefix host driver"
  have dirs: "search_libraries (search_paths ?cfg) = ?dirs" by (simp add: regenerate_config_def Let_def)
  have root: "root_or_driver ?cfg = (if has_host host \<and> ?prefix \<noteq> [] then ?prefix else driver)"
    using assms(1) by (simp add: regenerate_config_def Let_def root_or_driver_def)
  have host: "host \<noteq> [] \<Longrightarrow> path_join [host, t] \<noteq> []" for t
    using clean_nonempty by (simp add: path_join2)
  have driver: "driver = [] \<or> driver = ''/'' \<or> (\<exists>t. driver = CHR ''/'' # t \<and> t \<noteq> [])"
    using assms(3) by (cases driver) auto
  show ?thesis
  proof (cases "?prefix = [] \<or> ?prefix = ''/''")
    case True
    then have r: "root_or_driver ?cfg = [] \<or> root_or_driver ?cfg = ''/''"
      using root driver by (auto simp: host join_search_prefix_def trim_prefix_def has_host_def Let_def split: if_splits)
    from True have "refresh_lib_dirs base host driver = ?dirs" by (auto simp: refresh_lib_dirs_def Let_def)
    then show ?thesis using assms(2) path_join_rooted [OF _ r] path_join_clean by (simp add: dirs)
  next
    case False
    then have r: "root_or_driver ?cfg = ?prefix"
      using root driver by (auto simp: host join_search_prefix_def trim_prefix_def has_host_def Let_def split: if_splits)
    from False have "refresh_lib_dirs base host driver = map (reroot_under ?prefix) ?dirs"
      by (auto simp: refresh_lib_dirs_def Let_def)
    then show ?thesis using assms(2) False by (simp add: dirs r reroot_under_def path_join_trim)
  qed
qed

theorem watch_dirs_agree_witness:
  "map (\<lambda>d. path_join [d, ''librbln-*.so*'']) (refresh_lib_dirs default_config ''/host'' ''/run/driver'')
    = map (\<lambda>d. path_join [path_join [root_or_driver (regenerate_config default_config RuntimeDocker ''/host'' ''/run/driver'' []), d], ''librbln-*.so*''])
        (search_libraries (search_paths (regenerate_config default_config RuntimeDocker ''/host'' ''/run/driver'' [])))"
  by (rule watch_dirs_agree) (simp_all add: default_config_def)

subsection \<open>The command\<close>

text \<open>The options of the root command, as the flag and environment library hands them over.\<close>

record daemon_flags =
  df_runtime :: string
  df_shutdown_timeout :: int
  df_pid_file :: string
  df_health_port :: int
  df_no_cleanup :: bool
  df_opts :: daemon_opts
  df_debug :: bool
  df_force :: bool
  df_refresh_interval :: int

definition daemon_runtime :: "daemon_flags \<Rightarrow> fs \<Rightarrow> gerr + runtime_type" where
  "daemon_runtime fl fs =
     (if df_runtime fl \<noteq> [] then Inr (runtime_type_of (df_runtime fl))
      else case detect_runtime_strict fs (build_detect_options (do_socket (df_opts fl))) of
             Inl e \<Rightarrow> Inl (WrapW ''runtime detection failed'' e)
           | Inr rt \<Rightarrow> Inr rt)"

definition daemon_config_of :: "daemon_flags \<Rightarrow> runtime_type \<Rightarrow> daemon_config" where
  "daemon_config_of fl rt = \<lparr> dcfg_runtime = runtime_text rt, dcfg_shutdown_timeout = df_shutdown_timeout fl,
     dcfg_pid_file = df_pid_file fl, dcfg_health_port = df_health_port fl, dcfg_no_cleanup_on_exit = df_no_cleanup fl,
     dcfg_host_root_mount = do_host_root (df_opts fl), dcfg_driver_root = do_driver_root (df_opts fl),
     dcfg_cdi_spec_dir = do_cdi_dir (df_opts fl), dcfg_container_library_path = do_library_path (df_opts fl),
     dcfg_socket = do_socket (df_opts fl), dcfg_debug = df_debug fl, dcfg_force = df_force fl,
     dcfg_refresh_interval = df_refresh_interval fl \<rparr>"

text \<open>The checks before anything is done: the flags with the host root found, and the runtime.\<close>

definition prepare_daemon :: "daemon_flags \<Rightarrow> fs \<Rightarrow> gerr + daemon_flags \<times> runtime_type" where
  "prepare_daemon fl fs =
     (let config = do_config_path (df_opts fl)
      in if config \<noteq> [] \<and> \<not> is_abs config then Inl (Msg (''config path override must be absolute: '' @ config))
         else let host = detect_host_root fs (do_host_root (df_opts fl));
                  fl' = fl\<lparr> df_opts := (df_opts fl)\<lparr> do_host_root := host \<rparr> \<rparr>
              in case daemon_runtime fl' fs of
                   Inl e \<Rightarrow> Inl e
                 | Inr rt \<Rightarrow> (case validate_config (daemon_config_of fl' rt) of
                     Some e \<Rightarrow> Inl (WrapW ''invalid configuration'' e)
                   | None \<Rightarrow> Inr (fl', rt)))"

text \<open>
  Up to \<open>Run\<close>: \<open>lock\<close> is the result of the PID lock (theory \<open>Pid_Lock\<close>); the loop is then entered with the
  lock held, with the cleanup and, unless disabled, with the watcher (theory \<open>Daemon\<close>).
\<close>

definition start_daemon ::
  "daemon_env \<Rightarrow> daemon_flags \<Rightarrow> gerr option \<Rightarrow> os \<Rightarrow> (gerr + daemon_conf) \<times> os \<times> restart_action list" where
  "start_daemon env fl lock s = (case prepare_daemon fl (nodes s) of
      Inl e \<Rightarrow> (Inl e, s, [])
    | Inr (fl', rt) \<Rightarrow> (case lock of
        Some e \<Rightarrow> (Inl (WrapW ''acquire PID lock'' e), s, [])
      | None \<Rightarrow> (case daemon_setup env rt (df_opts fl') s of
          (Some e, s1, acts) \<Rightarrow> (Inl (WrapW ''setup failed'' e), s1, acts)
        | (None, s1, acts) \<Rightarrow> (Inr \<lparr> dc_no_cleanup = df_no_cleanup fl', dc_has_cleanup = True,
              dc_has_watcher = (build_refresh_watcher (df_refresh_interval fl') \<noteq> None), dc_lock_result = None \<rparr>, s1, acts))))"

lemma detected_known: "detect_runtime_strict fs (build_detect_options socket) = Inr rt \<Longrightarrow> rt \<in> {RuntimeContainerd, RuntimeCRIO, RuntimeDocker}"
  by (auto simp: detect_runtime_strict_def build_detect_options_def detected_runtimes_def Let_def split: option.splits if_splits list.splits)

lemma prepare_daemon_ok:
  assumes "prepare_daemon fl fs = Inr (fl', rt)"
  shows "rt \<in> {RuntimeContainerd, RuntimeCRIO, RuntimeDocker} \<and> validate_config (daemon_config_of fl' rt) = None
    \<and> (do_config_path (df_opts fl') = [] \<or> is_abs (do_config_path (df_opts fl')))"
proof -
  from assms have v: "validate_config (daemon_config_of fl' rt) = None" "do_config_path (df_opts fl') = [] \<or> is_abs (do_config_path (df_opts fl'))"
    and r: "daemon_runtime fl' fs = Inr rt"
    by (auto simp: prepare_daemon_def Let_def split: if_splits sum.splits option.splits)
  have "runtime_is_valid (runtime_text rt)"
    using v(1) by (auto simp: validate_config_def daemon_config_of_def split: if_splits)
  then have "rt \<in> {RuntimeContainerd, RuntimeCRIO, RuntimeDocker}"
    using r detected_known by (auto simp: daemon_runtime_def runtime_type_of_def runtime_is_valid_def split: if_splits sum.splits)
  with v show ?thesis by simp
qed


definition demo_daemon_flags :: daemon_flags where
  "demo_daemon_flags = \<lparr> df_runtime = ''docker'', df_shutdown_timeout = 30 * second, df_pid_file = ''/p'', df_health_port = 8080,
     df_no_cleanup = False, df_opts = demo_daemon_opts, df_debug = False, df_force = False, df_refresh_interval = 0 \<rparr>"


subsection \<open>The runtime subcommands\<close>

text \<open>The flags of \<open>runtime\<close>, with the values they have when not given, and the environment behind them.\<close>

record runtime_flags =
  rf_restart_mode :: string
  rf_host_root_mount :: string
  rf_socket :: string
  rf_cdi_spec_dir :: string
  rf_config_path :: string
  rf_pid_file :: string
  rf_dry_run :: bool

definition default_runtime_flags :: runtime_flags where
  "default_runtime_flags = \<lparr> rf_restart_mode = [], rf_host_root_mount = [], rf_socket = [], rf_cdi_spec_dir = ''/var/run/cdi'',
     rf_config_path = [], rf_pid_file = ''/run/rbln/toolkit.pid'', rf_dry_run = False \<rparr>"

definition flag_or_env :: "string \<Rightarrow> string \<Rightarrow> string" where
  "flag_or_env flag env = (if flag \<noteq> [] then flag else env)"

definition effective_restart_mode :: "runtime_flags \<Rightarrow> (string \<Rightarrow> string) \<Rightarrow> string" where
  "effective_restart_mode f env = flag_or_env (rf_restart_mode f) (env ''restart_mode'')"

definition effective_socket :: "runtime_flags \<Rightarrow> (string \<Rightarrow> string) \<Rightarrow> string" where
  "effective_socket f env = flag_or_env (rf_socket f) (env ''socket'')"

definition effective_host_root_mount :: "runtime_flags \<Rightarrow> (string \<Rightarrow> string) \<Rightarrow> string" where
  "effective_host_root_mount f env = flag_or_env (rf_host_root_mount f) (env ''host_root_mount'')"

definition effective_cdi_spec_dir :: "runtime_flags \<Rightarrow> (string \<Rightarrow> string) \<Rightarrow> string" where
  "effective_cdi_spec_dir f env = flag_or_env (rf_cdi_spec_dir f)
     (if env ''cdi_spec_dir'' \<noteq> [] then env ''cdi_spec_dir'' else ''/var/run/cdi'')"

definition effective_config_path :: "runtime_flags \<Rightarrow> (string \<Rightarrow> string) \<Rightarrow> string" where
  "effective_config_path f env = flag_or_env (rf_config_path f) (env ''config_path'')"

definition effective_pid_file :: "runtime_flags \<Rightarrow> (string \<Rightarrow> string) \<Rightarrow> string" where
  "effective_pid_file f env = flag_or_env (rf_pid_file f)
     (if env ''pid_file'' \<noteq> [] then env ''pid_file'' else ''/run/rbln/toolkit.pid'')"

definition cli_options :: "string \<Rightarrow> string \<Rightarrow> string \<Rightarrow> runtime_flags \<Rightarrow> (string \<Rightarrow> string) \<Rightarrow> install_options" where
  "cli_options name mode socket f env = \<lparr> io_runtime = name, io_restart_mode = mode, io_socket = socket,
     io_host_root_mount = effective_host_root_mount f env, io_cdi_spec_dir = effective_cdi_spec_dir f env,
     io_config_path = effective_config_path f env, io_pid_file = effective_pid_file f env, io_dry_run = rf_dry_run f \<rparr>"

definition or_default :: "string \<Rightarrow> string \<Rightarrow> string" where
  "or_default v dflt = (if v = [] then dflt else v)"

definition docker_options :: "runtime_flags \<Rightarrow> (string \<Rightarrow> string) \<Rightarrow> install_options" where
  "docker_options f env = cli_options ''docker'' (or_default (effective_restart_mode f env) mode_signal)
     (or_default (effective_socket f env) ''/var/run/docker.sock'') f env"

definition containerd_options :: "runtime_flags \<Rightarrow> (string \<Rightarrow> string) \<Rightarrow> install_options" where
  "containerd_options f env = cli_options ''containerd'' (or_default (effective_restart_mode f env) mode_signal)
     (or_default (effective_socket f env) ''/run/containerd/containerd.sock'') f env"

definition crio_options :: "runtime_flags \<Rightarrow> (string \<Rightarrow> string) \<Rightarrow> gerr + install_options" where
  "crio_options f env =
     (let mode = or_default (effective_restart_mode f env) mode_systemd
      in if mode = mode_signal
         then Inl (Msg (''signal restart mode is not supported for CRI-O'' @ [newline, newline]
           @ ''CRI-O does not support SIGHUP reload. Use --restart-mode=systemd or --restart-mode=none''))
         else Inr (cli_options ''crio'' mode [] f env))"

definition run_docker_setup :: "install_env \<Rightarrow> runtime_flags \<Rightarrow> (string \<Rightarrow> string) \<Rightarrow> os \<Rightarrow> gerr option \<times> os \<times> restart_action list" where
  "run_docker_setup ie f env s = install_setup ie (docker_options f env) s"

definition run_docker_cleanup :: "install_env \<Rightarrow> runtime_flags \<Rightarrow> (string \<Rightarrow> string) \<Rightarrow> os \<Rightarrow> gerr option \<times> os \<times> restart_action list" where
  "run_docker_cleanup ie f env s = install_cleanup ie (docker_options f env) s"

definition run_containerd_setup :: "install_env \<Rightarrow> runtime_flags \<Rightarrow> (string \<Rightarrow> string) \<Rightarrow> os \<Rightarrow> gerr option \<times> os \<times> restart_action list" where
  "run_containerd_setup ie f env s = install_setup ie (containerd_options f env) s"

definition run_containerd_cleanup :: "install_env \<Rightarrow> runtime_flags \<Rightarrow> (string \<Rightarrow> string) \<Rightarrow> os \<Rightarrow> gerr option \<times> os \<times> restart_action list" where
  "run_containerd_cleanup ie f env s = install_cleanup ie (containerd_options f env) s"

definition run_crio_setup :: "install_env \<Rightarrow> runtime_flags \<Rightarrow> (string \<Rightarrow> string) \<Rightarrow> os \<Rightarrow> gerr option \<times> os \<times> restart_action list" where
  "run_crio_setup ie f env s = (case crio_options f env of Inl e \<Rightarrow> (Some e, s, []) | Inr opt \<Rightarrow> install_setup ie opt s)"

definition run_crio_cleanup :: "install_env \<Rightarrow> runtime_flags \<Rightarrow> (string \<Rightarrow> string) \<Rightarrow> os \<Rightarrow> gerr option \<times> os \<times> restart_action list" where
  "run_crio_cleanup ie f env s = (case crio_options f env of Inl e \<Rightarrow> (Some e, s, []) | Inr opt \<Rightarrow> install_cleanup ie opt s)"

text \<open>
  Two flags have defaults that are not empty, so the variables documented beside them are never looked
  at; and the Docker and containerd sockets are filled in before the installer asks whether one was
  given, so with a host root mount the socket is that of the container, not of the host.
\<close>

lemma environment_masked:
  "effective_cdi_spec_dir default_runtime_flags env = ''/var/run/cdi''"
  "effective_pid_file default_runtime_flags env = ''/run/rbln/toolkit.pid''"
  by (simp_all add: effective_cdi_spec_dir_def effective_pid_file_def flag_or_env_def default_runtime_flags_def)

text \<open>
  The bindings of configuration keys to flags in the order they are made: the root command's, then, when
  the \<open>runtime\<close> command is added, that command's. A key bound twice belongs to the flag bound last.
\<close>

datatype flag_owner = RootCmd | RuntimeCmd

definition bind_calls :: "(string \<times> flag_owner) list" where
  "bind_calls =
     map (\<lambda>k. (k, RootCmd)) [''runtime'', ''shutdown_timeout'', ''pid_file'', ''health_port'', ''no_cleanup_on_exit'', ''host_root'',
       ''driver_root'', ''cdi_spec_dir'', ''container_library_path'', ''socket'', ''config_path'', ''debug'', ''force'', ''refresh_interval'']
     @ map (\<lambda>k. (k, RuntimeCmd)) [''restart_mode'', ''host_root_mount'', ''socket'', ''cdi_spec_dir'', ''config_path'', ''pid_file'']"

lemma root_flags_unbound:
  "filter (\<lambda>k. map_of (rev bind_calls) k = Some RuntimeCmd) (map fst (filter (\<lambda>b. snd b = RootCmd) bind_calls))
     = [''pid_file'', ''cdi_spec_dir'', ''socket'', ''config_path'']"
  by code_simp

end
