(* ===== verification/Cdi_Hook.thy ===== *)
theory Cdi_Hook imports Generator Writer Json_Struct begin

text \<open>
  The hook binary: \<open>create-symlinks\<close> and \<open>update-ldcache\<close> of \<open>cmd/rbln-cdi-hook\<close>, the container state of
  \<open>internal/oci\<close> and the cache update of \<open>internal/ldconfig\<close>. The standard input and the \<open>ldconfig\<close>
  program are parameters; the program is run in a process of its own, whose arguments are built and
  parsed here.
\<close>

subsection \<open>The container's state\<close>

record oci_state =
  st_version :: string
  st_id :: string
  st_status :: string
  st_pid :: int
  st_bundle :: string
  st_annotations :: "(string \<times> string) list"

record oci_root =
  rt_path :: string
  rt_readonly :: bool

definition state_fields :: "oci_state fields" where
  "state_fields k =
     (if k = ''ociversion'' then Some (string_field (\<lambda>x s. s\<lparr> st_version := x \<rparr>))
      else if k = ''id'' then Some (string_field (\<lambda>x s. s\<lparr> st_id := x \<rparr>))
      else if k = ''status'' then Some (string_field (\<lambda>x s. s\<lparr> st_status := x \<rparr>))
      else if k = ''pid'' then Some (int_field (\<lambda>i s. s\<lparr> st_pid := i \<rparr>))
      else if k = ''bundle'' then Some (string_field (\<lambda>x s. s\<lparr> st_bundle := x \<rparr>))
      else if k = ''annotations'' then Some (\<lambda>v s. case v of
          VTab t \<Rightarrow> map_option (\<lambda>m. s\<lparr> st_annotations := m \<rparr>) (put_strings (st_annotations s) t)
        | _ \<Rightarrow> if is_null v then Some (s\<lparr> st_annotations := [] \<rparr>) else None)
      else None)"

definition root_fields :: "oci_root fields" where
  "root_fields k =
     (if k = ''path'' then Some (string_field (\<lambda>x r. r\<lparr> rt_path := x \<rparr>))
      else if k = ''readonly'' then Some (bool_field (\<lambda>b r. r\<lparr> rt_readonly := b \<rparr>))
      else None)"

text \<open>The field of \<open>minimalSpec\<close> is a pointer; an object is decoded into what it points to already.\<close>

definition spec_fields :: "oci_root option fields" where
  "spec_fields k =
     (if k = ''root'' then Some (\<lambda>v r. case v of
          VTab t \<Rightarrow> map_option Some (decode_members root_fields t (case r of None \<Rightarrow> \<lparr> rt_path = [], rt_readonly = False \<rparr> | Some x \<Rightarrow> x))
        | _ \<Rightarrow> if is_null v then Some None else None)
      else None)"

record hook_env =
  he_stdin :: string
  he_ldconfig :: "string list \<Rightarrow> fs \<Rightarrow> gerr option \<times> fs"
  he_suffixes :: "string list"

definition read_container_state :: "string \<Rightarrow> gerr + oci_state" where
  "read_container_state input =
     (case decode_struct state_fields
        \<lparr> st_version = [], st_id = [], st_status = [], st_pid = 0, st_bundle = [], st_annotations = [] \<rparr> input of
        None \<Rightarrow> Inl (WrapV ''failed to decode container state'' (Msg ''json'')) | Some st \<Rightarrow> Inr st)"

text \<open>Opening the file and reading it are two calls.\<close>

definition load_container_state :: "hook_env \<Rightarrow> string \<Rightarrow> os \<Rightarrow> (gerr + oci_state) \<times> os" where
  "load_container_state env file s =
     (if file = [] \<or> file = ''-'' then (read_container_state (he_stdin env), s)
      else case query (\<lambda>fs. fs_stat fs file) s of
        (Inl e, s1) \<Rightarrow> (Inl (WrapV ''failed to open file'' (Sys e)), s1)
      | (Inr _, s1) \<Rightarrow> (case query (\<lambda>fs. fs_read_file fs file) s1 of
          (Inl e, s2) \<Rightarrow> (Inl (WrapV ''failed to decode container state'' (Sys e)), s2)
        | (Inr input, s2) \<Rightarrow> (read_container_state input, s2)))"

definition get_spec_file_path :: "string \<Rightarrow> string" where
  "get_spec_file_path bundle = path_join [bundle, ''config.json'']"

definition load_minimal_spec :: "oci_state \<Rightarrow> os \<Rightarrow> (gerr + oci_root option) \<times> os" where
  "load_minimal_spec st s =
     (let p = get_spec_file_path (st_bundle st)
      in case query (\<lambda>fs. fs_stat fs p) s of
        (Inl e, s1) \<Rightarrow> (Inl (WrapV ''failed to open OCI spec file'' (Sys e)), s1)
      | (Inr _, s1) \<Rightarrow> (case query (\<lambda>fs. fs_read_file fs p) s1 of
          (Inl e, s2) \<Rightarrow> (Inl (WrapV ''failed to load minimal OCI spec'' (Sys e)), s2)
        | (Inr input, s2) \<Rightarrow> (case decode_struct spec_fields None input of
            None \<Rightarrow> (Inl (WrapV ''failed to load minimal OCI spec'' (Msg ''json'')), s2)
          | Some r \<Rightarrow> (Inr r, s2))))"

definition resolve_root :: "string \<Rightarrow> oci_root option \<Rightarrow> gerr + string" where
  "resolve_root bundle r =
     (let container_root = (case r of None \<Rightarrow> [] | Some x \<Rightarrow> rt_path x);
          resolved = (if is_abs container_root then container_root else path_join [bundle, container_root])
      in if resolved = ''/'' then Inl (Msg ''invalid container root: path is system root'')
         else if resolved = [] then Inl (Msg ''invalid container root: path is empty'')
         else Inr resolved)"

definition get_container_root :: "oci_state \<Rightarrow> os \<Rightarrow> (gerr + string) \<times> os" where
  "get_container_root st s =
     (if st_bundle st = [] then (Inl (Msg ''bundle path is empty''), s)
      else case load_minimal_spec st s of
        (Inl e, s1) \<Rightarrow> (Inl e, s1)
      | (Inr r, s1) \<Rightarrow> (resolve_root (st_bundle st) r, s1))"

subsection \<open>Links\<close>

definition force_create_symlink :: "string \<Rightarrow> string \<Rightarrow> os \<Rightarrow> gerr option \<times> os" where
  "force_create_symlink target p s =
     (let link = (\<lambda>s1. case effect (fs_symlink target p) s1 of (Inl e, s2) \<Rightarrow> (Some (Sys e), s2) | (Inr _, s2) \<Rightarrow> (None, s2))
      in case query (\<lambda>fs. fs_lstat fs p) s of
        (Inl e, s1) \<Rightarrow> if is_not_exist e then link s1 else (Some (WrapW ''failed to stat link path'' (Sys e)), s1)
      | (Inr _, s1) \<Rightarrow> (case effect (fs_remove p) s1 of
          (Inl e, s2) \<Rightarrow> (Some (WrapW ''failed to remove existing file'' (Sys e)), s2)
        | (Inr _, s2) \<Rightarrow> link s2))"

definition create_symlink_in_container :: "string \<Rightarrow> string \<Rightarrow> string \<Rightarrow> os \<Rightarrow> gerr option \<times> os" where
  "create_symlink_in_container root target link s =
     (let p = path_join [root, link]
      in case query (\<lambda>fs. fs_read_link fs p) s of (r, s1) \<Rightarrow>
           if r = Inr target then (None, s1)
           else (case effect (fs_mkdir_all (path_dir p)) s1 of
               (Inl e, s2) \<Rightarrow> (Some (WrapW ''failed to create parent directory'' (Sys e)), s2)
             | (Inr _, s2) \<Rightarrow> force_create_symlink target p s2))"

text \<open>\<open>strings.SplitN (l, ''::'', 2)\<close> with two parts.\<close>

definition link_parts :: "string \<Rightarrow> (string \<times> string) option" where
  "link_parts l = (case str_index l ''::'' of None \<Rightarrow> None | Some i \<Rightarrow> Some (take i l, drop (i + 2) l))"

fun create_links :: "string \<Rightarrow> string list \<Rightarrow> string list \<Rightarrow> os \<Rightarrow> gerr option \<times> os" where
  "create_links root created [] s = (None, s)"
| "create_links root created (l # ls) s =
     (if l \<in> set created then create_links root created ls s
      else case link_parts l of
        None \<Rightarrow> (Some (Msg (''invalid symlink specification '' @ [CHR 0x22] @ l @ [CHR 0x22] @ '': expected target::link format'')), s)
      | Some (target, link) \<Rightarrow> (case create_symlink_in_container root target link s of
          (Some e, s1) \<Rightarrow> (Some (WrapW (''failed to create symlink '' @ link @ '' -> '' @ target) e), s1)
        | (None, s1) \<Rightarrow> create_links root (l # created) ls s1))"

text \<open>What both commands begin with.\<close>

definition hook_root :: "hook_env \<Rightarrow> string \<Rightarrow> os \<Rightarrow> (gerr + string) \<times> os" where
  "hook_root env file s = (case load_container_state env file s of
      (Inl e, s1) \<Rightarrow> (Inl (WrapW ''failed to load container state'' e), s1)
    | (Inr st, s1) \<Rightarrow> (case get_container_root st s1 of
        (Inl e, s2) \<Rightarrow> (Inl (WrapW ''failed to determine container root'' e), s2)
      | (Inr root, s2) \<Rightarrow> (Inr root, s2)))"

definition execute_create_symlinks :: "hook_env \<Rightarrow> string list \<Rightarrow> string \<Rightarrow> os \<Rightarrow> gerr option \<times> os" where
  "execute_create_symlinks env links file s =
     (if links = [] then (None, s)
      else case hook_root env file s of
        (Inl e, s1) \<Rightarrow> (Some e, s1)
      | (Inr root, s1) \<Rightarrow> create_links root [] links s1)"

subsection \<open>The linker cache\<close>

record ldconfig =
  lc_path :: string
  lc_root :: string
  lc_dirs :: "string list"

fun write_directories :: "string list \<Rightarrow> string list \<Rightarrow> string list \<Rightarrow> os \<Rightarrow> gerr option \<times> os" where
  "write_directories k seen [] s = (None, s)"
| "write_directories k seen (d # ds) s =
     (if d \<in> set seen then write_directories k seen ds s
      else case effect (fd_append k (d @ [newline])) s of
        (Inl e, s1) \<Rightarrow> (Some (WrapW ''failed to write directory'' (Sys e)), s1)
      | (Inr _, s1) \<Rightarrow> write_directories k (d # seen) ds s1)"

text \<open>The pattern is \<open>00-rbln-*.conf\<close>.\<close>

definition create_ldsoconfd_file :: "hook_env \<Rightarrow> ldconfig \<Rightarrow> string \<Rightarrow> os \<Rightarrow> gerr option \<times> os" where
  "create_ldsoconfd_file env l dir s =
     (if lc_dirs l = [] then (None, s)
      else case effect (fs_create_temp dir ''00-rbln-'' (map (\<lambda>x. x @ ''.conf'') (he_suffixes env))) s of
        (Inl e, s1) \<Rightarrow> (Some (WrapW ''failed to create config file'' (Sys e)), s1)
      | (Inr (p, k), s1) \<Rightarrow> (case write_directories k [] (lc_dirs l) s1 of
          (Some e, s2) \<Rightarrow> (Some e, s2)
        | (None, s2) \<Rightarrow> (case effect (fd_chmod k 0x1A4) s2 of
            (Inl e, s3) \<Rightarrow> (Some (WrapW ''failed to chmod config file'' (Sys e)), s3)
          | (Inr _, s3) \<Rightarrow> (None, s3))))"

definition run_ldconfig :: "hook_env \<Rightarrow> ldconfig \<Rightarrow> os \<Rightarrow> gerr option \<times> os" where
  "run_ldconfig env l s = (case query (\<lambda>fs. fs_stat fs (lc_path l)) s of
      (Inl e, s1) \<Rightarrow> (Some (WrapW (if is_not_exist e then ''ldconfig binary not found'' else ''failed to stat ldconfig binary'') (Sys e)), s1)
    | (Inr _, s1) \<Rightarrow> (case he_ldconfig env [lc_path l, ''-r'', lc_root l] (nodes s1) of
        (Some e, fs) \<Rightarrow> (Some (WrapW ''ldconfig failed'' e), s1\<lparr> nodes := fs \<rparr>)
      | (None, fs) \<Rightarrow> (None, s1\<lparr> nodes := fs \<rparr>)))"

definition ldsoconfd_dir :: "string \<Rightarrow> string" where
  "ldsoconfd_dir root = path_join [root, ''/etc/ld.so.conf.d'']"

definition update_ld_cache :: "hook_env \<Rightarrow> ldconfig \<Rightarrow> os \<Rightarrow> gerr option \<times> os" where
  "update_ld_cache env l s =
     (let dir = ldsoconfd_dir (lc_root l)
      in case effect (fs_mkdir_all dir) s of
        (Inl e, s1) \<Rightarrow> (Some (WrapW ''failed to create ld.so.conf.d'' (Sys e)), s1)
      | (Inr _, s1) \<Rightarrow> (case create_ldsoconfd_file env l dir s1 of
          (Some e, s2) \<Rightarrow> (Some (WrapW ''failed to create ldconfig config file'' e), s2)
        | (None, s2) \<Rightarrow> run_ldconfig env l s2))"

text \<open>The arguments of the other process: built by the parent, parsed by the child.\<close>

definition new_runner :: "string \<Rightarrow> string \<Rightarrow> string list \<Rightarrow> gerr + string list" where
  "new_runner path root dirs =
     (if root = [] \<or> root = ''/'' then Inl (Msg ''container root must be specified and not be the system root'')
      else Inr ([''rbln-update-ldcache'', ''--ldconfig-path'', path, ''--container-root'', root] @ dirs))"

fun parse_runner_args :: "string list \<Rightarrow> ldconfig \<Rightarrow> gerr + ldconfig" where
  "parse_runner_args [] l = Inr l"
| "parse_runner_args (a # as) l =
     (if a = ''--ldconfig-path'' then (case as of
          [] \<Rightarrow> Inl (Msg ''--ldconfig-path requires an argument'') | v # vs \<Rightarrow> parse_runner_args vs (l\<lparr> lc_path := v \<rparr>))
      else if a = ''--container-root'' then (case as of
          [] \<Rightarrow> Inl (Msg ''--container-root requires an argument'') | v # vs \<Rightarrow> parse_runner_args vs (l\<lparr> lc_root := v \<rparr>))
      else if has_prefix a ''--'' then parse_runner_args as l
      else parse_runner_args as (l\<lparr> lc_dirs := lc_dirs l @ [a] \<rparr>))"

definition run_ldconfig_update :: "hook_env \<Rightarrow> string list \<Rightarrow> os \<Rightarrow> gerr option \<times> os" where
  "run_ldconfig_update env args s =
     (if length args < 5 then (Some (Msg (''insufficient arguments: ['' @ join_strs '' '' args @ '']'')), s)
      else case parse_runner_args (drop 1 args) \<lparr> lc_path = [], lc_root = [], lc_dirs = [] \<rparr> of
        Inl e \<Rightarrow> (Some e, s)
      | Inr l \<Rightarrow>
          if lc_path l = [] then (Some (Msg ''ldconfig path must be specified''), s)
          else if lc_root l = [] \<or> lc_root l = ''/''
               then (Some (Msg ''container root must be specified and not be the system root''), s)
          else update_ld_cache env l s)"

text \<open>The child reports its error on its standard error and exits with 1.\<close>

definition run_child :: "hook_env \<Rightarrow> string list \<Rightarrow> os \<Rightarrow> gerr option \<times> os" where
  "run_child env args s = (case run_ldconfig_update env args s of
      (Some e, s1) \<Rightarrow> (Some (Msg ''exit status 1''), s1) | (None, s1) \<Rightarrow> (None, s1))"

definition execute_update_ldcache :: "hook_env \<Rightarrow> string list \<Rightarrow> string \<Rightarrow> string \<Rightarrow> os \<Rightarrow> gerr option \<times> os" where
  "execute_update_ldcache env folders path file s = (case hook_root env file s of
      (Inl e, s1) \<Rightarrow> (Some e, s1)
    | (Inr root, s1) \<Rightarrow> (case new_runner path root folders of
        Inl e \<Rightarrow> (Some (WrapW ''failed to create ldconfig runner'' e), s1)
      | Inr args \<Rightarrow> (case run_child env args s1 of
          (Some e, s2) \<Rightarrow> (Some (WrapW ''ldconfig execution failed'' e), s2)
        | (None, s2) \<Rightarrow> (None, s2))))"

subsection \<open>The links a container ends up with\<close>

text \<open>
  The generator's specification of a link is read back, unless its target holds the separator.
\<close>

lemma str_index_first:
  assumes "\<not> str_contains (t @ '':'') ''::''"
  shows "str_index (t @ ''::'' @ l) ''::'' = Some (length t)"
  using assms
proof (induction t)
  case Nil
  then show ?case by (cases l) auto
next
  case (Cons c t)
  have "\<not> has_prefix (c # t @ ''::'' @ l) ''::''" using Cons.prems by (cases t) (auto simp: str_contains_def split: if_splits)
  moreover have "\<not> str_contains (t @ '':'') ''::''" using Cons.prems by (auto simp: str_contains_def split: if_splits)
  ultimately show ?case using Cons.IH by simp
qed

lemma link_spec_parts: "\<not> str_contains (target @ '':'') ''::'' \<Longrightarrow> link_parts (link_spec target link) = Some (target, link)"
  using str_index_first [of target link] by (simp add: link_parts_def link_spec_def)

text \<open>The file system without its own-named nodes: what a path goes through before its last name.\<close>

definition others_only :: "(string \<Rightarrow> bool) \<Rightarrow> fs \<Rightarrow> fs" where
  "others_only own fs = filter (\<lambda>(k, n). \<not> own_key own k) fs"

lemma node_at_others: "node_at (others_only own fs) k = (if own_key own k then None else node_at fs k)"
proof -
  have "map_of (filter (\<lambda>(k, n). \<not> own_key own k) fs) k = (if own_key own k then None else map_of fs k)"
    by (induction fs) auto
  then show ?thesis by (auto simp: node_at_def others_only_def own_key_def)
qed

definition keeps_others :: "(string \<Rightarrow> bool) \<Rightarrow> fs \<Rightarrow> fs \<Rightarrow> bool" where
  "keeps_others own base fs \<longleftrightarrow> (\<forall>k n. \<not> own_key own k \<and> node_at base k = Some n \<longrightarrow> node_at fs k = Some n)"

lemma walk_others:
  "\<lbrakk> walk (others_only own base) fuel False done cs = Inr k; own_key own k; keeps_others own base fs \<rbrakk>
   \<Longrightarrow> walk fs fuel False done cs = Inr k"
proof (induction "others_only own base" fuel False "done" cs rule: walk.induct)
  case (1 fuel "done")
  then show ?case by simp
next
  case (2 fuel "done" c cs)
  note pr = "2.prems"
  consider "c = [] \<or> c = ''.''" | "\<not> (c = [] \<or> c = ''.'')" "c = ''..''"
    | "\<not> (c = [] \<or> c = ''.'')" "c \<noteq> ''..''" by blast
  then show ?case
  proof cases
    case 1
    with pr "2.hyps"(1) [OF 1 _ pr(2,3)] show ?thesis by auto
  next
    case 2
    with pr "2.hyps"(2) [OF 2 _ pr(2,3)] show ?thesis by auto
  next
    case 3
    show ?thesis
    proof (cases "node_at (others_only own base) (done @ [c])")
      case None
      then have "cs = []" "k = done @ [c]" using pr(1) 3 by (auto split: if_splits)
      then show ?thesis using 3 by (auto split: option.split node.split)
    next
      case (Some n)
      then have n: "node_at fs (done @ [c]) = Some n"
        using pr(3) by (simp add: node_at_others keeps_others_def split: if_splits)
      show ?thesis
      proof (cases n)
        case Dir
        with Some n 3 pr(1) "2.hyps"(3) [OF 3 Some Dir _ pr(2,3)] show ?thesis by simp
      next
        case (Sym t)
        show ?thesis
        proof (cases "cs = [] \<or> fuel = 0")
          case True
          with Some n Sym 3 pr(1) show ?thesis by (auto split: if_splits)
        next
          case False
          with Some n Sym 3 pr(1) "2.hyps"(4) [OF 3 Some Sym _ _ _ pr(2,3)] show ?thesis by simp
        qed
      qed (use Some n 3 pr(1) in \<open>auto split: if_splits\<close>)
    qed
  qed
qed

text \<open>Where the path of a link leads, whatever happens to the own names.\<close>

definition link_place :: "(string \<Rightarrow> bool) \<Rightarrow> fs \<Rightarrow> string \<Rightarrow> string list \<Rightarrow> bool" where
  "link_place own base p k \<longleftrightarrow> resolve (others_only own base) False p = Inr k \<and> own_key own k"

lemma link_place_resolve: "\<lbrakk> link_place own base p k; keeps_others own base fs \<rbrakk> \<Longrightarrow> resolve fs False p = Inr k"
  unfolding link_place_def resolve_def by (blast intro: walk_others)

text \<open>What one link leaves: itself, and all but its own place as before.\<close>

definition link_made :: "string list \<Rightarrow> string \<Rightarrow> fs \<Rightarrow> fs \<Rightarrow> bool" where
  "link_made k t fs fs' \<longleftrightarrow> node_at fs' k = Some (Sym t) \<and> (\<forall>j n. j \<noteq> k \<and> node_at fs j = Some n \<longrightarrow> node_at fs' j = Some n)"

lemma link_made_keeps: "\<lbrakk> link_made k t fs fs'; own_key own k; keeps_others own base fs \<rbrakk> \<Longrightarrow> keeps_others own base fs'"
  unfolding link_made_def keeps_others_def by metis

lemma symlink_makes:
  assumes "effect (fs_symlink t p) s = (Inr u, s')" "resolve (nodes s) False p = Inr k"
  shows "node_at (nodes s) k = None \<and> nodes s' = set_node k (Sym t) (nodes s)"
  using effect_Inr [OF assms(1)] assms(2) by (auto simp: fs_symlink_def split: option.splits)

lemma force_makes:
  assumes "force_create_symlink t p s = (None, s')" and k: "resolve (nodes s) False p = Inr k"
    and del: "k \<noteq> []" "resolve (del_node k (nodes s)) False p = Inr k"
  shows "link_made k t (nodes s) (nodes s')"
proof -
  obtain r1 s1 where q: "query (\<lambda>fs. fs_lstat fs p) s = (r1, s1)" by fastforce
  have n1: "nodes s1 = nodes s" using query_snd [OF q] by simp
  have made: "link_made k t (nodes s) (nodes s')"
    if e: "effect (fs_symlink t p) s2 = (Inr u, s')" and n: "nodes s2 = nodes s \<or> nodes s2 = del_node k (nodes s)" for s2 u
  proof -
    have "resolve (nodes s2) False p = Inr k" using n k del(2) by auto
    from symlink_makes [OF e this] n del(1) show ?thesis by (auto simp: link_made_def node_at_set node_at_del)
  qed
  show ?thesis
  proof (cases r1)
    case (Inl e)
    with assms(1) q made [of s1] n1 show ?thesis
      by (auto simp: force_create_symlink_def Let_def split: if_splits sum.splits prod.splits)
  next
    case (Inr n)
    with assms(1) q obtain s2 u where r: "effect (fs_remove p) s1 = (Inr u, s2)" "effect (fs_symlink t p) s2 = (Inr (), s')"
      by (auto simp: force_create_symlink_def Let_def split: sum.splits prod.splits)
    have "nodes s2 = del_node k (nodes s)"
      using effect_Inr [OF r(1)] n1 k by (auto simp: fs_remove_def split: option.splits node.splits if_splits)
    with made [OF r(2)] show ?thesis by simp
  qed
qed

lemma extends_keeps_others: "\<lbrakk> extends a b; keeps_others own base a \<rbrakk> \<Longrightarrow> keeps_others own base b"
  by (simp add: keeps_others_def extendsD)

lemma create_symlink_makes:
  assumes c: "create_symlink_in_container root t l s = (None, s')"
    and keep: "keeps_others own base (nodes s)" and place: "link_place own base (path_join [root, l]) k"
  shows "link_made k t (nodes s) (nodes s')"
proof -
  let ?p = "path_join [root, l]"
  have own: "own_key own k" "k \<noteq> []" using place by (simp_all add: link_place_def own_key_def)
  obtain r1 s1 where q: "query (\<lambda>fs. fs_read_link fs ?p) s = (r1, s1)" by fastforce
  have n1: "nodes s1 = nodes s" using query_snd [OF q] by simp
  have k: "resolve (nodes s) False ?p = Inr k" by (rule link_place_resolve [OF place keep])
  show ?thesis
  proof (cases "r1 = Inr t")
    case True
    with query_Inr [of _ s t s1, OF q [unfolded True]] k have "node_at (nodes s) k = Some (Sym t)"
      by (auto simp: fs_read_link_def fs_lstat_def node_res_def split: sum.splits option.splits node.splits)
    then show ?thesis using c q True n1 by (auto simp: create_symlink_in_container_def Let_def link_made_def)
  next
    case False
    with c q obtain s2 u where m: "effect (fs_mkdir_all (path_dir ?p)) s1 = (Inr u, s2)" "force_create_symlink t ?p s2 = (None, s')"
      by (auto simp: create_symlink_in_container_def Let_def split: sum.splits prod.splits)
    have ex: "extends (nodes s) (nodes s2)"
      by (rule effect_nodes [where P = "extends (nodes s)", OF m(1)]) (simp_all add: n1 fs_mkdir_all_def mkdir_each_extends)
    have keep2: "keeps_others own base (nodes s2)" by (rule extends_keeps_others [OF ex keep])
    have del: "keeps_others own base (del_node k (nodes s2))"
      using keep2 own by (auto simp: keeps_others_def node_at_del)
    from force_makes [OF m(2) link_place_resolve [OF place keep2] own(2) link_place_resolve [OF place del]] ex
    show ?thesis by (auto simp: link_made_def extendsD)
  qed
qed

definition links_at :: "string \<Rightarrow> (string \<Rightarrow> bool) \<Rightarrow> fs \<Rightarrow> string list \<Rightarrow> fs \<Rightarrow> bool" where
  "links_at root own base ls fs \<longleftrightarrow> (\<forall>x \<in> set ls. \<exists>t l k. link_parts x = Some (t, l)
     \<and> link_place own base (path_join [root, l]) k \<and> node_at fs k = Some (Sym t))"

text \<open>Two specifications for one place ask for the same target.\<close>

definition links_agree :: "string \<Rightarrow> (string \<Rightarrow> bool) \<Rightarrow> fs \<Rightarrow> string list \<Rightarrow> bool" where
  "links_agree root own base ls \<longleftrightarrow>
     (\<forall>x \<in> set ls. \<forall>y \<in> set ls. case (link_parts x, link_parts y) of
        (Some (t, l), Some (t', l')) \<Rightarrow>
          resolve (others_only own base) False (path_join [root, l]) = resolve (others_only own base) False (path_join [root, l']) \<longrightarrow> t = t'
      | _ \<Rightarrow> True)"

lemma links_at_step:
  assumes "links_at root own base done fs" "link_made k t fs fs'" "link_place own base (path_join [root, l]) k"
    and "link_parts x = Some (t, l)" "links_agree root own base ls" "x \<in> set ls" "set done \<subseteq> set ls"
  shows "links_at root own base (x # done) fs'"
proof -
  have "\<exists>t' l' k'. link_parts y = Some (t', l') \<and> link_place own base (path_join [root, l']) k' \<and> node_at fs' k' = Some (Sym t')"
    if y: "y \<in> set done" for y
  proof -
    obtain t' l' k' where y': "link_parts y = Some (t', l')" "link_place own base (path_join [root, l']) k'" "node_at fs k' = Some (Sym t')"
      using assms(1) y unfolding links_at_def by blast
    have "t' = t" if "k' = k"
      using assms(3-7) y y' that unfolding links_agree_def link_place_def by fastforce
    then have "node_at fs' k' = Some (Sym t')" using assms(2) y'(3) unfolding link_made_def by (cases "k' = k") auto
    with y' show ?thesis by blast
  qed
  then show ?thesis using assms(2-4) by (auto simp: links_at_def link_made_def)
qed

lemma create_links_inv:
  "\<lbrakk> create_links root created todo s = (None, s'); keeps_others own base (nodes s); links_at root own base created (nodes s);
     links_agree root own base ls; set todo \<union> set created \<subseteq> set ls;
     \<forall>x \<in> set ls. \<forall>t l. link_parts x = Some (t, l) \<longrightarrow> (\<exists>k. link_place own base (path_join [root, l]) k) \<rbrakk>
   \<Longrightarrow> keeps_others own base (nodes s') \<and> links_at root own base (todo @ created) (nodes s')"
proof (induction root created todo s rule: create_links.induct)
  case (1 root created s)
  then show ?case by simp
next
  case (2 root created x todo s)
  show ?case
  proof (cases "x \<in> set created")
    case True
    with 2 show ?thesis by (auto simp: links_at_def)
  next
    case False
    with "2.prems"(1) obtain t l s1 where x: "link_parts x = Some (t, l)" "create_symlink_in_container root t l s = (None, s1)"
      "create_links root (x # created) todo s1 = (None, s')" by (auto split: option.splits prod.splits)
    have "x \<in> set ls" using "2.prems"(5) by simp
    with "2.prems"(6) x(1) obtain k where k: "link_place own base (path_join [root, l]) k" by blast
    have made: "link_made k t (nodes s) (nodes s1)" by (rule create_symlink_makes [OF x(2) "2.prems"(2) k])
    have "keeps_others own base (nodes s1)" using link_made_keeps [OF made _ "2.prems"(2)] k by (simp add: link_place_def)
    moreover have "links_at root own base (x # created) (nodes s1)"
      by (rule links_at_step [OF "2.prems"(3) made k x(1) "2.prems"(4)]) (use "2.prems"(5) in auto)
    ultimately show ?thesis
      using "2.IH"(2) [OF False x(1) refl x(2) [symmetric] _ x(3) _ _ "2.prems"(4) _ "2.prems"(6)] "2.prems"(5) by (auto simp: links_at_def)
  qed
qed


definition demo_container :: os where
  "demo_container = \<lparr> nodes = [([''c''], Dir), ([''c'', ''lib''], Dir), ([''c'', ''lib'', ''libr.so''], Reg ''old'' 0x1A4),
     ([''c'', ''lib'', ''libr.so.1''], Reg ''elf'' 0x1ED)], faults = [], history = [] \<rparr>"

lemma demo_links_run: "\<exists>s'. create_links ''/c'' [] [''libr.so.1::/lib/libr.so'', ''libr.so.1::/lib/libr.so''] demo_container = (None, s')"
proof -
  have "fst (create_links ''/c'' [] [''libr.so.1::/lib/libr.so'', ''libr.so.1::/lib/libr.so''] demo_container) = None" by code_simp
  then show ?thesis by (metis prod.collapse)
qed


text \<open>What the paths do not protect from: a link with \<open>..\<close> leaves the container.\<close>

lemma link_escapes: "path_join [''/run/container'', ''/../../etc/ld.so.preload''] = ''/etc/ld.so.preload''"
  by code_simp

subsection \<open>The drop-in file\<close>

lemma write_directories_pieces:
  "write_directories k seen ds s = (case write_pieces k (map (\<lambda>d. d @ [newline]) (dedup_by (\<lambda>d. d) seen ds)) s of
      (Inl e, s1) \<Rightarrow> (Some (WrapW ''failed to write directory'' (Sys e)), s1) | (Inr _, s1) \<Rightarrow> (None, s1))"
proof (induction k seen ds s rule: write_directories.induct)
  case (2 k seen d ds s)
  then show ?case by (auto split: prod.split sum.split)
qed simp

lemma create_temp_path:
  "fs_create_temp dir prefix sfxs fs = (Inr (p, k), fs') \<Longrightarrow> \<exists>x \<in> set sfxs. p = dir @ ''/'' @ prefix @ x"
  by (induction sfxs) (auto simp: Let_def split: sum.splits option.splits)

text \<open>The text of the drop-in: each directory once, in order, on a line of its own.\<close>

definition dropin_text :: "string list \<Rightarrow> string" where
  "dropin_text dirs = concat (map (\<lambda>d. d @ [newline]) (dedup_by (\<lambda>d. d) [] dirs))"

lemma ldsoconfd_created:
  assumes c: "create_ldsoconfd_file env l dir s = (None, s')" and oa: "only_added base h s" and dirs: "lc_dirs l \<noteq> []"
  shows "\<exists>x k. only_added base h s' \<and> node_at base k = None \<and> resolve (nodes s') False (dir @ ''/00-rbln-'' @ x @ ''.conf'') = Inr k
    \<and> node_at (nodes s') k = Some (Reg (dropin_text (lc_dirs l)) 0x1A4)"
proof -
  let ?sfx = "map (\<lambda>x. x @ ''.conf'') (he_suffixes env)"
  from c dirs obtain p k s1 s2 u where e: "effect (fs_create_temp dir ''00-rbln-'' ?sfx) s = (Inr (p, k), s1)"
    "write_directories k [] (lc_dirs l) s1 = (None, s2)" "effect (fd_chmod k 0x1A4) s2 = (Inr u, s')"
    by (auto simp: create_ldsoconfd_file_def split: prod.splits sum.splits option.splits)
  obtain x where x: "p = dir @ ''/'' @ ''00-rbln-'' @ x @ ''.conf''"
    using effect_Inr [OF e(1)] create_temp_path by fastforce
  have t1: "temp_open base h p k s1" "node_at (nodes s1) k = Some (Reg [] 0x180)"
    using create_temp_opens [OF oa e(1)] by simp_all
  obtain v where w: "write_pieces k (map (\<lambda>d. d @ [newline]) (dedup_by (\<lambda>d. d) [] (lc_dirs l))) s1 = (Inr v, s2)"
    using e(2) unfolding write_directories_pieces by (auto split: prod.splits sum.splits)
  have t2: "temp_open base h p k s2" "node_at (nodes s2) k = Some (Reg (dropin_text (lc_dirs l)) 0x180)"
    using write_pieces_temp [OF t1 w] by (simp_all add: dropin_text_def)
  have "temp_open base h p k s'" "node_at (nodes s') k = Some (Reg (dropin_text (lc_dirs l)) 0x1A4)"
    using fd_chmod_temp [OF t2(1) e(3) t2(2)] by simp_all
  then show ?thesis unfolding temp_open_def x by auto
qed

lemma update_ld_cache_ok:
  assumes u: "update_ld_cache env l s = (None, s')" and dirs: "lc_dirs l \<noteq> []"
  shows "\<exists>fs x k. extends (nodes s) fs \<and> node_at (nodes s) k = None
    \<and> resolve fs False (ldsoconfd_dir (lc_root l) @ ''/00-rbln-'' @ x @ ''.conf'') = Inr k
    \<and> node_at fs k = Some (Reg (dropin_text (lc_dirs l)) 0x1A4)
    \<and> he_ldconfig env [lc_path l, ''-r'', lc_root l] fs = (None, nodes s')"
proof -
  from u obtain s1 s2 v where e: "effect (fs_mkdir_all (ldsoconfd_dir (lc_root l))) s = (Inr v, s1)"
    "create_ldsoconfd_file env l (ldsoconfd_dir (lc_root l)) s1 = (None, s2)" "run_ldconfig env l s2 = (None, s')"
    by (auto simp: update_ld_cache_def Let_def split: prod.splits sum.splits option.splits)
  have oa: "only_added (nodes s) (history s) s1"
    by (rule only_added_effect [OF _ e(1)]) (simp_all add: only_added_def fs_mkdir_all_def mkdir_each_extends)
  have "he_ldconfig env [lc_path l, ''-r'', lc_root l] (nodes s2) = (None, nodes s')"
    using e(3) by (auto simp: run_ldconfig_def split: prod.splits sum.splits option.splits dest!: query_snd)
  with ldsoconfd_created [OF e(2) oa dirs] show ?thesis unfolding only_added_def by blast
qed

lemma parse_dirs:
  "list_all (\<lambda>d. \<not> has_prefix d ''--'') ds \<Longrightarrow> parse_runner_args ds l = Inr (l\<lparr> lc_dirs := lc_dirs l @ ds \<rparr>)"
  by (induction ds arbitrary: l) auto

lemma runner_roundtrip:
  assumes "new_runner path root dirs = Inr args" "list_all (\<lambda>d. \<not> has_prefix d ''--'') dirs" "path \<noteq> []"
  shows "run_ldconfig_update env args s = update_ld_cache env \<lparr> lc_path = path, lc_root = root, lc_dirs = dirs \<rparr> s"
  using assms parse_dirs [OF assms(2)] by (auto simp: new_runner_def run_ldconfig_update_def split: if_splits)

lemma load_state_same: "load_container_state env f s = (r, s') \<Longrightarrow> nodes s' = nodes s \<and> history s' = history s"
  unfolding load_container_state_def by (simp split: if_splits prod.splits sum.splits) (metis query_snd)+

lemma load_spec_same: "load_minimal_spec st s = (r, s') \<Longrightarrow> nodes s' = nodes s \<and> history s' = history s"
  unfolding load_minimal_spec_def Let_def by (simp split: prod.splits sum.splits option.splits) (metis query_snd)+

lemma resolve_root_ok: "resolve_root b x = Inr root \<Longrightarrow> root \<noteq> ''/'' \<and> root \<noteq> []"
  by (auto simp: resolve_root_def Let_def split: if_splits)

lemma hook_root_ok:
  assumes "hook_root env file s = (r, s')"
  shows "nodes s' = nodes s \<and> history s' = history s \<and> (\<forall>root. r = Inr root \<longrightarrow> root \<noteq> ''/'' \<and> root \<noteq> [])"
proof -
  obtain r1 s1 where l: "load_container_state env file s = (r1, s1)" by fastforce
  show ?thesis
  proof (cases r1)
    case (Inl e)
    with assms l load_state_same [OF l] show ?thesis by (auto simp: hook_root_def)
  next
    case (Inr st)
    obtain r2 s2 where m: "load_minimal_spec st s1 = (r2, s2)" by fastforce
    show ?thesis
      using assms l Inr m load_state_same [OF l] load_spec_same [OF m]
      by (auto simp: hook_root_def get_container_root_def dest: resolve_root_ok split: sum.splits if_splits)
  qed
qed

text \<open>
  C37: A successful cache update ran \<open>ldconfig\<close> on the root of the container named by the state (never the
  system root), with the program and the directories that were asked for surviving the passage through the
  other process's arguments, after a new drop-in file of mode 0644 was put into that root that lists each
  directory once and in order, and with nothing else of the file system changed before.
\<close>

theorem ldcache_updated:
  assumes "execute_update_ldcache env folders path file s = (None, s')"
    and "list_all (\<lambda>d. \<not> has_prefix d ''--'') folders" "folders \<noteq> []" "path \<noteq> []"
  shows "\<exists>root s1 fs x k. hook_root env file s = (Inr root, s1) \<and> root \<noteq> ''/'' \<and> root \<noteq> []
    \<and> extends (nodes s) fs \<and> node_at (nodes s) k = None
    \<and> resolve fs False (ldsoconfd_dir root @ ''/00-rbln-'' @ x @ ''.conf'') = Inr k
    \<and> node_at fs k = Some (Reg (dropin_text folders) 0x1A4)
    \<and> he_ldconfig env [path, ''-r'', root] fs = (None, nodes s')"
proof -
  obtain root s1 args where r: "hook_root env file s = (Inr root, s1)" "new_runner path root folders = Inr args"
    "run_ldconfig_update env args s1 = (None, s')"
    using assms(1) by (auto simp: execute_update_ldcache_def run_child_def split: prod.splits sum.splits option.splits)
  let ?l = "\<lparr> lc_path = path, lc_root = root, lc_dirs = folders \<rparr>"
  have "update_ld_cache env ?l s1 = (None, s')" using r(3) runner_roundtrip [OF r(2) assms(2,4), of env s1] by simp
  from update_ld_cache_ok [OF this] hook_root_ok [OF r(1)] r(1) assms(3) show ?thesis by auto
qed

definition demo_hook_env :: hook_env where
  "demo_hook_env = \<lparr> he_stdin = json_text None (VTab [(''ociVersion'', VStr ''1.0''), (''id'', VStr ''i''), (''bundle'', VStr ''/b'')]),
     he_ldconfig = \<lambda>cmd fs. (None, set_node [''c'', ''cache''] (Reg [] 0x1A4) fs), he_suffixes = [''1''] \<rparr>"

definition demo_hook_os :: os where
  "demo_hook_os = \<lparr> nodes = [([''b''], Dir), ([''b'', ''config.json''], Reg (json_text (Some 0) (VTab [(''root'', VTab [(''path'', VStr ''/c'')])])) 0x1A4),
     ([''c''], Dir), ([''ldc''], Reg [] 0x1ED)], faults = [], history = [] \<rparr>"

lemma demo_ldcache_run: "\<exists>s'. execute_update_ldcache demo_hook_env [''/lib'', ''/x'', ''/lib''] ''/ldc'' [] demo_hook_os = (None, s')"
proof -
  have "fst (execute_update_ldcache demo_hook_env [''/lib'', ''/x'', ''/lib''] ''/ldc'' [] demo_hook_os) = None" by code_simp
  then show ?thesis by (metis prod.collapse)
qed

theorem ldcache_updated_witness:
  "dropin_text [''/lib'', ''/x'', ''/lib''] = ''/lib'' @ [newline] @ ''/x'' @ [newline]
    \<and> (\<exists>root s1 fs x k. hook_root demo_hook_env [] demo_hook_os = (Inr root, s1) \<and> extends (nodes demo_hook_os) fs
        \<and> resolve fs False (ldsoconfd_dir root @ ''/00-rbln-'' @ x @ ''.conf'') = Inr k
        \<and> node_at fs k = Some (Reg (dropin_text [''/lib'', ''/x'', ''/lib'']) 0x1A4))"
proof -
  obtain s' where "execute_update_ldcache demo_hook_env [''/lib'', ''/x'', ''/lib''] ''/ldc'' [] demo_hook_os = (None, s')"
    using demo_ldcache_run by blast
  from ldcache_updated [OF this] show ?thesis by (auto simp: dropin_text_def)
qed

text \<open>
  The test for the system root looks at the text of the path only: an absolute root that is not clean
  passes it and the cache of the host is updated.
\<close>

lemma unclean_root_passes:
  "resolve_root ''/b'' (Some \<lparr> rt_path = ''/.'', rt_readonly = False \<rparr>) = Inr ''/.''"
  "new_runner ''/sbin/ldconfig'' ''/.'' [] \<noteq> Inl e" "clean ''/.'' = ''/''"
  by (simp_all add: resolve_root_def new_runner_def is_abs_def) code_simp

end
