(* ===== verification/Ctk_Cli.thy ===== *)
theory Ctk_Cli imports Cdi_Setup Runtime_Configure begin

text \<open>
  The user's command (\<open>cmd/rbln-ctk\<close>) and the formatter of its listings (\<open>internal/output\<close>). Flags arrive as
  the flag library hands them over; the encoders of the listing and the column layout of a table are
  parameters. What is printed is the list of the printed pieces.
\<close>

subsection \<open>Listings\<close>

record library_output =
  lo_name :: string
  lo_path :: string
  lo_type :: string

record rdma_output =
  ro_name :: string
  ro_path :: string
  ro_driver :: string

record list_output =
  out_libraries :: "library_output list"
  out_rdma :: "rdma_output list"
  out_tools :: "(string \<times> string) list"
  out_devices :: "string list"

definition to_list_output :: "discovery_result option \<Rightarrow> list_output" where
  "to_list_output result = (case result of
      None \<Rightarrow> \<lparr> out_libraries = [], out_rdma = [], out_tools = [], out_devices = [] \<rparr>
    | Some r \<Rightarrow> \<lparr>
        out_libraries = map (\<lambda>l. \<lparr> lo_name = lib_name l, lo_path = lib_path l, lo_type = library_type_string (lib_type l) \<rparr>) (dr_libraries r),
        out_rdma = map (\<lambda>p. \<lparr> ro_name = rp_name p, ro_path = rp_path p, ro_driver = rp_driver p \<rparr>) (dr_rdma r),
        out_tools = map (\<lambda>t. (tool_name t, tool_path t)) (dr_tools r),
        out_devices = map dev_path (dr_devices r) \<rparr>)"

record formatter =
  fm_table :: "string list list \<Rightarrow> string"
  fm_json :: "list_output \<Rightarrow> gerr + string"
  fm_yaml :: "list_output \<Rightarrow> gerr + string"
  fm_write :: "string \<Rightarrow> gerr option"

definition no_driver_message :: string where
  "no_driver_message = ''No RBLN libraries or tools found. Ensure the RBLN driver is installed.'' @ [newline]"

definition table_rows :: "discovery_result option \<Rightarrow> string list list" where
  "table_rows result = [''TYPE'', ''NAME'', ''PATH''] # (case result of None \<Rightarrow> [] | Some r \<Rightarrow>
      map (\<lambda>l. [''library'', lib_name l, lib_path l]) (dr_libraries r)
      @ map (\<lambda>p. [''rdma-provider'', rp_name p, rp_path p]) (dr_rdma r)
      @ map (\<lambda>t. [''tool'', tool_name t, tool_path t]) (dr_tools r)
      @ map (\<lambda>d. [''device'', path_base (dev_path d), dev_path d]) (dr_devices r))"

definition table_empty :: "discovery_result option \<Rightarrow> bool" where
  "table_empty result \<longleftrightarrow> (case result of None \<Rightarrow> True
     | Some r \<Rightarrow> dr_libraries r = [] \<and> dr_tools r = [] \<and> dr_devices r = [])"

text \<open>The message goes to the writer at once, the table when it is flushed at the end.\<close>

definition format_table :: "formatter \<Rightarrow> discovery_result option \<Rightarrow> gerr option \<times> string list" where
  "format_table f result =
     (None, if table_empty result then [no_driver_message, fm_table f (table_rows result @ [[]])]
            else [fm_table f (table_rows result)])"

definition format_encoded :: "formatter \<Rightarrow> (list_output \<Rightarrow> gerr + string) \<Rightarrow> string \<Rightarrow> discovery_result option \<Rightarrow> gerr option \<times> string list" where
  "format_encoded f enc sfx result = (case enc (to_list_output result) of
      Inl e \<Rightarrow> (Some e, [])
    | Inr data \<Rightarrow> (case fm_write f (data @ sfx) of Some e \<Rightarrow> (Some e, []) | None \<Rightarrow> (None, [data @ sfx])))"

definition format_result :: "formatter \<Rightarrow> discovery_result option \<Rightarrow> string \<Rightarrow> gerr option \<times> string list" where
  "format_result f result fmt =
     (let low = to_lower fmt
      in if low = ''table'' then format_table f result
         else if low = ''json'' then format_encoded f (fm_json f) [newline] result
         else if low = ''yaml'' then format_encoded f (fm_yaml f) [] result
         else (Some (Msg (''unsupported format: '' @ fmt @ '' (expected table, json, or yaml)'')), []))"

subsection \<open>The cdi commands\<close>

record ctk_env =
  ce_setup :: setup_env
  ce_codecs :: codecs
  ce_decode :: "string \<Rightarrow> config \<Rightarrow> config option"
  ce_getenv :: "string \<Rightarrow> string"
  ce_out :: "string \<Rightarrow> gerr option"
  ce_format :: formatter

definition ctk_loader :: "string \<Rightarrow> loader" where
  "ctk_loader config = (if config \<noteq> [] then with_file config new_loader else new_loader)"

definition ctk_load :: "ctk_env \<Rightarrow> fs \<Rightarrow> string \<Rightarrow> cfg_option list \<Rightarrow> gerr + config" where
  "ctk_load env fs config opts = (case load (ce_decode env) fs (ce_getenv env) (ctk_loader config) opts of
      Inl e \<Rightarrow> Inl (WrapW ''load configuration'' e) | Inr cfg \<Rightarrow> Inr cfg)"

record generate_flags =
  gf_config :: string
  gf_driver_root :: string
  gf_output :: string
  gf_rds_output :: string
  gf_format :: string
  gf_library_path :: string
  gf_debug :: bool
  gf_dry_run :: bool
  gf_quiet :: bool

definition generate_config_options :: "generate_flags \<Rightarrow> cfg_option list" where
  "generate_config_options fl = [with_driver_root (gf_driver_root fl), with_output_path (gf_output fl), with_format (gf_format fl),
     with_debug (gf_debug fl), with_container_library_path (gf_library_path fl)]"

definition strict_options :: "config \<Rightarrow> string \<Rightarrow> string \<Rightarrow> string \<Rightarrow> setup_options" where
  "strict_options cfg out rds_out fmt = \<lparr> so_config = Some cfg, so_output_path = out, so_rds_output_path = rds_out,
     so_format = fmt, so_error_mode = ErrorModeStrict, so_library_discoverer = None, so_tool_discoverer = None,
     so_device_discoverer = None, so_rds_device_discoverer = None, so_resolver = None, so_logger = False \<rparr>"

definition run_cdi_generate :: "ctk_env \<Rightarrow> generate_flags \<Rightarrow> os \<Rightarrow> gerr option \<times> os \<times> string list" where
  "run_cdi_generate env fl s = (case ctk_load env (nodes s) (gf_config fl) (generate_config_options fl) of
      Inl e \<Rightarrow> (Some e, s, [])
    | Inr cfg \<Rightarrow>
        if gf_dry_run fl \<or> gf_output fl = ''-''
        then (case generate_cdi_spec_to_writer (ce_setup env) (ce_out env) (Some (strict_options cfg [] [] (gf_format fl))) (nodes s) of
                (r, printed) \<Rightarrow> (r, s, printed))
        else (case generate_cdi_spec (ce_setup env) (Some (strict_options cfg (gf_output fl) (gf_rds_output fl) (gf_format fl))) s of
                (Some e, s1, _) \<Rightarrow> (Some e, s1, [])
              | (None, s1, _) \<Rightarrow> (None, s1, if gf_quiet fl then [] else [''CDI spec written to '' @ gf_output fl @ [newline]])))"

text \<open>Listing discovers devices always, whatever the configuration says about injecting them.\<close>

definition ctk_discover :: "ctk_env \<Rightarrow> fs \<Rightarrow> config \<Rightarrow> gerr + discovery_result" where
  "ctk_discover env fs cfg = (case discover_resources (default_library_discoverer (ce_setup env) fs cfg)
        (Some (Inr (tool_discover fs cfg))) (Some (device_discover fs cfg)) of
      Inl e \<Rightarrow> Inl (WrapW ''discover resources'' e) | Inr r \<Rightarrow> Inr r)"

definition run_cdi_list :: "ctk_env \<Rightarrow> string \<Rightarrow> string \<Rightarrow> string \<Rightarrow> bool \<Rightarrow> fs \<Rightarrow> gerr option \<times> string list" where
  "run_cdi_list env config driver fmt dbg fs =
     (case ctk_load env fs config [with_driver_root driver, with_debug dbg] of
        Inl e \<Rightarrow> (Some e, [])
      | Inr cfg \<Rightarrow> (case ctk_discover env fs cfg of
          Inl e \<Rightarrow> (Some e, []) | Inr r \<Rightarrow> format_result (ce_format env) (Some r) fmt))"

definition info_config_path :: "(string \<Rightarrow> string) \<Rightarrow> string \<Rightarrow> string" where
  "info_config_path getenv flag = (if flag \<noteq> [] then flag
     else if getenv ''RBLN_CTK_CONFIG'' \<noteq> [] then getenv ''RBLN_CTK_CONFIG'' else ''/etc/rbln/container-toolkit.yaml'')"

text \<open>The part of \<open>info\<close> that depends on the host: the counts and the configuration; its format flag is not looked at.\<close>

definition run_info :: "ctk_env \<Rightarrow> string \<Rightarrow> string \<Rightarrow> bool \<Rightarrow> fs \<Rightarrow> gerr + string list" where
  "run_info env config fmt dbg fs =
     (case ctk_load env fs config [with_debug dbg] of
        Inl e \<Rightarrow> Inl e
      | Inr cfg \<Rightarrow> (case ctk_discover env fs cfg of
          Inl e \<Rightarrow> Inl e
        | Inr r \<Rightarrow> Inr [''  Libraries:      '' @ show_nat (length (dr_libraries r)) @ '' found'',
            ''  Tools:          '' @ show_nat (length (dr_tools r)) @ '' found'',
            ''  Config File:    '' @ info_config_path (ce_getenv env) config,
            ''  CDI Output:     '' @ cdi_output_path (cdi cfg),
            ''  Driver Root:    '' @ driver_root cfg]))"

subsection \<open>Configuring a runtime\<close>

record configure_flags =
  cf_runtime :: string
  cf_config_path :: string
  cf_cdi :: bool
  cf_dry_run :: bool
  cf_yes :: bool
  cf_quiet :: bool

text \<open>The hint behind the wrapped error, \<open>(specify --runtime manually)\<close>, is dropped.\<close>

definition chosen_runtime :: "configure_flags \<Rightarrow> fs \<Rightarrow> gerr + runtime_type \<times> string list" where
  "chosen_runtime fl fs =
     (if cf_runtime fl \<noteq> []
      then (let rt = runtime_type_of (cf_runtime fl)
            in if rt \<in> {RuntimeContainerd, RuntimeCRIO, RuntimeDocker} then Inr (rt, [])
               else Inl (Msg (''unsupported runtime: '' @ cf_runtime fl @ '' (supported: containerd, crio, docker)'')))
      else case detect_runtime_strict fs None of
             Inl e \<Rightarrow> Inl (WrapW ''detect runtime'' e)
           | Inr rt \<Rightarrow> Inr (rt, if cf_quiet fl then [] else [''Detected runtime: '' @ runtime_text rt @ [newline]]))"

text \<open>\<open>bufio.Reader.ReadString\<close>: a line with its end; an input that stops before is an error.\<close>

definition read_line :: "string \<Rightarrow> gerr + string" where
  "read_line input = (if newline \<in> set input then Inr (takeWhile (\<lambda>c. c \<noteq> newline) input @ [newline]) else Inl (Msg ''EOF''))"

definition confirmed :: "string \<Rightarrow> bool" where
  "confirmed line \<longleftrightarrow> (let r = trim_space (to_lower line) in r = ''y'' \<or> r = ''yes'')"

definition configured_text_lines :: "runtime_type \<Rightarrow> string \<Rightarrow> string list" where
  "configured_text_lines rt p =
     [''Runtime '' @ runtime_text rt @ '' configured for CDI support'' @ [newline], ''Config file: '' @ p @ [newline],
      ''Backup created: '' @ p @ ''.backup'' @ [newline], [newline] @ ''Restart the runtime to apply changes:'' @ [newline],
      ''  sudo systemctl restart '' @ runtime_text rt @ [newline]]"

definition configure_confirmed ::
  "codecs \<Rightarrow> configure_flags \<Rightarrow> runtime_type \<Rightarrow> string \<Rightarrow> string list \<Rightarrow> os \<Rightarrow> gerr option \<times> os \<times> string list" where
  "configure_confirmed cd fl rt p printed s = (case configure cd rt p s of
      (Some e, s1) \<Rightarrow> (Some (WrapW ''configure runtime'' e), s1, printed)
    | (None, s1) \<Rightarrow> (None, s1, printed @ (if cf_quiet fl then [] else configured_text_lines rt p)))"

definition execute_runtime_configure ::
  "codecs \<Rightarrow> configure_flags \<Rightarrow> string \<Rightarrow> os \<Rightarrow> gerr option \<times> os \<times> string list" where
  "execute_runtime_configure cd fl stdin s = (case chosen_runtime fl (nodes s) of
      Inl e \<Rightarrow> (Some e, s, [])
    | Inr (rt, l1) \<Rightarrow>
        (let p = (if cf_config_path fl = [] then default_config_path rt else cf_config_path fl)
         in if cf_dry_run fl
            then (case dry_run cd rt p (nodes s) of
                Inl e \<Rightarrow> (Some (WrapW ''dry run'' e), s, l1)
              | Inr diff \<Rightarrow> (None, s, l1 @ [''Changes that would be made:'' @ [newline], diff @ [newline]]))
            else if \<not> cf_yes fl \<and> \<not> cf_quiet fl
            then (let l2 = l1 @ [''This will modify '' @ p @ ''. Continue? [y/N] '']
                  in case read_line stdin of
                       Inl e \<Rightarrow> (Some (WrapW ''failed to read input'' e), s, l2)
                     | Inr line \<Rightarrow> if confirmed line then configure_confirmed cd fl rt p l2 s
                                   else (None, s, l2 @ [''Aborted.'' @ [newline]]))
            else configure_confirmed cd fl rt p l1 s))"

subsection \<open>Asking first\<close>

definition allowed :: "configure_flags \<Rightarrow> string \<Rightarrow> bool" where
  "allowed fl stdin \<longleftrightarrow> \<not> cf_dry_run fl \<and> (cf_yes fl \<or> cf_quiet fl \<or> (\<exists>line. read_line stdin = Inr line \<and> confirmed line))"

definition flags_config_path :: "configure_flags \<Rightarrow> runtime_type \<Rightarrow> string" where
  "flags_config_path fl rt = (if cf_config_path fl = [] then default_config_path rt else cf_config_path fl)"

lemma execute_configure_cases:
  assumes "execute_runtime_configure cd fl stdin s = (r, s', out)"
  shows "(s' = s \<and> \<not> (r = None \<and> allowed fl stdin)) \<or>
    (allowed fl stdin \<and> (\<exists>rt l p. chosen_runtime fl (nodes s) = Inr (rt, l)
       \<and> configure_confirmed cd fl rt (flags_config_path fl rt) p s = (r, s', out)))"
proof (cases "chosen_runtime fl (nodes s)")
  case (Inl e)
  with assms show ?thesis by (auto simp: execute_runtime_configure_def)
next
  case (Inr x)
  obtain rt l where x: "x = (rt, l)" by (cases x)
  note run = assms [unfolded execute_runtime_configure_def, simplified Inr x sum.case prod.case Let_def, folded flags_config_path_def]
  show ?thesis
  proof (cases "cf_dry_run fl")
    case True
    with run show ?thesis by (auto simp: allowed_def split: sum.splits)
  next
    case False
    show ?thesis
    proof (cases "cf_yes fl \<or> cf_quiet fl")
      case True
      with run False Inr x show ?thesis by (auto simp: allowed_def split: if_splits)
    next
      case no: False
      with run False Inr x show ?thesis
        by (cases "read_line stdin") (auto simp: allowed_def split: if_splits)
    qed
  qed
qed


definition demo_configure_flags :: configure_flags where
  "demo_configure_flags = \<lparr> cf_runtime = ''docker'', cf_config_path = ''/etc/daemon.json'', cf_cdi = False, cf_dry_run = False,
     cf_yes = False, cf_quiet = False \<rparr>"

lemma demo_configure_run:
  "(case execute_runtime_configure demo_codecs demo_configure_flags (''Yes'' @ [newline]) demo_config_os of (r, s', out) \<Rightarrow>
      (r, length out)) = (None, 6)"
  "allowed demo_configure_flags (''Yes'' @ [newline])" "\<not> allowed demo_configure_flags ''y''"
proof -
  show "(case execute_runtime_configure demo_codecs demo_configure_flags (''Yes'' @ [newline]) demo_config_os of (r, s', out) \<Rightarrow>
      (r, length out)) = (None, 6)" by code_simp
  have "read_line (''Yes'' @ [newline]) = Inr (''Yes'' @ [newline])" "confirmed (''Yes'' @ [newline])"
    "read_line ''y'' = Inl (Msg ''EOF'')" by code_simp+
  then show "allowed demo_configure_flags (''Yes'' @ [newline])" "\<not> allowed demo_configure_flags ''y''"
    by (auto simp: allowed_def demo_configure_flags_def)
qed


subsection \<open>Previews\<close>


definition demo_ctk_env :: ctk_env where
  "demo_ctk_env = \<lparr> ce_setup = demo_env, ce_codecs = demo_codecs, ce_decode = \<lambda>_ c. Some c, ce_getenv = \<lambda>_. [], ce_out = \<lambda>_. None,
     ce_format = \<lparr> fm_table = concat \<circ> concat, fm_json = \<lambda>_. Inr [], fm_yaml = \<lambda>_. Inr [], fm_write = \<lambda>_. None \<rparr> \<rparr>"

definition demo_generate_flags :: generate_flags where
  "demo_generate_flags = \<lparr> gf_config = [], gf_driver_root = ''/'', gf_output = ''/cdi/rbln.yaml'', gf_rds_output = [],
     gf_format = ''yaml'', gf_library_path = [], gf_debug = False, gf_dry_run = False, gf_quiet = False \<rparr>"

lemma demo_generate_runs:
  "(case run_cdi_generate demo_ctk_env demo_generate_flags demo_host of (r, s2, out) \<Rightarrow> r) = None"
  "(case run_cdi_generate demo_ctk_env (demo_generate_flags\<lparr> gf_dry_run := True \<rparr>) demo_host of (r, s1, printed) \<Rightarrow> r) = None"
  by code_simp+


text \<open>
  What the commands promise and do not do: the driver root of a configuration file is always overridden
  by the flag, whose default is not empty; the format of \<open>info\<close> is not looked at; a host with RDMA providers
  only is listed and called empty at once; and a backup is announced that CRI-O never has.
\<close>

lemma driver_root_masked:
  assumes "ctk_load env fs config (generate_config_options fl) = Inr cfg" "gf_driver_root fl = ''/''"
  shows "driver_root cfg = ''/''"
proof -
  have keep: "driver_root (with_container_library_path l (with_debug d (with_format f (with_output_path p c)))) = driver_root c" for l d f p c
    by (simp add: with_container_library_path_def with_debug_def with_format_def with_output_path_def)
  from assms show ?thesis
    by (auto simp: ctk_load_def load_def generate_config_options_def keep with_driver_root_def Let_def split: sum.splits if_splits)
qed

lemma info_format_ignored: "run_info env config fmt dbg fs = run_info env config fmt' dbg fs"
  by (simp add: run_info_def)

lemma rdma_listed_as_empty:
  "\<lbrakk> dr_libraries r = []; dr_tools r = []; dr_devices r = []; dr_rdma r = [p] \<rbrakk> \<Longrightarrow>
   snd (format_table f (Some r)) = [no_driver_message, fm_table f [[''TYPE'', ''NAME'', ''PATH''], [''rdma-provider'', rp_name p, rp_path p], []]]"
  by (simp add: format_table_def table_empty_def table_rows_def)

lemma disabling_enables: "execute_runtime_configure cd (fl\<lparr> cf_cdi := False \<rparr>) stdin s = execute_runtime_configure cd fl stdin s"
proof -
  have "chosen_runtime (fl\<lparr> cf_cdi := False \<rparr>) = chosen_runtime fl" "configure_confirmed cd (fl\<lparr> cf_cdi := False \<rparr>) = configure_confirmed cd fl"
    by (simp_all add: fun_eq_iff chosen_runtime_def configure_confirmed_def Let_def split: sum.split prod.split option.split)
  then show ?thesis by (simp add: execute_runtime_configure_def Let_def split: sum.split prod.split)
qed

end
