(* ===== verification/Health.thy ===== *)
theory Health imports Daemon_State Json_Laws begin

text \<open>
  The health endpoints (\<open>internal/daemon/health.go\<close>): the body of a reply and its routing, and the life of
  the HTTP server between \<open>Start\<close> and its return, with \<open>Stop\<close>, the cancellation of its context and the
  requests that are under way. The state of the server and what its handlers decide is in \<open>Daemon_State\<close>.
\<close>

subsection \<open>Replies\<close>

text \<open>A struct is written in the order of its fields, empty ones left out where the tag says so; a map by key.\<close>

definition check_value :: "check_result \<Rightarrow> val" where
  "check_value c = VTab [(''status'', VStr (chk_status c)), (''message'', VStr (chk_message c))]"

definition checks_value :: "(string \<times> check_result) list \<Rightarrow> val" where
  "checks_value cs = VTab (sort_key fst (map (\<lambda>(n, c). (n, check_value c)) cs))"

definition response_value :: "string \<Rightarrow> health_response \<Rightarrow> table" where
  "response_value now r =
     [(''status'', VStr (resp_status r))]
     @ (if resp_reason r = [] then [] else [(''reason'', VStr (resp_reason r))])
     @ (if resp_checks r = [] then [] else [(''checks'', checks_value (resp_checks r))])
     @ [(''timestamp'', VStr now)]"

record http_reply =
  reply_code :: nat
  reply_type :: string
  reply_body :: string

definition write_json :: "string \<Rightarrow> nat \<times> health_response \<Rightarrow> http_reply" where
  "write_json now r = \<lparr> reply_code = fst r, reply_type = ''application/json'',
     reply_body = json_text None (VTab (response_value now (snd r))) @ [newline] \<rparr>"

text \<open>The routes of the mux; \<open>None\<close> is the reply 404 that net/http gives itself. \<open>now\<close> is the clock's text.\<close>

definition health_serve :: "string \<Rightarrow> health_server \<Rightarrow> string \<Rightarrow> http_reply option" where
  "health_serve now hs path =
     (if path = ''/live'' then Some (write_json now (live_handler hs))
      else if path = ''/ready'' then Some (write_json now (ready_handler hs))
      else if path = ''/startup'' then Some (write_json now (startup_handler hs))
      else None)"

subsection \<open>Well-formed states\<close>

text \<open>Checks have distinct names, and all texts are valid UTF-8, so that JSON can hold them.\<close>

definition check_ok :: "check_result \<Rightarrow> bool" where
  "check_ok c \<longleftrightarrow> valid_utf8 (chk_status c) \<and> valid_utf8 (chk_message c)"

definition health_ok :: "health_server \<Rightarrow> bool" where
  "health_ok hs \<longleftrightarrow> distinct (map fst (hs_checks hs)) \<and> list_all (\<lambda>p. valid_utf8 (fst p) \<and> check_ok (snd p)) (hs_checks hs)"

lemma health_ok_ops:
  "health_ok new_health_server" "health_ok hs \<Longrightarrow> health_ok (set_started b hs)" "health_ok hs \<Longrightarrow> health_ok (set_ready b hs)"
  "\<lbrakk> health_ok hs; valid_utf8 n; check_ok c \<rbrakk> \<Longrightarrow> health_ok (add_check n c hs)"
  "health_ok hs \<Longrightarrow> health_ok (remove_check n hs)"
  by (simp_all add: health_ok_def health_defs distinct_update list_all_update distinct_delete list_all_delete)

lemma check_value_typed: "check_ok c \<Longrightarrow> json_typed num (Suc d) (check_value c)"
  by (auto simp: check_value_def check_ok_def intro!: json_typed.intros) code_simp+

lemma checks_value_typed:
  assumes "distinct (map fst cs)" "list_all (\<lambda>p. valid_utf8 (fst p) \<and> check_ok (snd p)) cs"
  shows "json_typed num (Suc (Suc d)) (checks_value cs)"
  unfolding checks_value_def
proof (rule json_typed.Object)
  show "distinct (map fst (sort_key fst (map (\<lambda>(n, c). (n, check_value c)) cs)))"
    using assms(1) by (intro keys_sorted) (simp add: o_def case_prod_unfold)
  show "list_all (\<lambda>p. valid_utf8 (fst p) \<and> json_typed num (Suc d) (snd p)) (sort_key fst (map (\<lambda>(n, c). (n, check_value c)) cs))"
    using assms(2) by (auto simp: list_all_iff check_value_typed)
qed

lemma field_names: "valid_utf8 ''status''" "valid_utf8 ''reason''" "valid_utf8 ''checks''" "valid_utf8 ''timestamp''"
  by code_simp+

lemma response_typed:
  assumes "distinct (map fst (resp_checks r))" "list_all (\<lambda>p. valid_utf8 (fst p) \<and> check_ok (snd p)) (resp_checks r)"
    and "valid_utf8 now" "valid_utf8 (resp_status r)" "valid_utf8 (resp_reason r)"
  shows "typed_table num (Suc (Suc d)) (response_value now r)"
  using assms checks_value_typed [OF assms(1,2)] field_names
  by (auto simp: response_value_def typed_table_def intro!: json_typed.String)

text \<open>What a reply says once it is decoded.\<close>

lemma write_json_decodes:
  assumes "distinct (map fst (resp_checks (snd r)))" "list_all (\<lambda>p. valid_utf8 (fst p) \<and> check_ok (snd p)) (resp_checks (snd r))"
    and "valid_utf8 now" "valid_utf8 (resp_status (snd r))" "valid_utf8 (resp_reason (snd r))"
  shows "json_unmarshal num (reply_body (write_json now r)) = Some (Some (response_value now (snd r)))"
proof -
  have "typed_table num (json_max_depth - 1) (response_value now (snd r))"
    using response_typed [OF assms, of num "json_max_depth - 3"] by (simp add: json_max_depth_def)
  from unmarshal_text [OF this, of "[newline]" None] show ?thesis
    by (simp add: write_json_def json_space_def newline_def del: json_text.simps)
qed

text \<open>A client's view: the check of a given name in a decoded body.\<close>

definition get_str :: "table \<Rightarrow> string \<Rightarrow> string option" where
  "get_str t k = (case map_of t k of Some (VStr s) \<Rightarrow> Some s | _ \<Rightarrow> None)"

definition reported_check :: "table \<Rightarrow> string \<Rightarrow> check_result option" where
  "reported_check u n = (case get_tab u ''checks'' of None \<Rightarrow> None
     | Some cs \<Rightarrow> (case get_tab cs n of None \<Rightarrow> None
     | Some t \<Rightarrow> (case (get_str t ''status'', get_str t ''message'') of
         (Some a, Some b) \<Rightarrow> Some \<lparr> chk_status = a, chk_message = b \<rparr> | _ \<Rightarrow> None)))"

lemma map_of_check_values: "map_of (map (\<lambda>(n, c). (n, check_value c)) cs) n = map_option check_value (map_of cs n)"
  by (induction cs) auto

lemma reported_response:
  assumes "distinct (map fst (resp_checks r))"
  shows "reported_check (response_value now r) n = map_of (resp_checks r) n"
proof -
  have "distinct (map fst (map (\<lambda>(n, c). (n, check_value c)) (resp_checks r)))" using assms by (simp add: o_def case_prod_unfold)
  then have s: "map_of (sort_key fst (map (\<lambda>(n, c). (n, check_value c)) (resp_checks r))) n = map_option check_value (map_of (resp_checks r) n)"
    by (simp add: map_of_sorted map_of_check_values)
  have "get_str [(''status'', VStr (chk_status c)), (''message'', VStr (chk_message c))] ''status'' = Some (chk_status c)"
    "get_str [(''status'', VStr (chk_status c)), (''message'', VStr (chk_message c))] ''message'' = Some (chk_message c)" for c :: check_result
    by (simp_all add: get_str_def)
  then show ?thesis
    using s by (cases "map_of (resp_checks r) n")
      (auto simp: reported_check_def response_value_def get_tab_def checks_value_def, simp add: check_value_def)
qed

text \<open>
  C24: The probes can be believed: \<open>/live\<close> always answers 200, \<open>/startup\<close> and \<open>/ready\<close> answer 200 exactly when
  the state says so and 503 otherwise; the body of \<open>/ready\<close> is a JSON object whatever texts the checks
  hold, with the status in words, and a client that decodes it reads exactly the checks that were added.
\<close>

theorem probe_replies:
  assumes "health_ok hs" "valid_utf8 now"
  shows "\<exists>live startup ready u. health_serve now hs ''/live'' = Some live \<and> reply_code live = 200
    \<and> health_serve now hs ''/startup'' = Some startup \<and> reply_code startup = (if hs_started hs then 200 else 503)
    \<and> health_serve now hs ''/ready'' = Some ready \<and> reply_code ready = (if hs_ready hs then 200 else 503)
    \<and> json_unmarshal num (reply_body ready) = Some (Some u)
    \<and> get_str u ''status'' = Some (if hs_ready hs then ''ready'' else ''not_ready'')
    \<and> reported_check u = map_of (hs_checks hs)"
proof -
  let ?r = "ready_handler hs"
  have checks: "resp_checks (snd ?r) = hs_checks hs" by (simp add: ready_handler_def)
  have texts: "valid_utf8 ''ready''" "valid_utf8 ''not_ready''" "valid_utf8 ''Setup in progress''" by code_simp+
  then have ok: "distinct (map fst (resp_checks (snd ?r)))"
    "list_all (\<lambda>p. valid_utf8 (fst p) \<and> check_ok (snd p)) (resp_checks (snd ?r))"
    "valid_utf8 (resp_status (snd ?r))" "valid_utf8 (resp_reason (snd ?r))"
    using assms(1) by (simp_all add: health_ok_def ready_handler_def)
  note u = write_json_decodes [OF ok(1,2) assms(2) ok(3,4), of num]
  have "get_str (response_value now (snd ?r)) ''status'' = Some (if hs_ready hs then ''ready'' else ''not_ready'')"
    by (simp add: get_str_def response_value_def ready_handler_def)
  moreover have "reported_check (response_value now (snd ?r)) = map_of (hs_checks hs)"
    using reported_response [OF ok(1)] by (simp add: fun_eq_iff checks)
  ultimately show ?thesis using u
    by (simp add: health_serve_def write_json_def live_handler_def startup_handler_def ready_handler_def)
qed

theorem probe_replies_witness:
  "\<exists>ready u. health_serve ''2026-01-01T00:00:00Z'' (add_check [dquote] \<lparr> chk_status = ''ready'', chk_message = ''<ok>'' \<rparr> new_health_server) ''/ready'' = Some ready
     \<and> reply_code ready = 503 \<and> json_unmarshal Some (reply_body ready) = Some (Some u)
     \<and> reported_check u [dquote] = Some \<lparr> chk_status = ''ready'', chk_message = ''<ok>'' \<rparr>"
proof -
  let ?hs = "add_check [dquote] \<lparr> chk_status = ''ready'', chk_message = ''<ok>'' \<rparr> new_health_server"
  have "health_ok ?hs" "valid_utf8 ''2026-01-01T00:00:00Z''" by code_simp+
  from probe_replies [OF this, of Some] obtain ready u where "health_serve ''2026-01-01T00:00:00Z'' ?hs ''/ready'' = Some ready"
    "reply_code ready = (if hs_ready ?hs then 200 else 503)" "json_unmarshal Some (reply_body ready) = Some (Some u)"
    "reported_check u = map_of (hs_checks ?hs)" by blast
  moreover have "\<not> hs_ready ?hs" "map_of (hs_checks ?hs) [dquote] = Some \<lparr> chk_status = ''ready'', chk_message = ''<ok>'' \<rparr>"
    by (simp_all add: health_defs)
  ultimately show ?thesis by auto
qed

subsection \<open>The life of the server\<close>

text \<open>
  Where \<open>Start\<close> is, and what the goroutine of \<open>ListenAndServe\<close> does: it has ended with \<open>ErrServerClosed\<close>
  (\<open>None\<close>), which is dropped, or with an error that goes into \<open>errCh\<close>.
\<close>

datatype start_pc = StartOff | StartSelect | StartShutdown | StartReturned "gerr option"

datatype listener = ListenDue | Listening | ListenEnded "gerr option"

text \<open>\<open>hp_server\<close>: the field is set; \<open>hp_closed\<close>: \<open>Shutdown\<close> was called; \<open>hp_active\<close>: requests being answered.\<close>

record http_state =
  hp_server :: bool
  hp_start :: start_pc
  hp_listener :: listener
  hp_closed :: bool
  hp_ctx :: bool
  hp_active :: nat

definition new_http_state :: http_state where
  "new_http_state = \<lparr> hp_server = False, hp_start = StartOff, hp_listener = ListenDue, hp_closed = False, hp_ctx = False, hp_active = 0 \<rparr>"

text \<open>
  \<open>Shutdown\<close> closes the listener first, so that no request is accepted after it began, and then waits for
  the active ones, at most until its deadline of five seconds.
\<close>

definition shutdown_begun :: "http_state \<Rightarrow> http_state" where "shutdown_begun s = s\<lparr> hp_closed := True \<rparr>"

definition deadline_exceeded :: gerr where "deadline_exceeded = Msg ''context deadline exceeded''"

inductive http_step :: "http_state \<Rightarrow> http_state \<Rightarrow> bool" where
  start: "hp_start s = StartOff \<Longrightarrow> http_step s (s\<lparr> hp_server := True, hp_start := StartSelect \<rparr>)"
| listen: "\<lbrakk> hp_start s \<noteq> StartOff; hp_listener s = ListenDue; \<not> hp_closed s \<rbrakk> \<Longrightarrow> http_step s (s\<lparr> hp_listener := Listening \<rparr>)"
| listen_error: "\<lbrakk> hp_start s \<noteq> StartOff; hp_listener s \<in> {ListenDue, Listening}; \<not> hp_closed s \<rbrakk> \<Longrightarrow>
    http_step s (s\<lparr> hp_listener := ListenEnded (Some e) \<rparr>)"
| server_closed: "\<lbrakk> hp_start s \<noteq> StartOff; hp_listener s \<in> {ListenDue, Listening}; hp_closed s \<rbrakk> \<Longrightarrow>
    http_step s (s\<lparr> hp_listener := ListenEnded None \<rparr>)"
| request: "\<lbrakk> hp_listener s = Listening; \<not> hp_closed s \<rbrakk> \<Longrightarrow> http_step s (s\<lparr> hp_active := Suc (hp_active s) \<rparr>)"
| answered: "0 < hp_active s \<Longrightarrow> http_step s (s\<lparr> hp_active := hp_active s - 1 \<rparr>)"
| cancel: "http_step s (s\<lparr> hp_ctx := True \<rparr>)"
| ctx_done: "\<lbrakk> hp_start s = StartSelect; hp_ctx s \<rbrakk> \<Longrightarrow> http_step s ((shutdown_begun s)\<lparr> hp_start := StartShutdown \<rparr>)"
| err_ch: "\<lbrakk> hp_start s = StartSelect; hp_listener s = ListenEnded (Some e) \<rbrakk> \<Longrightarrow>
    http_step s (s\<lparr> hp_start := StartReturned (Some e) \<rparr>)"
| idle: "\<lbrakk> hp_start s = StartShutdown; hp_active s = 0 \<rbrakk> \<Longrightarrow> http_step s (s\<lparr> hp_start := StartReturned None \<rparr>)"
| deadline: "\<lbrakk> hp_start s = StartShutdown; 0 < hp_active s \<rbrakk> \<Longrightarrow>
    http_step s (s\<lparr> hp_start := StartReturned (Some deadline_exceeded) \<rparr>)"
| stop: "hp_server s \<Longrightarrow> http_step s (shutdown_begun s)"
| stop_nil: "\<not> hp_server s \<Longrightarrow> http_step s s"

inductive_cases http_stepE: "http_step s t"

inductive http_reachable :: "http_state \<Rightarrow> bool" where
  new: "http_reachable new_http_state"
| step: "\<lbrakk> http_reachable s; http_step s t \<rbrakk> \<Longrightarrow> http_reachable t"

definition http_inv :: "http_state \<Rightarrow> bool" where
  "http_inv s \<longleftrightarrow> (hp_start s = StartOff \<longrightarrow> \<not> hp_closed s \<and> hp_listener s = ListenDue)
     \<and> (hp_start s \<in> {StartShutdown, StartReturned None} \<longrightarrow> hp_closed s \<and> hp_ctx s)
     \<and> (hp_start s = StartReturned None \<longrightarrow> hp_active s = 0)
     \<and> (hp_server s \<longleftrightarrow> hp_start s \<noteq> StartOff)"

lemma http_inv: "http_reachable s \<Longrightarrow> http_inv s"
proof (induction rule: http_reachable.induct)
  case new
  show ?case by (simp add: http_inv_def new_http_state_def)
next
  case (step s t)
  from step.hyps(2) step.IH show ?case
    by (cases rule: http_step.cases) (auto simp: http_inv_def shutdown_begun_def)
qed

text \<open>
  C25: A shutdown of the health server is graceful: when \<open>Start\<close> returns nil, its context was cancelled, no
  request is being answered, and none is accepted ever again, whatever the server's goroutine, its
  clients and further calls of \<open>Stop\<close> do.
\<close>

theorem shutdown_graceful:
  assumes "http_reachable s" "hp_start s = StartReturned None" "http_step\<^sup>*\<^sup>* s t"
  shows "hp_ctx t \<and> hp_closed t \<and> hp_active t = 0"
  using assms(3)
proof (induction rule: rtranclp_induct)
  case base
  show ?case using http_inv [OF assms(1)] assms(2) by (simp add: http_inv_def)
next
  case (step t u)
  from step.hyps(2) step.IH show ?case by (cases rule: http_step.cases) (auto simp: shutdown_begun_def)
qed

text \<open>A request that came while the server was up holds the shutdown back until it is answered.\<close>

definition demo_http :: http_state where
  "demo_http = \<lparr> hp_server = True, hp_start = StartReturned None, hp_listener = Listening, hp_closed = True, hp_ctx = True, hp_active = 0 \<rparr>"

lemma demo_http_reachable: "http_reachable demo_http"
proof -
  let ?s = "\<lambda>p l c x a. \<lparr> hp_server = True, hp_start = p, hp_listener = l, hp_closed = c, hp_ctx = x, hp_active = a \<rparr>"
  have "http_reachable (?s StartSelect ListenDue False False 0)"
    using http_reachable.step [OF http_reachable.new http_step.start] by (simp add: new_http_state_def)
  from http_reachable.step [OF this http_step.listen] have "http_reachable (?s StartSelect Listening False False 0)" by simp
  from http_reachable.step [OF this http_step.request] have "http_reachable (?s StartSelect Listening False False 1)" by simp
  from http_reachable.step [OF this http_step.cancel] have "http_reachable (?s StartSelect Listening False True 1)" by simp
  from http_reachable.step [OF this http_step.ctx_done] have "http_reachable (?s StartShutdown Listening True True 1)"
    by (simp add: shutdown_begun_def)
  from http_reachable.step [OF this http_step.answered] have "http_reachable (?s StartShutdown Listening True True 0)" by simp
  from http_reachable.step [OF this http_step.idle] show ?thesis by (simp add: demo_http_def)
qed

theorem shutdown_graceful_witness:
  "hp_active (demo_http\<lparr> hp_listener := ListenEnded None \<rparr>) = 0"
proof -
  have "http_step demo_http (demo_http\<lparr> hp_listener := ListenEnded None \<rparr>)"
    by (rule http_step.server_closed) (simp_all add: demo_http_def)
  with shutdown_graceful [OF demo_http_reachable] show ?thesis by (simp add: demo_http_def)
qed

text \<open>
  \<open>Stop\<close> alone does not end \<open>Start\<close>: the goroutine's \<open>ErrServerClosed\<close> is dropped, so \<open>Start\<close> stays in its
  \<open>select\<close> until somebody cancels its context as well.
\<close>

lemma stop_leaves_start:
  assumes "http_step\<^sup>*\<^sup>* s t" "hp_start s = StartSelect" "hp_closed s" "hp_listener s = ListenEnded None" "\<not> hp_ctx t"
  shows "hp_start t = StartSelect"
proof -
  have "\<not> hp_ctx t \<longrightarrow> hp_start t = StartSelect \<and> hp_closed t \<and> hp_listener t = ListenEnded None"
    using assms(1)
  proof (induction rule: rtranclp_induct)
    case base
    show ?case using assms(2-4) by simp
  next
    case (step t u)
    from step.hyps(2) step.IH show ?case by (cases rule: http_step.cases) (auto simp: shutdown_begun_def)
  qed
  with assms(5) show ?thesis by simp
qed

end
