(* ===== verification/Host_Tree.thy ===== *)
theory Host_Tree imports Daemon_Cmd Cdi_Hook Ctk_Cli begin

text \<open>
  Every operation of the toolkit that changes files keeps what each single call keeps (the interface
  \<open>call_invariant\<close> of \<open>Fs_Tree\<close>), and so does any sequence of its commands on one host.
\<close>

context call_invariant begin

subsubsection \<open>Generation\<close>

lemma keeps_spec: "\<lbrakk> write_spec m pieces suffixes so path f s = (r, s'); always P h s \<rbrakk> \<Longrightarrow> always P h s'"
  by (erule keeps_write_spec) (simp_all add: on_mkdir)

lemma keeps_generation: "\<lbrakk> generate_cdi_spec env opts s = (r, s', l); always P h s \<rbrakk> \<Longrightarrow> always P h s'"
proof -
  have "generate_cdi_spec env opts s = generate_cdi_spec env (Some (case opts of None \<Rightarrow> setup_default_options | Some so \<Rightarrow> so)) s"
    by (simp add: generate_cdi_spec_def split: option.split)
  then show "\<lbrakk> generate_cdi_spec env opts s = (r, s', l); always P h s \<rbrakk> \<Longrightarrow> always P h s'"
    using keeps_generate on_mkdir by metis
qed

subsubsection \<open>The runtime's configuration\<close>

lemma keeps_backup: "\<lbrakk> backup_file p s = (r, s'); always P h s \<rbrakk> \<Longrightarrow> always P h s'"
  by (auto simp: backup_file_def split: prod.splits sum.splits errno.splits dest: keeps)

lemma keeps_read: "\<lbrakk> read_or_empty p s = (r, s'); always P h s \<rbrakk> \<Longrightarrow> always P h s'"
  by (auto simp: read_or_empty_def split: prod.splits sum.splits dest: keeps)

lemma keeps_write_config: "\<lbrakk> write_config p c s = (r, s'); always P h s \<rbrakk> \<Longrightarrow> always P h s'"
  by (auto simp: write_config_def split: prod.splits sum.splits dest: keeps)

lemma keeps_containerd_configure: "\<lbrakk> containerd_configure cd p s = (r, s'); always P h s \<rbrakk> \<Longrightarrow> always P h s'"
  unfolding containerd_configure_def
  by (auto split: prod.splits sum.splits dest: keeps_backup keeps_read keeps_write_config)

lemma keeps_docker_configure: "\<lbrakk> docker_configure cd p s = (r, s'); always P h s \<rbrakk> \<Longrightarrow> always P h s'"
  unfolding docker_configure_def
  by (auto split: prod.splits sum.splits option.splits dest: keeps_backup keeps_read keeps_write_config)

lemma keeps_configure: "\<lbrakk> configure cd rt p s = (r, s'); always P h s \<rbrakk> \<Longrightarrow> always P h s'"
  by (auto simp: configure_def crio_configure_def split: runtime_type.splits
      dest: keeps_containerd_configure keeps_docker_configure keeps_write_config)

lemma keeps_restore: "\<lbrakk> restore_backup p s = (r, s'); always P h s \<rbrakk> \<Longrightarrow> always P h s'"
  by (auto simp: restore_backup_def split: prod.splits sum.splits intro: keeps_removed dest: keeps)

lemma keeps_write_back: "\<lbrakk> write_back p c s = (r, s'); always P h s \<rbrakk> \<Longrightarrow> always P h s'"
  by (auto simp: write_back_def split: prod.splits sum.splits dest: keeps)

lemma keeps_containerd_revert: "\<lbrakk> containerd_revert p s = (r, s'); always P h s \<rbrakk> \<Longrightarrow> always P h s'"
  by (auto simp: containerd_revert_def Let_def split: prod.splits sum.splits if_splits dest: keeps keeps_restore keeps_write_back)

lemma keeps_crio_revert: "\<lbrakk> crio_revert p s = (r, s'); always P h s \<rbrakk> \<Longrightarrow> always P h s'"
  unfolding crio_revert_def by (auto simp only: split: prod.splits if_splits dest: keeps_files(2))

lemma keeps_docker_revert: "\<lbrakk> docker_revert cd p s = (r, s'); always P h s \<rbrakk> \<Longrightarrow> always P h s'"
  unfolding docker_revert_def
  by (auto split: prod.splits sum.splits option.splits dest: keeps_query keeps_restore keeps_write_back)

lemma keeps_revert: "\<lbrakk> revert cd rt p s = (r, s'); always P h s \<rbrakk> \<Longrightarrow> always P h s'"
  by (auto simp: revert_def Let_def split: runtime_type.splits dest: keeps_containerd_revert keeps_docker_revert keeps_crio_revert)

subsubsection \<open>The installer\<close>

lemma keeps_release: "always P h s \<Longrightarrow> always P h (snd (lock_release p s))"
  by (auto simp: lock_release_def split: prod.split sum.split dest: keeps)

lemma keeps_acquire: "\<lbrakk> lock_acquire locked pid p s = (r, s'); always P h s \<rbrakk> \<Longrightarrow> always P h s'"
  by (auto simp: lock_acquire_def split: prod.splits sum.splits if_splits intro!: keeps_release dest!: keeps_calls)

lemma keeps_remove_cdi_spec: "\<lbrakk> remove_cdi_spec p s = (r, s'); always P h s \<rbrakk> \<Longrightarrow> always P h s'"
  by (auto simp: remove_cdi_spec_def split: prod.splits sum.splits dest: keeps)

lemma keeps_rds_install: "\<lbrakk> generate_rds_install env cfg d g s = (r, s'); always P h s \<rbrakk> \<Longrightarrow> always P h s'"
  by (auto simp: generate_rds_install_def Let_def split: prod.splits sum.splits option.splits if_splits
      dest: keeps_remove_cdi_spec keeps_spec)

lemma keeps_install_generate: "\<lbrakk> install_generate env d host s = (r, s'); always P h s \<rbrakk> \<Longrightarrow> always P h s'"
  by (auto simp: install_generate_def Let_def split: prod.splits sum.splits option.splits
      dest!: keeps_calls keeps_rds_install keeps_spec)

lemma keeps_setup_body: "\<lbrakk> setup_body env opt rv s = (r, s', acts); always P h s \<rbrakk> \<Longrightarrow> always P h s'"
  by (auto simp: setup_body_def configure_runtime_def split: prod.splits sum.splits option.splits
      dest!: keeps_configure keeps_install_generate)

lemma keeps_cleanup_body: "\<lbrakk> cleanup_body env opt rv s = (r, s', acts); always P h s \<rbrakk> \<Longrightarrow> always P h s'"
  by (auto simp: cleanup_body_def revert_runtime_config_def split: prod.splits sum.splits
      dest!: keeps_remove_cdi_spec keeps_revert)

lemma keeps_locked_run:
  "\<lbrakk> locked_run env opt body s = (r, s', acts); always P h s; \<And>s r s' acts. \<lbrakk> body s = (r, s', acts); always P h s \<rbrakk> \<Longrightarrow> always P h s' \<rbrakk>
   \<Longrightarrow> always P h s'"
  by (auto simp: locked_run_def split: prod.splits option.splits intro!: keeps_release dest!: keeps_acquire)

lemma keeps_setup: "\<lbrakk> install_setup env opt s = (r, s', acts); always P h s \<rbrakk> \<Longrightarrow> always P h s'"
  by (auto simp: install_setup_def split: sum.splits if_splits elim!: keeps_locked_run keeps_setup_body)

lemma keeps_cleanup: "\<lbrakk> install_cleanup env opt s = (r, s', acts); always P h s \<rbrakk> \<Longrightarrow> always P h s'"
  by (auto simp: install_cleanup_def split: sum.splits if_splits elim!: keeps_locked_run keeps_cleanup_body)

subsubsection \<open>The daemon\<close>

lemma keeps_regenerate: "\<lbrakk> regenerate_cdi_spec env rt d s = (r, s'); always P h s \<rbrakk> \<Longrightarrow> always P h s'"
  by (auto simp: regenerate_cdi_spec_def Let_def split: prod.splits sum.splits option.splits dest!: keeps_mkdir keeps_generation)

lemma keeps_copy: "\<lbrakk> copy_file chunks a b s = (r, s'); always P h s \<rbrakk> \<Longrightarrow> always P h s'"
  by (auto simp: copy_file_def split: prod.splits sum.splits dest!: keeps_query keeps_files(7) keeps_pieces)

lemma keeps_install_hook_to: "\<lbrakk> install_hook_to env host src s = (r, s'); always P h s \<rbrakk> \<Longrightarrow> always P h s'"
  by (auto simp: install_hook_to_def Let_def split: prod.splits sum.splits dest!: keeps_mkdir keeps_copy)

lemma keeps_install_hook: "\<lbrakk> install_hook_binary env host s = (r, s'); always P h s \<rbrakk> \<Longrightarrow> always P h s'"
  by (auto simp: install_hook_binary_def split: prod.splits sum.splits dest!: keeps_query keeps_install_hook_to)

lemma keeps_before_guard: "\<lbrakk> before_guard env rt d s = (r, s'); always P h s \<rbrakk> \<Longrightarrow> always P h s'"
  using keeps_install_hook [of env "do_host_root d" s, OF prod.collapse [symmetric]]
  by (auto simp: before_guard_def split: if_splits dest: keeps_regenerate)

lemma keeps_daemon_setup: "\<lbrakk> daemon_setup env rt d s = (r, s', acts); always P h s \<rbrakk> \<Longrightarrow> always P h s'"
  by (auto simp: daemon_setup_def configure_and_restart_def Let_def split: prod.splits sum.splits option.splits bool.splits runtime_type.splits
      dest!: keeps_before_guard keeps_configure)

lemma keeps_start: "\<lbrakk> start_daemon env fl lock s = (r, s', acts); always P h s \<rbrakk> \<Longrightarrow> always P h s'"
  by (auto simp: start_daemon_def split: prod.splits sum.splits option.splits dest!: keeps_daemon_setup)

lemma keeps_daemon_cleanup: "always P h s \<Longrightarrow> always P h (daemon_cleanup d s)"
  unfolding daemon_cleanup_def by (intro keeps_removed)

subsubsection \<open>The hook\<close>

lemma keeps_load_state: "\<lbrakk> load_container_state env file s = (r, s'); always P h s \<rbrakk> \<Longrightarrow> always P h s'"
  unfolding load_container_state_def
  by (auto split: prod.splits sum.splits if_splits dest!: keeps_query)

lemma keeps_load_spec: "\<lbrakk> load_minimal_spec st s = (r, s'); always P h s \<rbrakk> \<Longrightarrow> always P h s'"
  unfolding load_minimal_spec_def Let_def
  by (auto split: prod.splits sum.splits option.splits dest!: keeps_query)

lemma keeps_hook_root: "\<lbrakk> hook_root env file s = (r, s'); always P h s \<rbrakk> \<Longrightarrow> always P h s'"
  unfolding hook_root_def get_container_root_def
  by (auto split: prod.splits sum.splits if_splits dest!: keeps_load_state keeps_load_spec)

lemma keeps_force_link: "\<lbrakk> force_create_symlink t p s = (r, s'); always P h s \<rbrakk> \<Longrightarrow> always P h s'"
  unfolding force_create_symlink_def Let_def
  by (auto split: prod.splits sum.splits if_splits dest!: keeps_query keeps_calls)

lemma keeps_link: "\<lbrakk> create_symlink_in_container root t l s = (r, s'); always P h s \<rbrakk> \<Longrightarrow> always P h s'"
  unfolding create_symlink_in_container_def Let_def
  by (auto split: prod.splits sum.splits if_splits dest!: keeps_query keeps_mkdir keeps_force_link)

lemma keeps_links: "\<lbrakk> create_links root created ls s = (r, s'); always P h s \<rbrakk> \<Longrightarrow> always P h s'"
proof (induction ls arbitrary: created s)
  case (Cons l ls)
  show ?case using Cons.prems Cons.IH by (auto split: prod.splits option.splits if_splits dest: keeps_link)
qed simp

lemma keeps_create_symlinks: "\<lbrakk> execute_create_symlinks env ls file s = (r, s'); always P h s \<rbrakk> \<Longrightarrow> always P h s'"
  by (auto simp: execute_create_symlinks_def split: prod.splits sum.splits if_splits dest!: keeps_hook_root keeps_links)

lemma keeps_directories: "\<lbrakk> write_directories k seen ds s = (r, s'); always P h s \<rbrakk> \<Longrightarrow> always P h s'"
  by (induction k seen ds s rule: write_directories.induct) (auto split: prod.splits sum.splits if_splits dest: keeps)

lemma keeps_conf_file: "\<lbrakk> create_ldsoconfd_file env l d s = (r, s'); always P h s \<rbrakk> \<Longrightarrow> always P h s'"
  by (auto simp: create_ldsoconfd_file_def split: prod.splits sum.splits option.splits if_splits dest!: keeps_calls keeps_directories)

text \<open>\<open>ldconfig\<close> is a program outside the repository: it must keep the property too.\<close>

lemma keeps_ldconfig:
  assumes "\<And>args fs. P fs \<Longrightarrow> P (snd (he_ldconfig env args fs))"
  shows "\<lbrakk> run_ldconfig env l s = (r, s'); always P h s \<rbrakk> \<Longrightarrow> always P h s'"
  using assms
  by (auto simp: run_ldconfig_def always_def split: prod.splits sum.splits option.splits dest!: query_snd) (metis snd_conv)+

lemma keeps_ldcache:
  assumes "\<And>args fs. P fs \<Longrightarrow> P (snd (he_ldconfig env args fs))"
  shows "\<lbrakk> execute_update_ldcache env folders path file s = (r, s'); always P h s \<rbrakk> \<Longrightarrow> always P h s'"
proof -
  have l: "\<lbrakk> run_ldconfig env l s = (r, s'); always P h s \<rbrakk> \<Longrightarrow> always P h s'" for l s r s'
    by (rule keeps_ldconfig) (rule assms)
  show "\<lbrakk> execute_update_ldcache env folders path file s = (r, s'); always P h s \<rbrakk> \<Longrightarrow> always P h s'"
    by (auto simp: execute_update_ldcache_def run_child_def run_ldconfig_update_def update_ld_cache_def Let_def
        split: prod.splits sum.splits option.splits if_splits dest!: keeps_hook_root keeps_calls keeps_conf_file l)
qed

subsubsection \<open>The user command\<close>

lemma keeps_cdi_generate: "\<lbrakk> run_cdi_generate env fl s = (r, s', l); always P h s \<rbrakk> \<Longrightarrow> always P h s'"
  by (auto simp: run_cdi_generate_def split: prod.splits sum.splits option.splits if_splits dest!: keeps_generation)

lemma keeps_runtime_configure: "\<lbrakk> execute_runtime_configure cd fl stdin s = (r, s', l); always P h s \<rbrakk> \<Longrightarrow> always P h s'"
  by (auto simp: execute_runtime_configure_def configure_confirmed_def Let_def
      split: prod.splits sum.splits option.splits if_splits dest!: keeps_configure)

end

subsection \<open>Every run on a host\<close>

text \<open>
  One run of any of the toolkit's commands, in any environment, with any options and under any faults;
  \<open>he\<close> is the environment of the hook, whose \<open>ldconfig\<close> is the one program that changes files too.
\<close>

inductive host_run :: "hook_env \<Rightarrow> os \<Rightarrow> os \<Rightarrow> bool" for he where
  faults: "host_run he s (s\<lparr> faults := fl \<rparr>)"
| install: "install_setup ie io s = (r, s', acts) \<Longrightarrow> host_run he s s'"
| uninstall: "install_cleanup ie io s = (r, s', acts) \<Longrightarrow> host_run he s s'"
| start: "start_daemon de fl lock s = (rc, s', acts) \<Longrightarrow> host_run he s s'"
| refresh: "refresh_on_change de rt d ctx s = (r, s') \<Longrightarrow> host_run he s s'"
| shutdown: "host_run he s (daemon_cleanup dir s)"
| symlinks: "execute_create_symlinks he ls file s = (r, s') \<Longrightarrow> host_run he s s'"
| ldcache: "execute_update_ldcache he folders path file s = (r, s') \<Longrightarrow> host_run he s s'"
| generate: "run_cdi_generate ce gf s = (r, s', out) \<Longrightarrow> host_run he s s'"
| configure: "execute_runtime_configure cd cf stdin s = (r, s', out) \<Longrightarrow> host_run he s s'"

context call_invariant
begin

lemma keeps_host_run:
  assumes "\<And>args fs. P fs \<Longrightarrow> P (snd (he_ldconfig he args fs))"
  shows "\<lbrakk> host_run he s s'; always P h s \<rbrakk> \<Longrightarrow> always P h s'"
proof (induction rule: host_run.induct)
  case (faults s fl)
  then show ?case by (simp add: always_def)
next
  case (refresh de rt d ctx s r s')
  then show ?case by (auto simp: refresh_on_change_def split: option.splits dest: keeps_regenerate)
next
  case (ldcache folders path input s r s')
  show ?case by (rule keeps_ldcache [OF _ ldcache(1,2)]) (rule assms)
qed (auto dest: keeps_setup keeps_cleanup keeps_start keeps_create_symlinks keeps_cdi_generate keeps_runtime_configure
    intro: keeps_daemon_cleanup)

lemma keeps_host_runs:
  assumes "\<And>args fs. P fs \<Longrightarrow> P (snd (he_ldconfig he args fs))"
  shows "\<lbrakk> (host_run he)\<^sup>*\<^sup>* s s'; always P h s \<rbrakk> \<Longrightarrow> always P h s'"
  by (induction rule: rtranclp_induct) (use keeps_host_run [of he] assms in blast)+

end

lemma tree_in_dir: "\<lbrakk> fs_tree fs; node_at fs k = Some n \<rbrakk> \<Longrightarrow> node_at fs (butlast k) = Some Dir"
  by (cases "k = []") (simp_all add: tree_parent)


text \<open>A daemon starts, is refreshed while the disk is full, and ends; then a container's hook runs.\<close>

definition plain_hook_env :: hook_env where
  "plain_hook_env = demo_hook_env\<lparr> he_ldconfig := \<lambda>cmd fs. (None, fs) \<rparr>"


end
