(* ===== verification/Refresh.thy ===== *)
theory Refresh imports Daemon_Cmd Fingerprint begin

text \<open>
  The watcher at work on a host: the daemon's watcher (theory \<open>Watcher\<close>) with the probe of the driver
  libraries (\<open>Fingerprint\<close>) and the regeneration of the specifications (\<open>Daemon_Cmd\<close>) as \<open>buildRefreshWatcher\<close>
  of \<open>cmd/rbln-ctk-daemon/root.go\<close> puts them together, while others change the host.
\<close>

subsection \<open>What a regeneration leaves\<close>

definition spec_path :: "daemon_opts \<Rightarrow> string" where "spec_path d = do_cdi_dir d @ ''/rbln.yaml''"

definition refresh_config :: "daemon_env \<Rightarrow> runtime_type \<Rightarrow> daemon_opts \<Rightarrow> fs \<Rightarrow> config" where
  "refresh_config env rt d fs = regenerate_config (load_default (de_decode env) fs (de_getenv env)) rt
     (do_host_root d) (do_driver_root d) (do_library_path d)"

text \<open>The text of the specification for a host, or why there is none.\<close>

definition current_spec :: "daemon_env \<Rightarrow> runtime_type \<Rightarrow> daemon_opts \<Rightarrow> fs \<Rightarrow> gerr + string" where
  "current_spec env rt d fs =
     (let cfg = refresh_config env rt d fs
      in write_to_writer (se_marshal (de_setup env)) (Some (generated_spec (de_setup env)
           (daemon_setup_options cfg (do_cdi_dir d)) cfg (snd (fs_mkdir_all (do_cdi_dir d) fs)))) ''yaml'')"

definition spec_name :: "string \<Rightarrow> bool" where "spec_name n \<longleftrightarrow> n \<in> {''rbln.yaml'', ''rbln-rds.yaml''}"

text \<open>Where the specifications may be put, and how the kernel takes a write: in pieces, but all of it.\<close>

definition refresh_ok :: "daemon_env \<Rightarrow> daemon_opts \<Rightarrow> bool" where
  "refresh_ok env d \<longleftrightarrow> is_abs (do_cdi_dir d) \<and> list_all (\<lambda>c. \<not> spec_name c) (path_comps (do_cdi_dir d))
     \<and> (\<forall>b. concat (se_pieces (de_setup env) b) = b)"

lemma path_dir_slash:
  assumes "CHR ''/'' \<notin> set n"
  shows "path_dir (d @ ''/'' @ n) = clean (d @ ''/'')"
proof -
  have "takeWhile (\<lambda>c. c \<noteq> CHR ''/'') (rev n @ CHR ''/'' # rev d) = rev n"
    "dropWhile (\<lambda>c. c \<noteq> CHR ''/'') (rev n @ CHR ''/'' # rev d) = CHR ''/'' # rev d"
    using assms by (auto simp: takeWhile_append dropWhile_append)
  then show ?thesis by (simp add: path_dir_def split_last_def)
qed

lemma spec_dir_no_dirs:
  assumes "refresh_ok env d" "\<And>c. own c \<Longrightarrow> spec_name c" "no_dirs own fs"
  shows "no_dirs own (snd (fs_mkdir_all (do_cdi_dir d) fs))" "CHR ''/'' \<notin> set n \<Longrightarrow> no_dirs own (snd (fs_mkdir_all (path_dir (do_cdi_dir d @ ''/'' @ n)) fs))"
proof -
  have abs: "is_abs (do_cdi_dir d)" and names: "\<forall>c \<in> set (path_comps (do_cdi_dir d)). \<not> own c"
    using assms(1,2) by (auto simp: refresh_ok_def list_all_iff)
  show "no_dirs own (snd (fs_mkdir_all (do_cdi_dir d) fs))" by (rule mkdir_no_dirs [OF assms(3) abs names])
  assume n: "CHR ''/'' \<notin> set n"
  have "is_abs (do_cdi_dir d @ ''/'')" using abs by simp
  then obtain cs where cs: "list_all normal_comp cs" "clean (do_cdi_dir d @ ''/'') = path_of True cs"
    "cs = norm_comps True [] (path_comps (do_cdi_dir d @ ''/''))" by (rule clean_abs_form)
  have "path_comps (do_cdi_dir d @ ''/'') = path_comps (do_cdi_dir d)"
    using path_comps_append_slash [of "do_cdi_dir d" "[]"] by (simp add: path_comps_def)
  then have "\<forall>c \<in> set (path_comps (path_dir (do_cdi_dir d @ ''/'' @ n))). \<not> own c"
    using set_norm_comps [of "[]" "path_comps (do_cdi_dir d)"] cs names path_dir_slash [OF n] by auto
  then show "no_dirs own (snd (fs_mkdir_all (path_dir (do_cdi_dir d @ ''/'' @ n)) fs))"
    using abs path_dir_slash [OF n] by (intro mkdir_no_dirs [OF assms(3)]) simp_all
qed

lemma spec_names: "normal_comp ''rbln.yaml''" "normal_comp ''rbln-rds.yaml''" "spec_name ''rbln.yaml''" "spec_name ''rbln-rds.yaml''"
  "CHR ''/'' \<notin> set ''rbln.yaml''" "CHR ''/'' \<notin> set ''rbln-rds.yaml''"
  by (simp_all add: normal_comp_def spec_name_def)

lemma own_plain_split: "own_plain own fs \<longleftrightarrow> no_dirs own fs \<and> (\<forall>k t. own_key own k \<longrightarrow> node_at fs k \<noteq> Some (Sym t))"
  by (auto simp: own_plain_def no_dirs_def)

text \<open>No regeneration, failed or not, makes a link or a directory of a specification's name.\<close>

lemma regenerate_plain:
  assumes "refresh_ok env d" "regenerate_cdi_spec env rt d s = (r, s')" "own_plain spec_name (nodes s)"
  shows "own_plain spec_name (nodes s')"
proof -
  have new: "no_new_links (nodes s) (nodes s')" using regenerate_keeps [OF assms(2) keeps_refl] by (simp add: keeps_def)
  let ?so = "daemon_setup_options (refresh_config env rt d (nodes s)) (do_cdi_dir d)"
  obtain r1 s1 where e: "effect (fs_mkdir_all (do_cdi_dir d)) s = (r1, s1)" by fastforce
  have "no_dirs spec_name (nodes s)" using assms(3) by (simp add: own_plain_split)
  then have d1: "no_dirs spec_name (nodes s1)"
    by (intro effect_nodes [where P = "no_dirs spec_name", OF e]) (simp_all add: spec_dir_no_dirs [OF assms(1)])
  have "no_dirs spec_name (nodes s2)" if "generate_cdi_spec (de_setup env) (Some ?so) s1 = (r2, s2, l)" for r2 s2 l
  proof -
    have "always (no_dirs spec_name) (history s1) s1" using d1 by simp
    moreover have "no_dirs spec_name (snd (fs_mkdir_all (path_dir q) fs))"
      if "q \<in> {so_output_path ?so, so_rds_output_path ?so}" "no_dirs spec_name fs" for q fs
      using that spec_dir_no_dirs(2) [OF assms(1) _ that(2) spec_names(5)] spec_dir_no_dirs(2) [OF assms(1) _ that(2) spec_names(6)]
      by (auto simp: daemon_setup_options_def)
    ultimately have "always (no_dirs spec_name) (history s1) s2" by (rule nodirs.keeps_generate [OF that])
    then show ?thesis by (rule always_now)
  qed
  then have "no_dirs spec_name (nodes s')"
    using assms(2) e d1 by (auto simp: regenerate_cdi_spec_def refresh_config_def Let_def split: sum.splits prod.splits option.splits)
  moreover have "node_at (nodes s') k \<noteq> Some (Sym t)" if "own_key spec_name k" for k t
    using assms(3) new that unfolding own_plain_split no_new_links_def by blast
  ultimately show ?thesis by (simp add: own_plain_split)
qed

text \<open>A successful one installs the text of the present host.\<close>

lemma regenerate_installs:
  assumes "refresh_ok env d" "regenerate_cdi_spec env rt d s = (None, s')" "own_plain spec_name (nodes s)"
  shows "\<exists>data. current_spec env rt d (nodes s) = Inr data \<and> fs_read_file (nodes s') (spec_path d) = Inr data"
proof -
  let ?cfg = "refresh_config env rt d (nodes s)"
  let ?so = "daemon_setup_options ?cfg (do_cdi_dir d)"
  obtain s1 s2 l where e: "effect (fs_mkdir_all (do_cdi_dir d)) s = (Inr (), s1)"
    and g: "generate_cdi_spec (de_setup env) (Some ?so) s1 = (None, s', l)"
    using assms(2) by (auto simp: regenerate_cdi_spec_def refresh_config_def Let_def split: sum.splits prod.splits option.splits)
  have n1: "nodes s1 = snd (fs_mkdir_all (do_cdi_dir d) (nodes s))" using effect_Inr [OF e] by auto
  have so: "so_output_path ?so = do_cdi_dir d @ ''/rbln.yaml''" "so_rds_output_path ?so = do_cdi_dir d @ ''/rbln-rds.yaml''"
    "so_config ?so = Some ?cfg" "or_yaml (so_format ?so) = ''yaml''"
    by (simp_all add: daemon_setup_options_def or_yaml_def)
  have comps: "path_comps (so_output_path ?so) = path_comps (do_cdi_dir d) @ [''rbln.yaml'']"
    "path_comps (so_rds_output_path ?so) = path_comps (do_cdi_dir d) @ [''rbln-rds.yaml'']"
    unfolding so using slash_last [OF spec_names(1)] slash_last [OF spec_names(2)] by simp_all
  have "extends (nodes s) (nodes s1)" unfolding n1 fs_mkdir_all_def by (rule mkdir_each_extends) simp
  then have "no_new_links (nodes s) (nodes s1)" unfolding extends_def ..
  then have "node_at (nodes s1) k \<noteq> Some (Sym t)" if "own_key spec_name k" for k t
    using assms(3) that unfolding own_plain_split no_new_links_def by blast
  moreover have "no_dirs spec_name (nodes s1)"
    unfolding n1 by (rule spec_dir_no_dirs [OF assms(1)]) (use assms(3) in \<open>simp_all add: own_plain_split\<close>)
  ultimately have plain: "own_plain (\<lambda>n. n \<in> {''rbln.yaml'', ''rbln-rds.yaml''}) (nodes s1)"
    unfolding spec_name_def [abs_def, symmetric] by (simp add: own_plain_split)
  have "\<exists>data. write_to_writer (se_marshal (de_setup env)) (Some (generated_spec (de_setup env) ?so ?cfg (nodes s1))) (or_yaml (so_format ?so)) = Inr data
      \<and> fs_read_file (nodes s') (so_output_path ?so) = Inr data"
  proof (rule generate_installs [OF g so(3) _ comps(1) _ _ comps(2) _ _ _ plain])
    show "concat (se_pieces (de_setup env) b) = b" for b using assms(1) by (simp add: refresh_ok_def)
    show "no_dirs (\<lambda>n. n = ''rbln-rds.yaml'') (snd (fs_mkdir_all (path_dir (so_output_path ?so)) fs))"
      if "no_dirs (\<lambda>n. n = ''rbln-rds.yaml'') fs" for fs
      using spec_dir_no_dirs(2) [OF assms(1) _ that spec_names(5)] by (simp add: so spec_name_def)
  qed simp_all
  then show ?thesis by (simp add: so current_spec_def Let_def n1 spec_path_def)
qed


subsection \<open>The watcher of a host\<close>

text \<open>
  What the watcher is built with: the daemon's options, the directories it globs, \<open>debug/elf\<close> and \<open>os.Stat\<close> on
  the present files, and the text of an error.
\<close>

record refresher =
  rf_env :: daemon_env
  rf_runtime :: runtime_type
  rf_opts :: daemon_opts
  rf_dirs :: "string list"
  rf_elf :: "fs \<Rightarrow> string \<Rightarrow> note_section option option"
  rf_stat :: "fs \<Rightarrow> string \<Rightarrow> errno + int \<times> int"
  rf_text :: "gerr \<Rightarrow> string"

definition refresh_probe :: "refresher \<Rightarrow> fs \<Rightarrow> snapshot \<times> (string \<times> gerr) list" where
  "refresh_probe rf fs = probe_rbln_libraries fs (library_fingerprint (rf_elf rf fs) (rf_stat rf fs)) (rf_dirs rf)"

definition refresh_call :: "refresher \<Rightarrow> gerr option \<Rightarrow> os \<Rightarrow> gerr option \<times> os" where
  "refresh_call rf ctx s = refresh_on_change (rf_env rf) (rf_runtime rf) (rf_opts rf) ctx s"

definition refresh_tick_env :: "refresher \<Rightarrow> string \<Rightarrow> bool \<Rightarrow> gerr option \<Rightarrow> os \<Rightarrow> tick_env" where
  "refresh_tick_env rf now cancelled ctx s = \<lparr> te_versions = fst (refresh_probe rf (nodes s)), te_errors = snd (refresh_probe rf (nodes s)),
     te_now = now, te_cancelled = cancelled, te_on_change = \<lambda>_. map_option (rf_text rf) (fst (refresh_call rf ctx s)) \<rparr>"

text \<open>A tick on the host: the files change when the callback is called.\<close>

definition refresh_tick ::
  "refresher \<Rightarrow> string \<Rightarrow> bool \<Rightarrow> gerr option \<Rightarrow> watcher \<times> os \<Rightarrow> (watcher \<times> os) \<times> watcher_event list" where
  "refresh_tick rf now cancelled ctx ws =
     (case watcher_tick True (refresh_tick_env rf now cancelled ctx (snd ws)) (fst ws) of (w', ev) \<Rightarrow>
        ((w', if fired ev = [] then snd ws else snd (refresh_call rf ctx (snd ws))), ev))"

definition refresh_baseline :: "refresher \<Rightarrow> string \<Rightarrow> os \<Rightarrow> watcher \<Rightarrow> watcher" where
  "refresh_baseline rf now s w = fst (watcher_baseline (refresh_tick_env rf now False None s) w)"

text \<open>
  Ticks, and what others do in between: anything that leaves the text of the specification alone and
  makes no directory or link of its name; later calls may fail in any way.
\<close>

inductive refresh_step :: "refresher \<Rightarrow> watcher \<times> os \<Rightarrow> watcher \<times> os \<Rightarrow> bool" for rf where
  tick: "refresh_step rf ws (fst (refresh_tick rf now False ctx ws))"
| others: "\<lbrakk> own_plain spec_name (nodes s'); fs_read_file (nodes s') (spec_path (rf_opts rf)) = fs_read_file (nodes s) (spec_path (rf_opts rf)) \<rbrakk>
    \<Longrightarrow> refresh_step rf (w, s) (w, s')"

text \<open>
  A run of the daemon: its first regeneration, the baseline of its watcher, and then any number of steps.
  \<open>seen\<close> are the file systems it has met. The libraries must not change between the first two, because
  the baseline takes what it finds for what the specification was generated from.
\<close>

inductive refresh_run :: "refresher \<Rightarrow> fs list \<Rightarrow> watcher \<times> os \<Rightarrow> bool" for rf where
  start: "\<lbrakk> regenerate_cdi_spec (rf_env rf) (rf_runtime rf) (rf_opts rf) s0 = (None, s1); own_plain spec_name (nodes s0);
      map_of (fst (refresh_probe rf (nodes s1))) = map_of (fst (refresh_probe rf (nodes s0))); new_watcher wo = Some w \<rbrakk>
    \<Longrightarrow> refresh_run rf [nodes s0] (refresh_baseline rf now s1 w, s1)"
| step: "\<lbrakk> refresh_run rf seen ws; refresh_step rf ws ws' \<rbrakk> \<Longrightarrow> refresh_run rf (nodes (snd ws) # seen) ws'"

text \<open>The specification on disk is that of a host with the libraries of the kept snapshot.\<close>

definition in_sync :: "refresher \<Rightarrow> fs list \<Rightarrow> watcher \<Rightarrow> fs \<Rightarrow> bool" where
  "in_sync rf seen w fs \<longleftrightarrow> (\<exists>fs0 \<in> set seen. map_of (w_last w) = map_of (fst (refresh_probe rf fs0))
     \<and> (\<exists>data. current_spec (rf_env rf) (rf_runtime rf) (rf_opts rf) fs0 = Inr data \<and> fs_read_file fs (spec_path (rf_opts rf)) = Inr data))"

definition refresh_inv :: "refresher \<Rightarrow> fs list \<Rightarrow> watcher \<times> os \<Rightarrow> bool" where
  "refresh_inv rf seen ws \<longleftrightarrow> own_plain spec_name (nodes (snd ws)) \<and> snap_ok (w_last (fst ws)) \<and> list_all (\<lambda>(k, v). v \<noteq> []) (w_last (fst ws))
     \<and> (w_last_err (fst ws) = None \<longrightarrow> in_sync rf seen (fst ws) (nodes (snd ws)))"

text \<open>
  What the watcher relies on of a probe: each library has one fingerprint, and it is not the empty text.
  Under these laws its comparison of two snapshots is inequality of the maps.
\<close>

locale prober =
  fixes probe :: "'s \<Rightarrow> snapshot"
  assumes probe_keys: "snap_ok (probe x)"
    and probe_values: "list_all (\<lambda>(k, v). v \<noteq> []) (probe x)"
begin

lemma differ_iff: "versions_differ (probe x) (probe y) \<longleftrightarrow> map_of (probe x) \<noteq> map_of (probe y)"
  by (rule versions_differ_exact [OF probe_keys probe_keys probe_values])

lemma same_stays: "\<lbrakk> snap_ok m; list_all (\<lambda>(k, v). v \<noteq> []) m; \<not> versions_differ m (probe x) \<rbrakk> \<Longrightarrow> map_of m = map_of (probe x)"
  using versions_differ_exact [OF _ probe_keys] by blast

end

interpretation host: prober "\<lambda>fs. fst (refresh_probe rf fs)" for rf
  by unfold_locales (use probe_result(1) probe_nonempty in \<open>simp_all add: refresh_probe_def snap_ok_def\<close>)

lemmas refresh_probe_ok = host.probe_keys host.probe_values

lemma refresh_call_cases:
  assumes "refresh_call rf ctx s = (r, s')"
  obtains (cancelled) e where "r = Some e" "s' = s"
  | (ran) "regenerate_cdi_spec (rf_env rf) (rf_runtime rf) (rf_opts rf) s = (r, s')"
  using assms by (auto simp: refresh_call_def refresh_on_change_def split: option.splits)

text \<open>The cases of a tick.\<close>

lemma refresh_tick_cases:
  assumes "refresh_tick rf now False ctx (w, s) = ((w', s'), ev)"
  obtains (same) "\<not> versions_differ (w_last w) (fst (refresh_probe rf (nodes s)))" "s' = s"
      "w_last w' = fst (refresh_probe rf (nodes s))" "w_last_err w' = w_last_err w"
  | (refreshed) "refresh_call rf ctx s = (None, s')" "w_last w' = fst (refresh_probe rf (nodes s))" "w_last_err w' = None"
  | (failed) e where "refresh_call rf ctx s = (Some e, s')" "w_last w' = w_last w" "w_last_err w' = Some (rf_text rf e)"
proof -
  obtain r t where r: "refresh_call rf ctx s = (r, t)" by fastforce
  note d = refresh_tick_def watcher_tick_def refresh_tick_env_def
  show thesis
  proof (cases "versions_differ (w_last w) (fst (refresh_probe rf (nodes s)))")
    case False
    have "s' = s" "w_last w' = fst (refresh_probe rf (nodes s))" "w_last_err w' = w_last_err w"
      using assms False by (auto simp: d Let_def)
    with False show thesis by (rule same)
  next
    case True
    show thesis
    proof (cases r)
      case None
      have "s' = t" "w_last w' = fst (refresh_probe rf (nodes s))" "w_last_err w' = None"
        using assms True r None by (auto simp: d Let_def)
      with r None refreshed show thesis by simp
    next
      case (Some e)
      have "s' = t" "w_last w' = w_last w" "w_last_err w' = Some (rf_text rf e)"
        using assms True r Some by (auto simp: d Let_def)
      with r Some failed show thesis by simp
    qed
  qed
qed

lemma refresh_step_inv:
  assumes ok: "refresh_ok (rf_env rf) (rf_opts rf)" and step: "refresh_step rf ws ws'" and inv: "refresh_inv rf seen ws"
  shows "refresh_inv rf (nodes (snd ws) # seen) ws'"
proof (cases ws)
  case ws: (Pair w s)
  from inv have plain: "own_plain spec_name (nodes s)" and snap: "snap_ok (w_last w)" "list_all (\<lambda>(k, v). v \<noteq> []) (w_last w)"
    and sync: "w_last_err w = None \<Longrightarrow> in_sync rf seen w (nodes s)"
    by (simp_all add: refresh_inv_def ws)
  from step show ?thesis
  proof (cases rule: refresh_step.cases)
    case (tick now ctx)
    then obtain w' s' ev where t: "refresh_tick rf now False ctx (w, s) = ((w', s'), ev)" and ws': "ws' = (w', s')"
      unfolding ws by (metis prod.collapse fst_conv)
    have p': "own_plain spec_name (nodes s')" if "refresh_call rf ctx s = (r, s')" for r
      using that regenerate_plain [OF ok _ plain] plain by (cases rule: refresh_call_cases) auto
    from t show ?thesis
    proof (cases rule: refresh_tick_cases)
      case same
      then have "map_of (w_last w) = map_of (fst (refresh_probe rf (nodes s)))"
        using host.same_stays [OF snap] by blast
      with same sync plain show ?thesis using refresh_probe_ok by (auto simp: refresh_inv_def ws' ws in_sync_def)
    next
      case refreshed
      from refreshed(1) have "regenerate_cdi_spec (rf_env rf) (rf_runtime rf) (rf_opts rf) s = (None, s')"
        by (cases rule: refresh_call_cases) simp_all
      from regenerate_installs [OF ok this plain] obtain data where
        "current_spec (rf_env rf) (rf_runtime rf) (rf_opts rf) (nodes s) = Inr data" "fs_read_file (nodes s') (spec_path (rf_opts rf)) = Inr data"
        by blast
      then have "in_sync rf (nodes s # seen) w' (nodes s')" using refreshed(2) by (simp add: in_sync_def)
      with refreshed p' show ?thesis using refresh_probe_ok by (simp add: refresh_inv_def ws' ws)
    next
      case (failed e)
      with p' snap show ?thesis by (simp add: refresh_inv_def ws' ws)
    qed
  next
    case (others s1 s0 w0)
    with inv show ?thesis by (auto simp: refresh_inv_def in_sync_def)
  qed
qed


lemma refresh_run_inv:
  assumes "refresh_ok (rf_env rf) (rf_opts rf)"
  shows "refresh_run rf seen ws \<Longrightarrow> refresh_inv rf seen ws"
proof (induction rule: refresh_run.induct)
  case (start s0 s1 wo w now)
  from regenerate_installs [OF assms start(1,2)] obtain data where
    "current_spec (rf_env rf) (rf_runtime rf) (rf_opts rf) (nodes s0) = Inr data" "fs_read_file (nodes s1) (spec_path (rf_opts rf)) = Inr data"
    by blast
  with regenerate_plain [OF assms start(1,2)] start(3) show ?case
    by (simp add: refresh_inv_def in_sync_def refresh_baseline_def watcher_baseline_def refresh_tick_env_def refresh_probe_ok Let_def)
next
  case (step seen ws ws')
  from refresh_step_inv [OF assms step(2,3)] show ?case .
qed


text \<open>
  The baseline never calls back, so a driver that changes between the first regeneration and the baseline
  stays unnoticed: ticks that find the libraries the baseline found do nothing.
\<close>

lemma baseline_absorbs:
  assumes "w = refresh_baseline rf now s w0" "map_of (fst (refresh_probe rf (nodes t))) = map_of (fst (refresh_probe rf (nodes s)))"
  shows "snd (fst (refresh_tick rf now' False ctx (w, t))) = t"
proof -
  obtain w' t' ev where e: "refresh_tick rf now' False ctx (w, t) = ((w', t'), ev)" by (metis prod.collapse)
  have "w_last w = fst (refresh_probe rf (nodes s))"
    by (simp add: assms(1) refresh_baseline_def watcher_baseline_def refresh_tick_env_def Let_def)
  then have "\<not> versions_differ (w_last w) (fst (refresh_probe rf (nodes t)))"
    using host.differ_iff assms(2) by metis
  then have "t' = t" using e by (auto simp: refresh_tick_def watcher_tick_def refresh_tick_env_def Let_def)
  with e show ?thesis by simp
qed


text \<open>A driver library appears after the daemon's start, and the next tick rewrites the specification.\<close>

definition demo_refresher :: refresher where
  "demo_refresher = \<lparr> rf_env = demo_daemon_env, rf_runtime = RuntimeDocker, rf_opts = demo_daemon_opts, rf_dirs = [''/lib''],
     rf_elf = \<lambda>_ _. None, rf_stat = \<lambda>fs p. (case fs_read_file fs p of Inl e \<Rightarrow> Inl e | Inr b \<Rightarrow> Inr (int (length b), 0)), rf_text = \<lambda>_. ''error'' \<rparr>"

definition demo_spec_nodes :: fs where
  "demo_spec_nodes = [([''etc''], Dir), ([''etc'', ''daemon.json''], Reg ''{}'' 0x1A4), ([''cdi''], Dir),
     ([''cdi'', ''rbln.yaml''], Reg ''new rebellions.ai/npu'' 0x1A4)]"

definition demo_upgraded :: os where
  "demo_upgraded = \<lparr> nodes = demo_spec_nodes @ [([''lib''], Dir), ([''lib'', ''librbln-ccl.so.3''], Reg ''elf'' 0x1ED)], faults = [], history = [] \<rparr>"

lemma demo_started:
  "\<exists>s1. regenerate_cdi_spec demo_daemon_env RuntimeDocker demo_daemon_opts demo_config_os = (None, s1) \<and> nodes s1 = demo_spec_nodes"
proof -
  have "(case regenerate_cdi_spec demo_daemon_env RuntimeDocker demo_daemon_opts demo_config_os of (r, s) \<Rightarrow> r = None \<and> nodes s = demo_spec_nodes)"
    by code_simp
  then show ?thesis by (auto split: prod.splits)
qed

lemma demo_probes:
  "fst (refresh_probe demo_refresher (nodes demo_config_os)) = []" "fst (refresh_probe demo_refresher demo_spec_nodes) = []"
  "fst (refresh_probe demo_refresher (nodes demo_upgraded)) = [(''/lib/librbln-ccl.so.3'', ''size:3,mtime:0'')]"
  by code_simp+

lemma demo_spec_files: "own_plain spec_name (nodes demo_config_os)" "own_plain spec_name (nodes demo_upgraded)"
  by (rule own_files_plain, code_simp)+

lemma demo_spec_read:
  "fs_read_file demo_spec_nodes (spec_path (rf_opts demo_refresher)) = Inr ''new rebellions.ai/npu''"
  "fs_read_file (nodes demo_upgraded) (spec_path (rf_opts demo_refresher)) = Inr ''new rebellions.ai/npu''"
  by code_simp+

lemma demo_upgraded_run: "fst (regenerate_cdi_spec demo_daemon_env RuntimeDocker demo_daemon_opts demo_upgraded) = None"
  by code_simp

lemma demo_refresh_ok: "refresh_ok (rf_env demo_refresher) (rf_opts demo_refresher)"
  by (simp add: refresh_ok_def demo_refresher_def demo_daemon_env_def demo_daemon_opts_def demo_env_def spec_name_def path_comps_def)


end
