(* ===== verification/Spec2Isabelle.thy ===== *)
theory Spec2Isabelle
  imports Config Topology Discover Elf_Resolver Library_Discovery Fingerprint Cdi_Spec Generator Writer
    Cdi_Setup Runtime_Config Runtime_Configure Daemon Restart Installer Daemon_Cmd Cdi_Hook Ctk_Cli Health Host_Tree Refresh
begin

text \<open>
  A verification library for the RBLN container toolkit: the Go program that lets containers use
  Rebellions NPUs. It looks for driver libraries, tools and device nodes on a host, writes a specification of
  the Container Device Interface (CDI) that tells a container runtime what to put into a container, makes the
  runtime read it, and keeps it up to date. All paths below are under \<open>src/\<close>.

  \<^bold>\<open>The parts and how they interact.\<close>
  A configuration (\<open>internal/config\<close>) goes into the discoverers (\<open>internal/discover\<close>), whose result goes, with
  the resolver of RSD groups (\<open>internal/topology\<close>), into the generator (\<open>internal/cdi/generator.go\<close>) and from there
  into the writer (\<open>writer.go\<close>); \<open>internal/cdi/setup\<close> composes them. \<open>internal/runtime\<close> edits the
  configuration of containerd, CRI-O or Docker and tells whether a runtime is ready for CDI, and
  \<open>internal/restart\<close> restarts it. The installer (\<open>internal/installer\<close>) does all of this once under a lock;
  the daemon (\<open>cmd/rbln-ctk-daemon\<close>, \<open>internal/daemon\<close>) does it at its start, then waits for a signal while a
  watcher generates again whenever the driver changes, answers health probes, and cleans up at its end. The
  user's command (\<open>cmd/rbln-ctk\<close>) runs single steps; the hook (\<open>cmd/rbln-cdi-hook\<close>, \<open>internal/oci\<close>,
  \<open>internal/ldconfig\<close>) is what the specification makes the runtime call inside a container.

  \<^bold>\<open>The world outside.\<close>
  \<^item> \<open>Go_Strings\<close>, \<open>Go_Path\<close>: the functions of Go's \<open>strings\<close>, \<open>strconv\<close>, \<open>sort\<close> and \<open>path/filepath\<close> the code
    calls, on byte lists, and the prelude of the development (the collections \<open>go_simps\<close>, \<open>err_simps\<close>).
  \<^item> \<open>Posix_FS\<close>: a file system as an association list from places to nodes, the kernel's walk, the calls of
    \<open>os\<close>. The state \<open>os\<close> holds the files, a script of faults (\<open>None\<close> lets the next call through,
    \<open>Some e\<close> makes it fail with \<open>e\<close>) and the history of all file systems another process could have seen; \<open>query\<close>
    and \<open>effect\<close> are the two kinds of calls. \<open>extends\<close> and \<open>keeps\<close> say what an operation leaves alone.
  \<^item> \<open>Fs_Tree\<close>: file systems in which everything is in a directory, and the interfaces \<open>file_invariant\<close> and
    \<open>call_invariant\<close>: what each call keeps, every operation keeps.
  \<^item> \<open>Trees\<close>, \<open>Json_String\<close>, \<open>Json\<close>, \<open>Json_Laws\<close>, \<open>Json_Struct\<close>: parsed TOML and JSON documents and Go's
    \<open>encoding/json\<close> in both directions, with the round trip for every typed document.
  \<^item> \<open>Errors\<close>: error values; \<open>%w\<close> keeps what it wraps visible to \<open>errors.Is\<close>, \<open>%v\<close> does not.

  \<^bold>\<open>The components.\<close> Each theory has the code's types as records and datatypes under the code's names, one
  definition per function, and the lemmas about them.
  \<^item> \<open>Config\<close>: \<open>types.go\<close>, \<open>defaults.go\<close>, \<open>options.go\<close>, \<open>loader.go\<close>; the priority of the four sources.
  \<^item> \<open>Topology\<close>: \<open>resolver.go\<close>, \<open>rblnml.go\<close> and the calls of \<open>third_party/go-rbln-ml\<close> it makes; the mapping
    holds exactly the NPUs that could be read, and the statistics add up (interface \<open>snapshot_resolver\<close>).
  \<^item> \<open>Discover\<close>, \<open>Elf_Resolver\<close>, \<open>Library_Discovery\<close>: devices, tools, the linker cache, \<open>ldd\<close>, sonames, the
    breadth-first search over needed libraries (total, and exactly the reachable ones), dependencies and plugins.
  \<^item> \<open>Fingerprint\<close>: \<open>umdfingerprint.go\<close>; the build-id note parser on bytes and words never indexes out of
    bounds and inverts the encoding of notes, and the probe reports exactly the libraries it should.
  \<^item> \<open>Cdi_Spec\<close>, \<open>Generator\<close>, \<open>Writer\<close>, \<open>Cdi_Setup\<close>: \<open>internal/cdi\<close>; what selecting an NPU gives a container,
    distinct names and mounts, valid and lossless output, an atomic write under every script of faults, and that a
    successful run installs the text for the present host.
  \<^item> \<open>Runtime_Config\<close>, \<open>Runtime_Configure\<close>: \<open>internal/runtime\<close>; the edits keep all other settings (for Docker from
    text to text), configured runtimes are ready, reverting restores the text (interface \<open>text_store\<close>).
  \<^item> \<open>Restart\<close>, \<open>Installer\<close>: the retries of the signal restarter; set-up in order, refusals that change nothing.
  \<^item> \<open>Daemon_State\<close>, \<open>Watcher\<close>, \<open>Pid_Lock\<close>, \<open>Daemon\<close>, \<open>Health\<close>: \<open>internal/daemon\<close>. The life cycle as an
    interleaving of its goroutines with signals and cancellation (which states are reported, that a shutdown ends, and in
    which order); the PID lock between processes, every call one step; the watcher, which refines one
    remembered snapshot; the health endpoints with the bodies they send and the graceful end of their server.
  \<^item> \<open>Daemon_Cmd\<close>: \<open>cmd/rbln-ctk-daemon\<close>; no effect before all checks, a runtime touched only when it is not ready,
    and never again on a host that was configured once.
  \<^item> \<open>Cdi_Hook\<close>: the links a container ends up with, and the process that runs \<open>ldconfig\<close> in it.
  \<^item> \<open>Ctk_Cli\<close>: \<open>cmd/rbln-ctk\<close>, \<open>internal/output\<close>; asking before changing, previews that tell the truth.
  \<^item> \<open>Refresh\<close>: the watcher over the real probe and the real generation on one host, while others change it: a
    tick that reports no error leaves the specification in step with the driver (interface \<open>prober\<close>).
  \<^item> \<open>Host_Tree\<close>: every operation, and every sequence of commands, under the laws of \<open>call_invariant\<close>.

  \<^bold>\<open>Bounds and fuel.\<close> The kernel follows at most 40 links (\<open>max_links\<close>) and \<open>filepath.EvalSymlinks\<close> 255, as the
  real ones do. The JSON reader has fuel of twice the length of the text and one more, which is proved
  enough (\<open>json_fuel\<close>), and refuses documents nested deeper than 10000 as Go does. The search for dependencies is a
  \<open>partial_function\<close> with a proof that it returns. A forced takeover probes 30 times; a daemon that was told to
  stop ends within 117 steps of its own. Sizes in notes are machine words; ports, intervals and
  counters are integers, as the code compares them only with bounds far below an overflow.

  \<^bold>\<open>Parameters.\<close> What is not in the repository or not of the language is an argument: the TOML and YAML libraries and
  the way a float is printed (with the round-trip law as a named hypothesis, \<open>codecs_ok\<close>), \<open>debug/elf\<close>, \<open>ldd\<close>, \<open>ldconfig\<close>,
  \<open>librbln-ml\<close>, commands and their output, sockets and \<open>kill\<close>, the environment, the clock, the random
  suffixes of temporary files and the way the kernel splits a write.

  \<^bold>\<open>Not modelled.\<close> Generated mocks (\<open>*_mock.go\<close>) and the end-to-end tests hold no program logic. The rest of
  \<open>third_party/go-rbln-ml\<close> is a binding to C of which the program calls initialisation and three readings
  (\<open>Topology\<close>), and a shutdown whose result it drops. Of the flag library only the order
  of the bindings is modelled; help texts, log lines, the column layout of tables and the version command are
  left out, and interfaces, empty constructors and accessors with a mutex around a field have no definition of their
  own. Connections and time-outs inside \<open>net/http\<close> are behind the steps of \<open>Health\<close>.
\<close>

end
